theory Spec2Isabelle
  imports Main "HOL-Library.Sublist"
begin

section \<open>Strings and the POSIX \<open>path\<close> module\<close>

text \<open>
  The services import Node's \<open>path\<close> module. Paths are strings (\<open>char list\<close>), the
  separator is \<open>/\<close> (the POSIX flavour of the module). The functions below follow the
  module's algorithms: \<open>normalizeString\<close> walks the segments between separators with a
  stack, \<open>dirname\<close> and \<open>basename\<close> scan from the end of the string.
\<close>

text \<open>\<open>s.startsWith(x)\<close> and \<open>s.endsWith(x)\<close> of JavaScript strings.\<close>

definition startsWith :: "string \<Rightarrow> string \<Rightarrow> bool" where
  "startsWith s x = (take (length x) s = x)"

definition endsWith :: "string \<Rightarrow> string \<Rightarrow> bool" where
  "endsWith s x = (length x \<le> length s \<and> drop (length s - length x) s = x)"

text \<open>The segments of a path: the substrings between separators (some may be empty).\<close>

primrec pieces :: "string \<Rightarrow> string list" where
  "pieces [] = [[]]"
| "pieces (c # cs) =
     (if c = CHR ''/'' then [] # pieces cs
      else (case pieces cs of [] \<Rightarrow> [[c]] | p # ps \<Rightarrow> (c # p) # ps))"

text \<open>\<open>segs.join('/')\<close>.\<close>

fun join_slash :: "string list \<Rightarrow> string" where
  "join_slash [] = []"
| "join_slash [x] = x"
| "join_slash (x # y # ys) = x @ ''/'' @ join_slash (y # ys)"

text \<open>
  One step of \<open>normalizeString\<close>: an empty segment and \<open>.\<close> are skipped; \<open>..\<close> removes
  the last segment kept so far unless there is none or it is \<open>..\<close> itself, in which case
  \<open>..\<close> is kept when \<open>allowAboveRoot\<close> and dropped otherwise; any other segment is kept.
\<close>

definition norm_step :: "bool \<Rightarrow> string list \<Rightarrow> string \<Rightarrow> string list" where
  "norm_step allowAboveRoot res seg =
     (if seg = [] \<or> seg = ''.'' then res
      else if seg = ''..'' then
        (if res \<noteq> [] \<and> last res \<noteq> ''..'' then butlast res
         else if allowAboveRoot then res @ [''..''] else res)
      else res @ [seg])"

definition normalizeString :: "string \<Rightarrow> bool \<Rightarrow> string" where
  "normalizeString path allowAboveRoot =
     join_slash (foldl (norm_step allowAboveRoot) [] (pieces path))"

definition normalize :: "string \<Rightarrow> string" where
  "normalize path =
     (if path = [] then ''.''
      else
        let isAbsolute = (hd path = CHR ''/'');
            trailingSeparator = (last path = CHR ''/'');
            p = normalizeString path (\<not> isAbsolute)
        in if p = [] then (if isAbsolute then ''/'' else if trailingSeparator then ''./'' else ''.'')
           else (if isAbsolute then ''/'' else []) @ p @ (if trailingSeparator then ''/'' else []))"

text \<open>\<open>path.join(...args)\<close>: the non-empty arguments joined with \<open>/\<close>, then normalized.\<close>

definition path_join :: "string list \<Rightarrow> string" where
  "path_join args =
     (let joined = join_slash (filter (\<lambda>a. a \<noteq> []) args)
      in if joined = [] then ''.'' else normalize joined)"

text \<open>
  \<open>path.dirname\<close>: scanning from the end down to index 1, trailing separators are skipped,
  then the last segment, and the result is the string before the separator found there
  (only that one separator is removed). Without such a separator the result is \<open>/\<close> for a
  rooted path and \<open>.\<close> otherwise; a separator found at index 1 of a rooted path gives \<open>//\<close>.
\<close>

definition dirname :: "string \<Rightarrow> string" where
  "dirname path =
     (if path = [] then ''.''
      else
        let hasRoot = (hd path = CHR ''/'');
            r = dropWhile (\<lambda>c. c \<noteq> CHR ''/'') (dropWhile (\<lambda>c. c = CHR ''/'') (rev path))
        in if length r \<le> 1 then (if hasRoot then ''/'' else ''.'')
           else if hasRoot \<and> length r = 2 then ''//''
           else take (length r - 1) path)"

text \<open>\<open>path.basename\<close> (one argument): the last segment, trailing separators ignored.\<close>

definition basename :: "string \<Rightarrow> string" where
  "basename path =
     rev (takeWhile (\<lambda>c. c \<noteq> CHR ''/'') (dropWhile (\<lambda>c. c = CHR ''/'') (rev path)))"

text \<open>
  The split of a base name at its last dot, as \<open>path.extname\<close> and \<open>path.parse\<close> compute it:
  there is no extension when the name has no dot, when the last dot is its first character,
  or when the name is \<open>..\<close>. In \<open>path.parse\<close> the last test compares against a start index
  that is not advanced past the root separator, so that it never succeeds for a rooted path
  of one segment (\<open>rootedSingle\<close>).
\<close>

definition splitExt :: "bool \<Rightarrow> string \<Rightarrow> string \<times> string" where
  "splitExt rootedSingle base =
     (let e = rev (takeWhile (\<lambda>c. c \<noteq> CHR ''.'') (rev base));
          stem = take (length base - length e - 1) base
      in if CHR ''.'' \<notin> set base \<or> stem = [] \<or> (\<not> rootedSingle \<and> base = ''..'')
         then (base, [])
         else (stem, drop (length stem) base))"

definition extname :: "string \<Rightarrow> string" where
  "extname path = snd (splitExt False (basename path))"

text \<open>\<open>path.parse(p).name\<close>.\<close>

definition parse_name :: "string \<Rightarrow> string" where
  "parse_name path =
     (let rootedSingle =
            (path \<noteq> [] \<and> hd path = CHR ''/'' \<and>
             CHR ''/'' \<notin> set (dropWhile (\<lambda>c. c = CHR ''/'') (rev (tl path))))
      in fst (splitExt rootedSingle (basename path)))"

text \<open>\<open>s.toLowerCase()\<close> on the ASCII letters (the extension tables below are ASCII).\<close>

definition toLowerChar :: "char \<Rightarrow> char" where
  "toLowerChar c =
     (case map_of (zip ''ABCDEFGHIJKLMNOPQRSTUVWXYZ'' ''abcdefghijklmnopqrstuvwxyz'') c of
        None \<Rightarrow> c
      | Some d \<Rightarrow> d)"

definition toLowerCase :: "string \<Rightarrow> string" where
  "toLowerCase s = map toLowerChar s"


section \<open>Errors\<close>

text \<open>
  The values that the code throws: a plain \<open>Error\<close> with a message, an error of Node's
  \<open>fs\<close> module (it carries a \<open>code\<close> such as \<open>ENOENT\<close>), and an error of the WebDAV client
  for an HTTP response (it carries \<open>response.status\<close>). A failure of the WebDAV client
  without a response (the network) is a plain \<open>Error\<close>: it has neither \<open>code\<close> nor
  \<open>response\<close>. The messages of the source are Chinese; they are rendered in English here.
\<close>

datatype error =
    Error string
  | SystemError string string
  | HTTPError nat string

fun error_message :: "error \<Rightarrow> string" where
  "error_message (Error m) = m"
| "error_message (SystemError c m) = m"
| "error_message (HTTPError st m) = m"

fun error_code :: "error \<Rightarrow> string option" where
  "error_code (SystemError c m) = Some c"
| "error_code _ = None"

fun error_response_status :: "error \<Rightarrow> nat option" where
  "error_response_status (HTTPError st m) = Some st"
| "error_response_status _ = None"

section \<open>Resource libraries\<close>

datatype ResourceType = Video | Image | Audio | Folder

datatype LibraryType = Local | WebDAV | SMB | FTP

text \<open>
  \<open>ResourceInfo\<close> of \<open>resources/types.ts\<close>. The media fields (\<open>duration\<close>, \<open>resolution\<close>,
  \<open>thumbnail\<close>) hold what \<open>ffprobe\<close> reports; nothing in the theme service reads them and
  they are left out.
\<close>

record ResourceInfo =
  name :: string
  path :: string
  type :: ResourceType
  size' :: "nat option"
  modifiedTime :: "nat option"
  extension :: "string option"

text \<open>
  The operations of a resource library that the theme service calls, over a store \<open>'w\<close>.
  \<open>list\<close> and \<open>getInfo\<close> read the store; \<open>createFolder\<close> and \<open>move\<close> return the store
  they leave behind, also when they throw.
\<close>

record 'w IResourceLibrary =
  list :: "string \<Rightarrow> 'w \<Rightarrow> error + ResourceInfo list"
  getInfo :: "string \<Rightarrow> 'w \<Rightarrow> error + ResourceInfo"
  createFolder :: "string \<Rightarrow> 'w \<Rightarrow> (error + unit) \<times> 'w"
  move :: "string \<Rightarrow> string \<Rightarrow> 'w \<Rightarrow> (error + unit) \<times> 'w"

text \<open>A row of the resource library table, with the configuration \<open>'c\<close> of its provider.\<close>

record 'c ResourceLibraryRow =
  libraryName :: string
  libraryType :: LibraryType
  isActive :: bool
  config :: 'c

section \<open>Themes\<close>

record ThemeResourcePath =
  libraryId :: nat
  folderPath :: string

record Theme =
  themeName :: string
  archiveFolderName :: "string option"
  resourcePaths :: "ThemeResourcePath list"

text \<open>
  What the services read: the theme table (\<open>ThemeModel.findById\<close>), the resource library
  table (\<open>ResourceLibraryModel.findById\<close>), the providers registered with
  \<open>ResourceLibraryFactory\<close>, and the static map \<open>libraryInstances\<close> of \<open>ResourceService\<close>
  with the instances created so far.
\<close>

record ('c, 'w) Env =
  themes :: "nat \<Rightarrow> Theme option"
  libraries :: "nat \<Rightarrow> 'c ResourceLibraryRow option"
  providers :: "LibraryType \<Rightarrow> ('c \<Rightarrow> 'w IResourceLibrary) option"
  libraryInstances :: "nat \<Rightarrow> 'w IResourceLibrary option"

text \<open>
  \<open>ResourceService.getLibraryInstance\<close>: an instance found in \<open>libraryInstances\<close> is
  returned as it is, whatever the table says by now; otherwise the row is read, must
  exist and be active, and the instance is created from its type and configuration.
\<close>

definition getLibraryInstance :: "('c, 'w) Env \<Rightarrow> nat \<Rightarrow> error + 'w IResourceLibrary" where
  "getLibraryInstance env lid =
     (case libraryInstances env lid of
        Some instance \<Rightarrow> Inr instance
      | None \<Rightarrow>
          (case libraries env lid of
             None \<Rightarrow> Inl (Error ''resource library does not exist'')
           | Some libraryConfig \<Rightarrow>
               if \<not> isActive libraryConfig then Inl (Error ''resource library is not active'')
               else (case providers env (libraryType libraryConfig) of
                       None \<Rightarrow> Inl (Error ''resource library type is not registered'')
                     | Some Provider \<Rightarrow> Inr (Provider (config libraryConfig)))))"

text \<open>
  The map \<open>libraryInstances\<close> after the call: the instance just created is stored under
  the library id. The services below read the map and the tables as they are when the
  service is called; a lookup after the instance has been stored returns what the lookup
  before returned (\<open>getLibraryInstance_stored\<close>), so the stored instances are not passed
  from one lookup to the next.
\<close>

definition libraryInstancesAfter ::
  "('c, 'w) Env \<Rightarrow> nat \<Rightarrow> nat \<Rightarrow> 'w IResourceLibrary option" where
  "libraryInstancesAfter env lid =
     (case getLibraryInstance env lid of
        Inl e \<Rightarrow> libraryInstances env
      | Inr instance \<Rightarrow> (libraryInstances env)(lid \<mapsto> instance))"

text \<open>
  \<open>ResourceService.browseLibrary\<close> with the options the theme service passes: only
  \<open>type\<close> is set, so the branches for \<open>sortBy\<close> and \<open>includeMetadata\<close> are not taken.
\<close>

definition browseLibrary ::
  "('c, 'w) Env \<Rightarrow> nat \<Rightarrow> string \<Rightarrow> ResourceType option \<Rightarrow> 'w \<Rightarrow> error + ResourceInfo list" where
  "browseLibrary env lid p optType w =
     (case getLibraryInstance env lid of
        Inl e \<Rightarrow> Inl e
      | Inr instance \<Rightarrow>
          (case list instance p w of
             Inl e \<Rightarrow> Inl e
           | Inr resources \<Rightarrow>
               (case optType of
                  None \<Rightarrow> Inr resources
                | Some t \<Rightarrow> Inr (filter (\<lambda>r. type r = t) resources))))"

text \<open>An entry of the video inventory: the listed resource and the four fields added to it.\<close>

record VideoEntry = ResourceInfo +
  libraryId :: nat
  libraryPath :: string
  fullPath :: string
  isPublished :: bool

definition withInfo :: "nat \<Rightarrow> string \<Rightarrow> bool \<Rightarrow> ResourceInfo \<Rightarrow> VideoEntry" where
  "withInfo lid lpath published video =
     \<lparr> name = name video, path = path video, type = type video, size' = size' video,
       modifiedTime = modifiedTime video, extension = extension video,
       libraryId = lid, libraryPath = lpath,
       fullPath = lpath @ ''/'' @ name video, isPublished = published \<rparr>"

text \<open>\<open>theme.archiveFolderName || 'published'\<close>: null and the empty string give the default.\<close>

definition effectiveArchiveFolderName :: "Theme \<Rightarrow> string" where
  "effectiveArchiveFolderName theme =
     (case archiveFolderName theme of
        None \<Rightarrow> ''published''
      | Some n \<Rightarrow> if n = [] then ''published'' else n)"

text \<open>
  The loop of \<open>ThemeService.getThemeVideos\<close> over the resource paths, with the array
  \<open>allVideos\<close> it pushes to. The outer \<open>catch\<close> skips the rest of a root whose main folder
  cannot be browsed, the inner one a root's archive folder.
\<close>

fun getThemeVideos_loop ::
  "('c, 'w) Env \<Rightarrow> string \<Rightarrow> 'w \<Rightarrow> ThemeResourcePath list \<Rightarrow> VideoEntry list \<Rightarrow> VideoEntry list" where
  "getThemeVideos_loop env archiveName w [] allVideos = allVideos"
| "getThemeVideos_loop env archiveName w (resourcePath # rest) allVideos =
     (case browseLibrary env (ThemeResourcePath.libraryId resourcePath) (folderPath resourcePath)
             (Some Video) w of
        Inl e \<Rightarrow> getThemeVideos_loop env archiveName w rest allVideos
      | Inr mainResources \<Rightarrow>
          (let mainVideos = filter (\<lambda>r. type r = Video) mainResources;
               mainVideosWithInfo =
                 map (withInfo (ThemeResourcePath.libraryId resourcePath) (folderPath resourcePath) False)
                   mainVideos;
               allVideos1 = allVideos @ mainVideosWithInfo;
               archivePath = path_join [folderPath resourcePath, archiveName]
           in (case browseLibrary env (ThemeResourcePath.libraryId resourcePath) archivePath
                       (Some Video) w of
                 Inl e \<Rightarrow> getThemeVideos_loop env archiveName w rest allVideos1
               | Inr archiveResources \<Rightarrow>
                   (let archiveVideos = filter (\<lambda>r. type r = Video) archiveResources;
                        archiveVideosWithInfo =
                          map (withInfo (ThemeResourcePath.libraryId resourcePath) archivePath True)
                            archiveVideos
                    in getThemeVideos_loop env archiveName w rest
                         (allVideos1 @ archiveVideosWithInfo)))))"

definition getThemeVideos :: "('c, 'w) Env \<Rightarrow> nat \<Rightarrow> 'w \<Rightarrow> error + VideoEntry list" where
  "getThemeVideos env themeId w =
     (case themes env themeId of
        None \<Rightarrow> Inl (Error ''theme library does not exist'')
      | Some theme \<Rightarrow>
          Inr (getThemeVideos_loop env (effectiveArchiveFolderName theme) w (resourcePaths theme) []))"

record ThemeStatistics =
  published :: nat
  unpublished :: nat

definition getThemeStatistics :: "('c, 'w) Env \<Rightarrow> nat \<Rightarrow> 'w \<Rightarrow> error + ThemeStatistics" where
  "getThemeStatistics env themeId w =
     (case getThemeVideos env themeId w of
        Inl e \<Rightarrow> Inl e
      | Inr videos \<Rightarrow>
          Inr \<lparr> published = length (filter (\<lambda>v. isPublished v) videos),
                unpublished = length (filter (\<lambda>v. \<not> isPublished v) videos) \<rparr>)"


section \<open>Archiving and unarchiving\<close>

text \<open>
  \<open>ThemeService.archiveVideo\<close>: the archive folder is created when \<open>getInfo\<close> on it throws,
  then the video is moved into it. Whatever \<open>createFolder\<close> or \<open>move\<close> throws leaves the
  method.
\<close>

definition archiveVideo ::
  "('c, 'w) Env \<Rightarrow> nat \<Rightarrow> nat \<Rightarrow> string \<Rightarrow> 'w \<Rightarrow> (error + unit) \<times> 'w" where
  "archiveVideo env themeId lid videoPath w =
     (case themes env themeId of
        None \<Rightarrow> (Inl (Error ''theme library does not exist''), w)
      | Some theme \<Rightarrow>
          (case getLibraryInstance env lid of
             Inl e \<Rightarrow> (Inl e, w)
           | Inr library \<Rightarrow>
               (let directory = dirname videoPath;
                    filename = basename videoPath;
                    archivePath = path_join [directory, effectiveArchiveFolderName theme];
                    targetPath = path_join [archivePath, filename]
                in (case getInfo library archivePath w of
                      Inr info \<Rightarrow> move library videoPath targetPath w
                    | Inl e \<Rightarrow>
                        (case createFolder library archivePath w of
                           (Inl e', w') \<Rightarrow> (Inl e', w')
                         | (Inr u, w') \<Rightarrow> move library videoPath targetPath w')))))"

text \<open>
  \<open>ThemeService.unarchiveVideo\<close>: the check is \<open>directory.endsWith(archiveFolderName)\<close>;
  the target is one directory up.
\<close>

definition unarchiveVideo ::
  "('c, 'w) Env \<Rightarrow> nat \<Rightarrow> nat \<Rightarrow> string \<Rightarrow> 'w \<Rightarrow> (error + unit) \<times> 'w" where
  "unarchiveVideo env themeId lid videoPath w =
     (case themes env themeId of
        None \<Rightarrow> (Inl (Error ''theme library does not exist''), w)
      | Some theme \<Rightarrow>
          (case getLibraryInstance env lid of
             Inl e \<Rightarrow> (Inl e, w)
           | Inr library \<Rightarrow>
               (let directory = dirname videoPath;
                    filename = basename videoPath
                in if \<not> endsWith directory (effectiveArchiveFolderName theme)
                   then (Inl (Error ''the video is not in the archive folder''), w)
                   else
                     (let parentDir = dirname directory;
                          targetPath = path_join [parentDir, filename]
                      in move library videoPath targetPath w))))"

text \<open>An entry of \<open>results\<close>: \<open>message\<close> is present only in the entry of a failure.\<close>

record BatchItemResult =
  path :: string
  success :: bool
  message :: "string option"

text \<open>
  The loops of the two batch methods: each video is tried inside its own \<open>try\<close>, the
  outcome is pushed to \<open>results\<close>, and the loop goes on with the store the attempt left.
\<close>

fun batchArchive_loop ::
  "('c, 'w) Env \<Rightarrow> nat \<Rightarrow> VideoEntry list \<Rightarrow> 'w \<Rightarrow> BatchItemResult list
     \<Rightarrow> BatchItemResult list \<times> 'w" where
  "batchArchive_loop env themeId [] w results = (results, w)"
| "batchArchive_loop env themeId (video # rest) w results =
     (case archiveVideo env themeId (libraryId video) (fullPath video) w of
        (Inr u, w') \<Rightarrow>
          batchArchive_loop env themeId rest w'
            (results @ [\<lparr> path = fullPath video, success = True, message = None \<rparr>])
      | (Inl e, w') \<Rightarrow>
          batchArchive_loop env themeId rest w'
            (results @ [\<lparr> path = fullPath video, success = False,
                           message = Some (error_message e) \<rparr>]))"

fun batchUnarchive_loop ::
  "('c, 'w) Env \<Rightarrow> nat \<Rightarrow> VideoEntry list \<Rightarrow> 'w \<Rightarrow> BatchItemResult list
     \<Rightarrow> BatchItemResult list \<times> 'w" where
  "batchUnarchive_loop env themeId [] w results = (results, w)"
| "batchUnarchive_loop env themeId (video # rest) w results =
     (case unarchiveVideo env themeId (libraryId video) (fullPath video) w of
        (Inr u, w') \<Rightarrow>
          batchUnarchive_loop env themeId rest w'
            (results @ [\<lparr> path = fullPath video, success = True, message = None \<rparr>])
      | (Inl e, w') \<Rightarrow>
          batchUnarchive_loop env themeId rest w'
            (results @ [\<lparr> path = fullPath video, success = False,
                           message = Some (error_message e) \<rparr>]))"

record ArchiveReport =
  total :: nat
  archived :: nat
  failed :: nat
  results :: "BatchItemResult list"

record UnarchiveReport =
  total :: nat
  unarchived :: nat
  failed :: nat
  results :: "BatchItemResult list"

definition batchArchiveVideos ::
  "('c, 'w) Env \<Rightarrow> nat \<Rightarrow> string list \<Rightarrow> 'w \<Rightarrow> (error + ArchiveReport) \<times> 'w" where
  "batchArchiveVideos env themeId videoPaths w =
     (case themes env themeId of
        None \<Rightarrow> (Inl (Error ''theme library does not exist''), w)
      | Some theme \<Rightarrow>
          (case getThemeVideos env themeId w of
             Inl e \<Rightarrow> (Inl e, w)
           | Inr allVideos \<Rightarrow>
               (let videosToArchive =
                      filter (\<lambda>video. fullPath video \<in> set videoPaths \<and> \<not> isPublished video)
                        allVideos
                in (case batchArchive_loop env themeId videosToArchive w [] of
                      (rs, w') \<Rightarrow>
                        (Inr \<lparr> ArchiveReport.total = length videoPaths,
                               archived = length (filter (\<lambda>r. success r) rs),
                               ArchiveReport.failed = length (filter (\<lambda>r. \<not> success r) rs),
                               ArchiveReport.results = rs \<rparr>, w')))))"

definition batchUnarchiveVideos ::
  "('c, 'w) Env \<Rightarrow> nat \<Rightarrow> string list \<Rightarrow> 'w \<Rightarrow> (error + UnarchiveReport) \<times> 'w" where
  "batchUnarchiveVideos env themeId videoPaths w =
     (case themes env themeId of
        None \<Rightarrow> (Inl (Error ''theme library does not exist''), w)
      | Some theme \<Rightarrow>
          (case getThemeVideos env themeId w of
             Inl e \<Rightarrow> (Inl e, w)
           | Inr allVideos \<Rightarrow>
               (let videosToUnarchive =
                      filter (\<lambda>video. fullPath video \<in> set videoPaths \<and> isPublished video)
                        allVideos
                in (case batchUnarchive_loop env themeId videosToUnarchive w [] of
                      (rs, w') \<Rightarrow>
                        (Inr \<lparr> UnarchiveReport.total = length videoPaths,
                               unarchived = length (filter (\<lambda>r. success r) rs),
                               UnarchiveReport.failed = length (filter (\<lambda>r. \<not> success r) rs),
                               UnarchiveReport.results = rs \<rparr>, w')))))"

section \<open>The inventory, root by root\<close>

text \<open>
  What one resource root contributes to the inventory, stated apart from the loop: the
  videos of its main folder, then those of its archive folder. A folder that cannot be
  browsed has no entries, and a root whose main folder cannot be browsed is skipped.
\<close>

definition mainEntries :: "('c, 'w) Env \<Rightarrow> 'w \<Rightarrow> ThemeResourcePath \<Rightarrow> VideoEntry list" where
  "mainEntries env w rp =
     (case browseLibrary env (ThemeResourcePath.libraryId rp) (folderPath rp) (Some Video) w of
        Inl e \<Rightarrow> []
      | Inr rs \<Rightarrow>
          map (withInfo (ThemeResourcePath.libraryId rp) (folderPath rp) False)
            (filter (\<lambda>r. type r = Video) rs))"

definition archiveEntries ::
  "('c, 'w) Env \<Rightarrow> string \<Rightarrow> 'w \<Rightarrow> ThemeResourcePath \<Rightarrow> VideoEntry list" where
  "archiveEntries env archiveName w rp =
     (case browseLibrary env (ThemeResourcePath.libraryId rp)
             (path_join [folderPath rp, archiveName]) (Some Video) w of
        Inl e \<Rightarrow> []
      | Inr rs \<Rightarrow>
          map (withInfo (ThemeResourcePath.libraryId rp) (path_join [folderPath rp, archiveName]) True)
            (filter (\<lambda>r. type r = Video) rs))"

definition rootEntries ::
  "('c, 'w) Env \<Rightarrow> string \<Rightarrow> 'w \<Rightarrow> ThemeResourcePath \<Rightarrow> VideoEntry list" where
  "rootEntries env archiveName w rp =
     (if isl (browseLibrary env (ThemeResourcePath.libraryId rp) (folderPath rp) (Some Video) w)
      then []
      else mainEntries env w rp @ archiveEntries env archiveName w rp)"

section \<open>The resource library base class\<close>

text \<open>\<open>BaseResourceLibrary\<close>: the type of a file by its extension, and the order of a listing.\<close>

definition isVideo :: "string \<Rightarrow> bool" where
  "isVideo ext = (toLowerCase ext \<in> set [''.mp4'', ''.avi'', ''.mov'', ''.mkv'', ''.flv'',
     ''.wmv'', ''.webm'', ''.m4v'', ''.mpg'', ''.mpeg''])"

definition isImage :: "string \<Rightarrow> bool" where
  "isImage ext = (toLowerCase ext \<in> set [''.jpg'', ''.jpeg'', ''.png'', ''.gif'', ''.bmp'',
     ''.webp'', ''.svg'', ''.ico''])"

definition isAudio :: "string \<Rightarrow> bool" where
  "isAudio ext = (toLowerCase ext \<in> set [''.mp3'', ''.wav'', ''.flac'', ''.aac'', ''.ogg'',
     ''.wma'', ''.m4a''])"

definition getResourceType :: "string \<Rightarrow> ResourceType" where
  "getResourceType filePath =
     (let ext = extname filePath
      in if isVideo ext then Video
         else if isImage ext then Image
         else if isAudio ext then Audio
         else Folder)"

text \<open>
  \<open>Array.prototype.sort\<close> with a comparison function is stable; it is modelled by the
  stable insertion sort. \<open>sortResources(resources, 'name', 'asc')\<close> compares the names
  with \<open>localeCompare\<close>, which depends on the locale of the runtime and is a parameter
  here, and then puts the folders first.
\<close>

fun insertBy :: "('a \<Rightarrow> 'a \<Rightarrow> int) \<Rightarrow> 'a \<Rightarrow> 'a list \<Rightarrow> 'a list" where
  "insertBy cmp x [] = [x]"
| "insertBy cmp x (y # ys) = (if cmp x y \<le> 0 then x # y # ys else y # insertBy cmp x ys)"

definition sortBy :: "('a \<Rightarrow> 'a \<Rightarrow> int) \<Rightarrow> 'a list \<Rightarrow> 'a list" where
  "sortBy cmp xs = foldr (insertBy cmp) xs []"

definition sortResources :: "(string \<Rightarrow> string \<Rightarrow> int) \<Rightarrow> ResourceInfo list \<Rightarrow> ResourceInfo list" where
  "sortResources localeCompare resources =
     (let sorted = sortBy (\<lambda>a b. localeCompare (name a) (name b)) resources
      in filter (\<lambda>r. type r = Folder) sorted @ filter (\<lambda>r. type r \<noteq> Folder) sorted)"

section \<open>The local file system provider\<close>

text \<open>
  What \<open>LocalResourceLibrary\<close> uses of Node: the calls of \<open>fs/promises\<close> (\<open>mkdir\<close> is always
  called with \<open>recursive: true\<close>, \<open>readdir\<close> with \<open>withFileTypes: true\<close>) and the string
  comparison of the locale. Each call may throw; \<open>mkdir\<close> and \<open>rename\<close> change the store.
\<close>

record Stats =
  stats_isDirectory :: bool
  stats_size :: nat
  stats_mtime :: nat

record Dirent =
  dirent_name :: string
  dirent_isDirectory :: bool

record 'w Node =
  access :: "string \<Rightarrow> 'w \<Rightarrow> error + unit"
  stat :: "string \<Rightarrow> 'w \<Rightarrow> error + Stats"
  readdir :: "string \<Rightarrow> 'w \<Rightarrow> error + Dirent list"
  mkdir :: "string \<Rightarrow> 'w \<Rightarrow> (error + unit) \<times> 'w"
  rename :: "string \<Rightarrow> string \<Rightarrow> 'w \<Rightarrow> (error + unit) \<times> 'w"
  localeCompare :: "string \<Rightarrow> string \<Rightarrow> int"

record LocalResourceConfig =
  basePath :: string
  allowedExtensions :: "string list option"

text \<open>
  The loop of \<open>LocalResourceLibrary.list\<close> over the directory entries. Hidden entries are
  skipped; an entry whose \<open>stat\<close> throws is skipped by the inner \<open>catch\<close>; a file is kept
  when its extension is allowed and its type is a media type.
\<close>

fun local_list_loop ::
  "'w Node \<Rightarrow> LocalResourceConfig \<Rightarrow> string \<Rightarrow> 'w \<Rightarrow> Dirent list \<Rightarrow> ResourceInfo list
     \<Rightarrow> ResourceInfo list" where
  "local_list_loop node cfg dirPath w [] resources = resources"
| "local_list_loop node cfg dirPath w (item # items) resources =
     (if startsWith (dirent_name item) ''.'' then local_list_loop node cfg dirPath w items resources
      else
        (let itemPath = path_join [dirPath, dirent_name item];
             fullItemPath = path_join [basePath cfg, itemPath]
         in if dirent_isDirectory item then
              local_list_loop node cfg dirPath w items
                (resources @ [\<lparr> name = dirent_name item, path = itemPath, type = Folder,
                                size' = None, modifiedTime = None, extension = None \<rparr>])
            else
              (case stat node fullItemPath w of
                 Inl e \<Rightarrow> local_list_loop node cfg dirPath w items resources
               | Inr stats \<Rightarrow>
                   (let ext = extname (dirent_name item)
                    in if (case allowedExtensions cfg of
                             None \<Rightarrow> False
                           | Some allowed \<Rightarrow> allowed \<noteq> [] \<and> toLowerCase ext \<notin> set allowed)
                       then local_list_loop node cfg dirPath w items resources
                       else
                         (let resourceType = getResourceType (dirent_name item)
                          in if resourceType \<noteq> Folder then
                               local_list_loop node cfg dirPath w items
                                 (resources @ [\<lparr> name = dirent_name item, path = itemPath,
                                     type = resourceType, size' = Some (stats_size stats),
                                     modifiedTime = Some (stats_mtime stats),
                                     extension = Some ext \<rparr>])
                             else local_list_loop node cfg dirPath w items resources)))))"

text \<open>
  \<open>LocalResourceLibrary.list\<close>: the whole body is inside \<open>try\<close>, and the \<open>catch\<close> logs the
  error and returns the empty array.
\<close>

definition local_list_body ::
  "'w Node \<Rightarrow> LocalResourceConfig \<Rightarrow> string \<Rightarrow> 'w \<Rightarrow> error + ResourceInfo list" where
  "local_list_body node cfg dirPath w =
     (let fullPath = path_join [basePath cfg, dirPath]
      in (case readdir node fullPath w of
            Inl e \<Rightarrow> Inl e
          | Inr items \<Rightarrow>
              Inr (sortResources (localeCompare node)
                     (local_list_loop node cfg dirPath w items []))))"

definition local_list ::
  "'w Node \<Rightarrow> LocalResourceConfig \<Rightarrow> string \<Rightarrow> 'w \<Rightarrow> error + ResourceInfo list" where
  "local_list node cfg dirPath w =
     (case local_list_body node cfg dirPath w of
        Inl e \<Rightarrow> Inr []
      | Inr resources \<Rightarrow> Inr resources)"

text \<open>\<open>LocalResourceLibrary.getInfo\<close>: what \<open>stat\<close> throws leaves the method.\<close>

definition local_getInfo ::
  "'w Node \<Rightarrow> LocalResourceConfig \<Rightarrow> string \<Rightarrow> 'w \<Rightarrow> error + ResourceInfo" where
  "local_getInfo node cfg filePath w =
     (let fullPath = path_join [basePath cfg, filePath]
      in (case stat node fullPath w of
            Inl e \<Rightarrow> Inl e
          | Inr stats \<Rightarrow>
              (let nm = basename filePath;
                   ext = extname nm
               in Inr \<lparr> name = nm, path = filePath,
                        type = (if stats_isDirectory stats then Folder else getResourceType nm),
                        size' = Some (stats_size stats),
                        modifiedTime = Some (stats_mtime stats),
                        extension = (if ext = [] then None else Some ext) \<rparr>)))"

definition local_createFolder ::
  "'w Node \<Rightarrow> LocalResourceConfig \<Rightarrow> string \<Rightarrow> 'w \<Rightarrow> (error + unit) \<times> 'w" where
  "local_createFolder node cfg folderPath' w =
     (let fullPath = path_join [basePath cfg, folderPath']
      in (case mkdir node fullPath w of
            (Inl e, w') \<Rightarrow> (Inl (Error (''failed to create the folder: '' @ folderPath')), w')
          | (Inr u, w') \<Rightarrow> (Inr (), w')))"

text \<open>
  \<open>LocalResourceLibrary.move\<close>. The source must be accessible. The target is probed inside
  an inner \<open>try\<close>: when \<open>access\<close> succeeds the error "the target path already exists" is
  thrown, and the inner \<open>catch\<close> throws again every error whose \<open>code\<close> is not \<open>ENOENT\<close>,
  that one included. Then the directory of the target is created and the file renamed.
  The outer \<open>catch\<close> logs and throws again.
\<close>

definition local_move ::
  "'w Node \<Rightarrow> LocalResourceConfig \<Rightarrow> string \<Rightarrow> string \<Rightarrow> 'w \<Rightarrow> (error + unit) \<times> 'w" where
  "local_move node cfg sourcePath targetPath w =
     (let fullSourcePath = path_join [basePath cfg, sourcePath];
          fullTargetPath = path_join [basePath cfg, targetPath]
      in (case access node fullSourcePath w of
            Inl e \<Rightarrow> (Inl e, w)
          | Inr u \<Rightarrow>
              (let thrown = (case access node fullTargetPath w of
                               Inr u' \<Rightarrow> Error (''the target path already exists: '' @ targetPath)
                             | Inl e \<Rightarrow> e)
               in if error_code thrown \<noteq> Some ''ENOENT'' then (Inl thrown, w)
                  else
                    (let targetDir = dirname fullTargetPath
                     in (case mkdir node targetDir w of
                           (Inl e, w') \<Rightarrow> (Inl e, w')
                         | (Inr u', w') \<Rightarrow> rename node fullSourcePath fullTargetPath w')))))"

definition LocalResourceLibrary :: "'w Node \<Rightarrow> LocalResourceConfig \<Rightarrow> 'w IResourceLibrary" where
  "LocalResourceLibrary node cfg =
     \<lparr> list = local_list node cfg, getInfo = local_getInfo node cfg,
       createFolder = local_createFolder node cfg, move = local_move node cfg \<rparr>"

section \<open>The WebDAV provider\<close>

text \<open>
  What \<open>WebDAVResourceLibrary\<close> uses of the \<open>webdav\<close> client. \<open>createDirectory\<close> takes the
  \<open>recursive\<close> option. The media probe (\<open>ffprobe\<close>) only fills the media fields, inside
  its own \<open>try\<close>; with those fields it is left out.
\<close>

record FileStat =
  stat_basename :: string
  stat_isDirectory :: bool
  stat_size :: nat
  stat_lastmod :: "nat option"

record 'w WebDAVClient =
  client_stat :: "string \<Rightarrow> 'w \<Rightarrow> error + FileStat"
  getDirectoryContents :: "string \<Rightarrow> 'w \<Rightarrow> error + FileStat list"
  createDirectory :: "string \<Rightarrow> bool \<Rightarrow> 'w \<Rightarrow> (error + unit) \<times> 'w"
  moveFile :: "string \<Rightarrow> string \<Rightarrow> 'w \<Rightarrow> (error + unit) \<times> 'w"
  client_localeCompare :: "string \<Rightarrow> string \<Rightarrow> int"

record WebDAVResourceConfig =
  url :: string
  dav_basePath :: "string option"

text \<open>\<open>config.basePath || '/'\<close>.\<close>

definition webdav_basePath :: "WebDAVResourceConfig \<Rightarrow> string" where
  "webdav_basePath cfg =
     (case dav_basePath cfg of None \<Rightarrow> ''/'' | Some b \<Rightarrow> if b = [] then ''/'' else b)"

text \<open>\<open>s.replace(/\\/g, '/')\<close> and \<open>s.replace(/\/+/g, '/')\<close>.\<close>

definition replaceBackslashes :: "string \<Rightarrow> string" where
  "replaceBackslashes s = map (\<lambda>c. if c = CHR 0x5C then CHR ''/'' else c) s"

fun collapseSlashes :: "string \<Rightarrow> string" where
  "collapseSlashes (c # d # cs) =
     (if c = CHR ''/'' \<and> d = CHR ''/'' then collapseSlashes (d # cs)
      else c # collapseSlashes (d # cs))"
| "collapseSlashes cs = cs"

definition normalizePath :: "string \<Rightarrow> string" where
  "normalizePath filePath =
     (let normalized = replaceBackslashes filePath;
          rooted = (if startsWith normalized ''/'' then normalized else ''/'' @ normalized)
      in collapseSlashes rooted)"

fun webdav_list_loop :: "string \<Rightarrow> FileStat list \<Rightarrow> ResourceInfo list \<Rightarrow> ResourceInfo list" where
  "webdav_list_loop dirPath [] resources = resources"
| "webdav_list_loop dirPath (item # items) resources =
     (if startsWith (stat_basename item) ''.'' then webdav_list_loop dirPath items resources
      else if stat_basename item = ''.'' \<or> stat_basename item = ''..''
        then webdav_list_loop dirPath items resources
      else
        (let itemPath = replaceBackslashes (path_join [dirPath, stat_basename item])
         in if stat_isDirectory item then
              webdav_list_loop dirPath items
                (resources @ [\<lparr> name = stat_basename item, path = itemPath, type = Folder,
                                size' = None, modifiedTime = None, extension = None \<rparr>])
            else
              (let ext = extname (stat_basename item);
                   resourceType = getResourceType (stat_basename item)
               in if resourceType \<noteq> Folder then
                    webdav_list_loop dirPath items
                      (resources @ [\<lparr> name = stat_basename item, path = itemPath,
                          type = resourceType, size' = Some (stat_size item),
                          modifiedTime = stat_lastmod item,
                          extension = (if ext = [] then None else Some ext) \<rparr>])
                  else webdav_list_loop dirPath items resources)))"

definition webdav_list_body ::
  "'w WebDAVClient \<Rightarrow> WebDAVResourceConfig \<Rightarrow> string \<Rightarrow> 'w \<Rightarrow> error + ResourceInfo list" where
  "webdav_list_body client cfg dirPath w =
     (let fullPath = normalizePath (path_join [webdav_basePath cfg, dirPath])
      in (case getDirectoryContents client fullPath w of
            Inl e \<Rightarrow> Inl e
          | Inr items \<Rightarrow>
              Inr (sortResources (client_localeCompare client)
                     (webdav_list_loop dirPath items []))))"

text \<open>\<open>WebDAVResourceLibrary.list\<close>: as in the local provider, the \<open>catch\<close> returns \<open>[]\<close>.\<close>

definition webdav_list ::
  "'w WebDAVClient \<Rightarrow> WebDAVResourceConfig \<Rightarrow> string \<Rightarrow> 'w \<Rightarrow> error + ResourceInfo list" where
  "webdav_list client cfg dirPath w =
     (case webdav_list_body client cfg dirPath w of
        Inl e \<Rightarrow> Inr []
      | Inr resources \<Rightarrow> Inr resources)"

definition webdav_getInfo ::
  "'w WebDAVClient \<Rightarrow> WebDAVResourceConfig \<Rightarrow> string \<Rightarrow> 'w \<Rightarrow> error + ResourceInfo" where
  "webdav_getInfo client cfg filePath w =
     (let fullPath = normalizePath (path_join [webdav_basePath cfg, filePath])
      in (case client_stat client fullPath w of
            Inl e \<Rightarrow> Inl (Error (''cannot get the file information: '' @ filePath))
          | Inr st \<Rightarrow>
              (let nm = basename filePath;
                   ext = extname nm
               in Inr \<lparr> name = nm, path = filePath,
                        type = (if stat_isDirectory st then Folder else getResourceType nm),
                        size' = Some (stat_size st),
                        modifiedTime = stat_lastmod st,
                        extension = (if ext = [] then None else Some ext) \<rparr>)))"

definition webdav_createFolder ::
  "'w WebDAVClient \<Rightarrow> WebDAVResourceConfig \<Rightarrow> string \<Rightarrow> 'w \<Rightarrow> (error + unit) \<times> 'w" where
  "webdav_createFolder client cfg folderPath' w =
     (let fullPath = normalizePath (path_join [webdav_basePath cfg, folderPath'])
      in (case createDirectory client fullPath False w of
            (Inl e, w') \<Rightarrow> (Inl (Error (''failed to create the folder: '' @ folderPath')), w')
          | (Inr u, w') \<Rightarrow> (Inr (), w')))"

text \<open>
  \<open>WebDAVResourceLibrary.move\<close>. The inner \<open>catch\<close> throws again only an error that has a
  \<open>response\<close> whose status is not 404: \<open>if (error.response && error.response.status !== 404)\<close>.
  The directory of the target is created (recursively) when \<open>stat\<close> on it throws.
\<close>

definition webdav_move ::
  "'w WebDAVClient \<Rightarrow> WebDAVResourceConfig \<Rightarrow> string \<Rightarrow> string \<Rightarrow> 'w \<Rightarrow> (error + unit) \<times> 'w" where
  "webdav_move client cfg sourcePath targetPath w =
     (let fullSourcePath = normalizePath (path_join [webdav_basePath cfg, sourcePath]);
          fullTargetPath = normalizePath (path_join [webdav_basePath cfg, targetPath])
      in (case client_stat client fullSourcePath w of
            Inl e \<Rightarrow> (Inl e, w)
          | Inr st \<Rightarrow>
              (let thrown = (case client_stat client fullTargetPath w of
                               Inr st' \<Rightarrow> Error (''the target path already exists: '' @ targetPath)
                             | Inl e \<Rightarrow> e)
               in if (case error_response_status thrown of None \<Rightarrow> False | Some status \<Rightarrow> status \<noteq> 404)
                  then (Inl thrown, w)
                  else
                    (let targetDir = normalizePath (dirname fullTargetPath)
                     in (case client_stat client targetDir w of
                           Inr st' \<Rightarrow> moveFile client fullSourcePath fullTargetPath w
                         | Inl e \<Rightarrow>
                             (case createDirectory client targetDir True w of
                                (Inl e', w') \<Rightarrow> (Inl e', w')
                              | (Inr u, w') \<Rightarrow> moveFile client fullSourcePath fullTargetPath w'))))))"

definition WebDAVResourceLibrary ::
  "'w WebDAVClient \<Rightarrow> WebDAVResourceConfig \<Rightarrow> 'w IResourceLibrary" where
  "WebDAVResourceLibrary client cfg =
     \<lparr> list = webdav_list client cfg, getInfo = webdav_getInfo client cfg,
       createFolder = webdav_createFolder client cfg, move = webdav_move client cfg \<rparr>"

section \<open>A file store\<close>

text \<open>
  A store for the calls above to act on: a table from absolute paths, as lists of
  segments, to nodes. The root is a directory and has no row. A path string is resolved
  from the root, segment by segment (no symbolic links; the working directory is the root).
\<close>

datatype fsnode = Directory | RegularFile nat nat

type_synonym fsstate = "(string list \<times> fsnode) list"

definition resolve :: "string \<Rightarrow> string list" where
  "resolve p = foldl (norm_step False) [] (pieces p)"

definition lookup :: "fsstate \<Rightarrow> string list \<Rightarrow> fsnode option" where
  "lookup fs k = (if k = [] then Some Directory else map_of fs k)"

abbreviation ENOENT :: error where
  "ENOENT \<equiv> SystemError ''ENOENT'' ''no such file or directory''"

abbreviation ENOTDIR :: error where
  "ENOTDIR \<equiv> SystemError ''ENOTDIR'' ''not a directory''"

abbreviation EEXIST :: error where
  "EEXIST \<equiv> SystemError ''EEXIST'' ''file already exists''"

abbreviation EISDIR :: error where
  "EISDIR \<equiv> SystemError ''EISDIR'' ''illegal operation on a directory''"

abbreviation ENOTEMPTY :: error where
  "ENOTEMPTY \<equiv> SystemError ''ENOTEMPTY'' ''directory not empty''"

abbreviation EINVAL :: error where
  "EINVAL \<equiv> SystemError ''EINVAL'' ''invalid argument''"

abbreviation EBUSY :: error where
  "EBUSY \<equiv> SystemError ''EBUSY'' ''resource busy or locked''"

text \<open>
  The walk to a node: every component before the last must be a directory (\<open>ENOTDIR\<close>),
  every component must exist (\<open>ENOENT\<close>).
\<close>

fun walk :: "fsstate \<Rightarrow> string list \<Rightarrow> string list \<Rightarrow> error + fsnode" where
  "walk fs pre [] = (case lookup fs pre of None \<Rightarrow> Inl ENOENT | Some n \<Rightarrow> Inr n)"
| "walk fs pre (s # ss) =
     (case lookup fs pre of
        None \<Rightarrow> Inl ENOENT
      | Some Directory \<Rightarrow> walk fs (pre @ [s]) ss
      | Some (RegularFile sz t) \<Rightarrow> Inl ENOTDIR)"

definition childrenOf :: "fsstate \<Rightarrow> string list \<Rightarrow> (string \<times> fsnode) list" where
  "childrenOf fs d =
     map (\<lambda>(k, n). (last k, n)) (filter (\<lambda>(k, n). k \<noteq> [] \<and> butlast k = d) fs)"

fun statsOf :: "fsnode \<Rightarrow> Stats" where
  "statsOf Directory = \<lparr> stats_isDirectory = True, stats_size = 0, stats_mtime = 0 \<rparr>"
| "statsOf (RegularFile sz t) = \<lparr> stats_isDirectory = False, stats_size = sz, stats_mtime = t \<rparr>"

definition posix_access :: "string \<Rightarrow> fsstate \<Rightarrow> error + unit" where
  "posix_access p fs = (case walk fs [] (resolve p) of Inl e \<Rightarrow> Inl e | Inr n \<Rightarrow> Inr ())"

definition posix_stat :: "string \<Rightarrow> fsstate \<Rightarrow> error + Stats" where
  "posix_stat p fs = (case walk fs [] (resolve p) of Inl e \<Rightarrow> Inl e | Inr n \<Rightarrow> Inr (statsOf n))"

definition posix_readdir :: "string \<Rightarrow> fsstate \<Rightarrow> error + Dirent list" where
  "posix_readdir p fs =
     (case walk fs [] (resolve p) of
        Inl e \<Rightarrow> Inl e
      | Inr (RegularFile sz t) \<Rightarrow> Inl ENOTDIR
      | Inr Directory \<Rightarrow>
          Inr (map (\<lambda>(s, n). \<lparr> dirent_name = s, dirent_isDirectory = (n = Directory) \<rparr>)
                 (childrenOf fs (resolve p))))"

text \<open>\<open>mkdir\<close> with \<open>recursive: true\<close>: the missing directories are added along the path.\<close>

fun mkdirs :: "fsstate \<Rightarrow> string list \<Rightarrow> string list \<Rightarrow> (error + unit) \<times> fsstate" where
  "mkdirs fs pre [] = (Inr (), fs)"
| "mkdirs fs pre (s # ss) =
     (case lookup fs (pre @ [s]) of
        None \<Rightarrow> mkdirs (fs @ [(pre @ [s], Directory)]) (pre @ [s]) ss
      | Some Directory \<Rightarrow> mkdirs fs (pre @ [s]) ss
      | Some (RegularFile sz t) \<Rightarrow> (Inl (if ss = [] then EEXIST else ENOTDIR), fs))"

definition posix_mkdir :: "string \<Rightarrow> fsstate \<Rightarrow> (error + unit) \<times> fsstate" where
  "posix_mkdir p fs = mkdirs fs [] (resolve p)"

text \<open>
  Moving the node at \<open>src\<close>, with what is below it, to \<open>dst\<close>; what was at \<open>dst\<close> is
  replaced.
\<close>

definition moveNode :: "string list \<Rightarrow> string list \<Rightarrow> fsstate \<Rightarrow> fsstate" where
  "moveNode src dst fs =
     map (\<lambda>(k, n). if prefix src k then (dst @ drop (length src) k, n) else (k, n))
       (filter (\<lambda>(k, n). \<not> prefix dst k) fs)"

definition posix_rename :: "string \<Rightarrow> string \<Rightarrow> fsstate \<Rightarrow> (error + unit) \<times> fsstate" where
  "posix_rename oldPath newPath fs =
     (let src = resolve oldPath; dst = resolve newPath
      in (case walk fs [] src of
            Inl e \<Rightarrow> (Inl e, fs)
          | Inr srcNode \<Rightarrow>
              if src = [] \<or> dst = [] then (Inl EBUSY, fs)
              else
                (case walk fs [] (butlast dst) of
                   Inl e \<Rightarrow> (Inl e, fs)
                 | Inr (RegularFile sz t) \<Rightarrow> (Inl ENOTDIR, fs)
                 | Inr Directory \<Rightarrow>
                     if src = dst then (Inr (), fs)
                     else if prefix src dst then (Inl EINVAL, fs)
                     else
                       (case lookup fs dst of
                          None \<Rightarrow> (Inr (), moveNode src dst fs)
                        | Some Directory \<Rightarrow>
                            if srcNode \<noteq> Directory then (Inl EISDIR, fs)
                            else if childrenOf fs dst \<noteq> [] then (Inl ENOTEMPTY, fs)
                            else (Inr (), moveNode src dst fs)
                        | Some (RegularFile sz t) \<Rightarrow>
                            if srcNode = Directory then (Inl ENOTDIR, fs)
                            else (Inr (), moveNode src dst fs)))))"

text \<open>A comparison of strings by their characters, for a runtime.\<close>

fun compareStrings :: "string \<Rightarrow> string \<Rightarrow> int" where
  "compareStrings [] [] = 0"
| "compareStrings [] (b # bs) = - 1"
| "compareStrings (a # as) [] = 1"
| "compareStrings (a # as) (b # bs) =
     (if (of_char a :: nat) < of_char b then - 1
      else if (of_char b :: nat) < of_char a then 1
      else compareStrings as bs)"

definition posix :: "fsstate Node" where
  "posix =
     \<lparr> access = posix_access, stat = posix_stat, readdir = posix_readdir,
       mkdir = posix_mkdir, rename = posix_rename, localeCompare = compareStrings \<rparr>"

section \<open>A WebDAV server\<close>

text \<open>
  The same store behind the WebDAV client: a missing resource answers 404, a missing
  parent collection 409, an existing collection on \<open>MKCOL\<close> 405. \<open>moveFile\<close> sends \<open>MOVE\<close>
  without forbidding the overwrite, so that an existing destination is replaced.
\<close>

abbreviation NotFound :: error where
  "NotFound \<equiv> HTTPError 404 ''Not Found''"

abbreviation Conflict :: error where
  "Conflict \<equiv> HTTPError 409 ''Conflict''"

abbreviation MethodNotAllowed :: error where
  "MethodNotAllowed \<equiv> HTTPError 405 ''Method Not Allowed''"

fun fileStatOf :: "string \<Rightarrow> fsnode \<Rightarrow> FileStat" where
  "fileStatOf s Directory =
     \<lparr> stat_basename = s, stat_isDirectory = True, stat_size = 0, stat_lastmod = None \<rparr>"
| "fileStatOf s (RegularFile sz t) =
     \<lparr> stat_basename = s, stat_isDirectory = False, stat_size = sz, stat_lastmod = Some t \<rparr>"

definition server_stat :: "string \<Rightarrow> fsstate \<Rightarrow> error + FileStat" where
  "server_stat p fs =
     (case lookup fs (resolve p) of
        None \<Rightarrow> Inl NotFound
      | Some n \<Rightarrow> Inr (fileStatOf (basename p) n))"

definition server_getDirectoryContents :: "string \<Rightarrow> fsstate \<Rightarrow> error + FileStat list" where
  "server_getDirectoryContents p fs =
     (case lookup fs (resolve p) of
        None \<Rightarrow> Inl NotFound
      | Some (RegularFile sz t) \<Rightarrow> Inr []
      | Some Directory \<Rightarrow> Inr (map (\<lambda>(s, n). fileStatOf s n) (childrenOf fs (resolve p))))"

definition server_createDirectory :: "string \<Rightarrow> bool \<Rightarrow> fsstate \<Rightarrow> (error + unit) \<times> fsstate" where
  "server_createDirectory p recursive fs =
     (if recursive then
        (case mkdirs fs [] (resolve p) of
           (Inl e, fs') \<Rightarrow> (Inl Conflict, fs')
         | (Inr u, fs') \<Rightarrow> (Inr (), fs'))
      else if lookup fs (resolve p) \<noteq> None then (Inl MethodNotAllowed, fs)
      else if lookup fs (butlast (resolve p)) \<noteq> Some Directory then (Inl Conflict, fs)
      else (Inr (), fs @ [(resolve p, Directory)]))"

definition server_moveFile :: "string \<Rightarrow> string \<Rightarrow> fsstate \<Rightarrow> (error + unit) \<times> fsstate" where
  "server_moveFile p q fs =
     (let src = resolve p; dst = resolve q
      in if src = [] \<or> lookup fs src = None then (Inl NotFound, fs)
         else if dst = [] \<or> lookup fs (butlast dst) \<noteq> Some Directory then (Inl Conflict, fs)
         else if src = dst \<or> prefix src dst then (Inl (HTTPError 403 ''Forbidden''), fs)
         else (Inr (), moveNode src dst fs))"

definition davServer :: "fsstate WebDAVClient" where
  "davServer =
     \<lparr> client_stat = server_stat, getDirectoryContents = server_getDirectoryContents,
       createDirectory = server_createDirectory, moveFile = server_moveFile,
       client_localeCompare = compareStrings \<rparr>"

section \<open>A theme on a local library\<close>

text \<open>
  The example of the theme library documentation: one local library with the base path
  \<open>/data\<close>, one theme whose resource root is \<open>/videos/food\<close>, with \<open>a.mp4\<close> and \<open>b.mp4\<close> in
  the folder and \<open>c.mp4\<close> in its \<open>published\<close> folder.
\<close>

definition foodStore :: fsstate where
  "foodStore =
     [([''data''], Directory), ([''data'', ''videos''], Directory),
      ([''data'', ''videos'', ''food''], Directory),
      ([''data'', ''videos'', ''food'', ''b.mp4''], RegularFile 20 2),
      ([''data'', ''videos'', ''food'', ''a.mp4''], RegularFile 10 1),
      ([''data'', ''videos'', ''food'', ''published''], Directory),
      ([''data'', ''videos'', ''food'', ''published'', ''c.mp4''], RegularFile 30 3)]"

definition diskConfig :: LocalResourceConfig where
  "diskConfig = \<lparr> basePath = ''/data'', allowedExtensions = None \<rparr>"

definition foodTheme :: Theme where
  "foodTheme =
     \<lparr> themeName = ''food'', archiveFolderName = None,
       resourcePaths = [\<lparr> ThemeResourcePath.libraryId = 1, folderPath = ''/videos/food'' \<rparr>] \<rparr>"

definition localEnv :: "(nat \<Rightarrow> Theme option) \<Rightarrow> (LocalResourceConfig, fsstate) Env" where
  "localEnv ths =
     \<lparr> themes = ths,
       libraries = (\<lambda>i. if i = 1 then Some \<lparr> libraryName = ''disk'', libraryType = Local,
                                            isActive = True, config = diskConfig \<rparr>
                        else None),
       providers = (\<lambda>t. if t = Local then Some (LocalResourceLibrary posix) else None),
       libraryInstances = (\<lambda>i. None) \<rparr>"

definition foodEnv :: "(LocalResourceConfig, fsstate) Env" where
  "foodEnv = localEnv (\<lambda>i. if i = 1 then Some foodTheme else None)"

text \<open>
  A library that lists as the local provider does but lets the error of a failed listing
  through, and a store in which the archive folder does not exist yet.
\<close>

definition strictLibrary :: "'w Node \<Rightarrow> LocalResourceConfig \<Rightarrow> 'w IResourceLibrary" where
  "strictLibrary node cfg = (LocalResourceLibrary node cfg) \<lparr> list := local_list_body node cfg \<rparr>"

definition strictEnv :: "(LocalResourceConfig, fsstate) Env" where
  "strictEnv =
     (foodEnv :: (LocalResourceConfig, fsstate) Env)
       \<lparr> providers := (\<lambda>t. if t = Local then Some (strictLibrary posix) else None) \<rparr>"

definition plainStore :: fsstate where
  "plainStore =
     [([''data''], Directory), ([''data'', ''videos''], Directory),
      ([''data'', ''videos'', ''food''], Directory),
      ([''data'', ''videos'', ''food'', ''b.mp4''], RegularFile 20 2),
      ([''data'', ''videos'', ''food'', ''a.mp4''], RegularFile 10 1)]"

section \<open>The attempts of a batch\<close>

text \<open>
  What a batch does, stated apart from its loop: the videos are attempted one after the
  other, each on the store the one before left, and each attempt has an outcome, the
  error it threw or nothing. \<open>attemptsRun\<close> gives the outcomes and the last store;
  \<open>itemResult\<close> is the entry of \<open>results\<close> for a video and the outcome of its attempt.
\<close>

fun attemptsRun ::
  "(VideoEntry \<Rightarrow> 'w \<Rightarrow> (error + unit) \<times> 'w) \<Rightarrow> VideoEntry list \<Rightarrow> 'w
     \<Rightarrow> (error + unit) list \<times> 'w" where
  "attemptsRun attempt [] w = ([], w)"
| "attemptsRun attempt (v # vs) w =
     (case attempt v w of
        (r, w') \<Rightarrow> (case attemptsRun attempt vs w' of (rs, w'') \<Rightarrow> (r # rs, w'')))"

definition archiveAttempt ::
  "('c, 'w) Env \<Rightarrow> nat \<Rightarrow> VideoEntry \<Rightarrow> 'w \<Rightarrow> (error + unit) \<times> 'w" where
  "archiveAttempt env themeId v w = archiveVideo env themeId (libraryId v) (fullPath v) w"

definition unarchiveAttempt ::
  "('c, 'w) Env \<Rightarrow> nat \<Rightarrow> VideoEntry \<Rightarrow> 'w \<Rightarrow> (error + unit) \<times> 'w" where
  "unarchiveAttempt env themeId v w = unarchiveVideo env themeId (libraryId v) (fullPath v) w"

fun itemResult :: "VideoEntry \<Rightarrow> error + unit \<Rightarrow> BatchItemResult" where
  "itemResult v (Inr u) = \<lparr> path = fullPath v, success = True, message = None \<rparr>"
| "itemResult v (Inl e) =
     \<lparr> path = fullPath v, success = False, message = Some (error_message e) \<rparr>"

definition itemResults :: "VideoEntry list \<Rightarrow> (error + unit) list \<Rightarrow> BatchItemResult list" where
  "itemResults vs outcomes = map (\<lambda>(v, r). itemResult v r) (zip vs outcomes)"

text \<open>The videos a request selects: those at a requested path, with the given status.\<close>

definition selected :: "string list \<Rightarrow> bool \<Rightarrow> VideoEntry list \<Rightarrow> VideoEntry list" where
  "selected videoPaths status allVideos =
     filter (\<lambda>v. fullPath v \<in> set videoPaths \<and> isPublished v = status) allVideos"

text \<open>
  Two local libraries with the same folder layout, and a theme with the folder
  \<open>/videos/food\<close> of each as a resource root.
\<close>

definition twinStore :: fsstate where
  "twinStore =
     [([''data''], Directory), ([''data'', ''videos''], Directory),
      ([''data'', ''videos'', ''food''], Directory),
      ([''data'', ''videos'', ''food'', ''a.mp4''], RegularFile 10 1),
      ([''backup''], Directory), ([''backup'', ''videos''], Directory),
      ([''backup'', ''videos'', ''food''], Directory),
      ([''backup'', ''videos'', ''food'', ''a.mp4''], RegularFile 10 1)]"

definition twinTheme :: Theme where
  "twinTheme =
     \<lparr> themeName = ''food'', archiveFolderName = Some ''published'',
       resourcePaths = [\<lparr> ThemeResourcePath.libraryId = 1, folderPath = ''/videos/food'' \<rparr>,
                        \<lparr> ThemeResourcePath.libraryId = 2, folderPath = ''/videos/food'' \<rparr>] \<rparr>"

definition twinEnv :: "(LocalResourceConfig, fsstate) Env" where
  "twinEnv =
     \<lparr> themes = (\<lambda>i. if i = 1 then Some twinTheme else None),
       libraries =
         (\<lambda>i. if i = 1 then Some \<lparr> libraryName = ''disk'', libraryType = Local,
                                   isActive = True, config = diskConfig \<rparr>
               else if i = 2 then Some \<lparr> libraryName = ''backup'', libraryType = Local,
                                   isActive = True,
                                   config = \<lparr> basePath = ''/backup'', allowedExtensions = None \<rparr> \<rparr>
               else None),
       providers = (\<lambda>t. if t = Local then Some (LocalResourceLibrary posix) else None),
       libraryInstances = (\<lambda>i. None) \<rparr>"

text \<open>The food folder with a name collision: \<open>a.mp4\<close> is also in the archive folder.\<close>

definition collisionStore :: fsstate where
  "collisionStore =
     [([''data''], Directory), ([''data'', ''videos''], Directory),
      ([''data'', ''videos'', ''food''], Directory),
      ([''data'', ''videos'', ''food'', ''a.mp4''], RegularFile 10 1),
      ([''data'', ''videos'', ''food'', ''b.mp4''], RegularFile 20 2),
      ([''data'', ''videos'', ''food'', ''published''], Directory),
      ([''data'', ''videos'', ''food'', ''published'', ''a.mp4''], RegularFile 11 3)]"

section \<open>Batch publishing\<close>

text \<open>\<open>parts.join(sep)\<close>.\<close>

fun joinWith :: "string \<Rightarrow> string list \<Rightarrow> string" where
  "joinWith sep [] = []"
| "joinWith sep [x] = x"
| "joinWith sep (x # y # ys) = x @ sep @ joinWith sep (y # ys)"

text \<open>
  The options of \<open>batchPublishThemeVideos\<close> as the route passes them from the request
  body: every field may be missing.
\<close>

record BatchPublishOptions =
  accountIds :: "nat list option"
  videoPaths :: "string list option"
  autoArchive :: "bool option"
  title :: "string option"
  tags :: "string list option"
  scheduledAt :: "nat option"

text \<open>The argument of \<open>UploadService.createTask\<close>.\<close>

record TaskData =
  platformId :: nat
  dataLibraryId :: nat
  resourcePath :: string
  dataTitle :: string
  dataTags :: string
  dataScheduledAt :: "nat option"

text \<open>
  The upload service over its table \<open>'s\<close>: \<open>createTask\<close> inserts a row and returns it (the
  model returns its \<open>id\<close>, the only field read), or throws what the insertion throws.
\<close>

record 's UploadService =
  createTask :: "TaskData \<Rightarrow> 's \<Rightarrow> (error + nat) \<times> 's"

text \<open>An element of \<open>tasks\<close> in the report.\<close>

record PublishTask =
  taskId :: nat
  accountId :: nat
  videoName :: string
  videoPath :: string
  taskLibraryId :: nat
  taskAutoArchive :: bool

record PublishReport =
  tasks :: "PublishTask list"
  totalTasks :: nat
  accountCount :: nat
  videoCount :: nat

text \<open>
  The two nested loops. A \<open>createTask\<close> that throws is not caught: the error leaves the
  method, with the table as the calls before it left it.
\<close>

fun publish_videos ::
  "'s UploadService \<Rightarrow> BatchPublishOptions \<Rightarrow> bool \<Rightarrow> nat \<Rightarrow> VideoEntry list \<Rightarrow> 's
     \<Rightarrow> PublishTask list \<Rightarrow> (error + PublishTask list) \<times> 's" where
  "publish_videos svc options autoArch acct [] s acc = (Inr acc, s)"
| "publish_videos svc options autoArch acct (video # rest) s acc =
     (let ttl = (case title options of
                   None \<Rightarrow> parse_name (name video)
                 | Some t \<Rightarrow> if t = [] then parse_name (name video) else t)
      in (case createTask svc
                 \<lparr> platformId = acct, dataLibraryId = libraryId video,
                   resourcePath = fullPath video, dataTitle = ttl,
                   dataTags = (case tags options of None \<Rightarrow> [] | Some ts \<Rightarrow> joinWith '','' ts),
                   dataScheduledAt = scheduledAt options \<rparr> s of
            (Inl e, s') \<Rightarrow> (Inl e, s')
          | (Inr task, s') \<Rightarrow>
              publish_videos svc options autoArch acct rest s'
                (acc @ [\<lparr> taskId = task, accountId = acct, videoName = name video,
                           videoPath = fullPath video, taskLibraryId = libraryId video,
                           taskAutoArchive = autoArch \<rparr>])))"

fun publish_accounts ::
  "'s UploadService \<Rightarrow> BatchPublishOptions \<Rightarrow> bool \<Rightarrow> nat list \<Rightarrow> VideoEntry list \<Rightarrow> 's
     \<Rightarrow> PublishTask list \<Rightarrow> (error + PublishTask list) \<times> 's" where
  "publish_accounts svc options autoArch [] videosToPublish s acc = (Inr acc, s)"
| "publish_accounts svc options autoArch (acct # rest) videosToPublish s acc =
     (case publish_videos svc options autoArch acct videosToPublish s acc of
        (Inl e, s') \<Rightarrow> (Inl e, s')
      | (Inr acc', s') \<Rightarrow> publish_accounts svc options autoArch rest videosToPublish s' acc')"

definition batchPublishThemeVideos ::
  "('c, 'w) Env \<Rightarrow> 's UploadService \<Rightarrow> nat \<Rightarrow> BatchPublishOptions \<Rightarrow> 'w \<Rightarrow> 's
     \<Rightarrow> (error + PublishReport) \<times> 's" where
  "batchPublishThemeVideos env svc themeId options w s =
     (case themes env themeId of
        None \<Rightarrow> (Inl (Error ''theme library does not exist''), s)
      | Some theme \<Rightarrow>
          (case accountIds options of
             None \<Rightarrow> (Inl (Error ''no account given''), s)
           | Some accts \<Rightarrow>
               if accts = [] then (Inl (Error ''no account given''), s)
               else
                 (case videoPaths options of
                    None \<Rightarrow> (Inl (Error ''no video given''), s)
                  | Some paths \<Rightarrow>
                      if paths = [] then (Inl (Error ''no video given''), s)
                      else
                        (case getThemeVideos env themeId w of
                           Inl e \<Rightarrow> (Inl e, s)
                         | Inr allVideos \<Rightarrow>
                             (let videosToPublish =
                                    filter (\<lambda>video. fullPath video \<in> set paths) allVideos
                              in if videosToPublish = []
                                 then (Inl (Error ''no matching video found''), s)
                                 else
                                   (case publish_accounts svc options (autoArchive options \<noteq> Some False)
                                           accts videosToPublish s [] of
                                      (Inl e, s') \<Rightarrow> (Inl e, s')
                                    | (Inr ts, s') \<Rightarrow>
                                        (Inr \<lparr> tasks = ts, totalTasks = length ts,
                                                accountCount = length accts,
                                                videoCount = length videosToPublish \<rparr>, s')))))))"

text \<open>
  The tasks of a fan-out, stated apart from the loops: the data of the task for an
  account and a video, and the calls of \<open>createTask\<close> for a list of data, one after the
  other until one throws.
\<close>

definition taskDataFor :: "BatchPublishOptions \<Rightarrow> nat \<times> VideoEntry \<Rightarrow> TaskData" where
  "taskDataFor options av =
     \<lparr> platformId = fst av, dataLibraryId = libraryId (snd av), resourcePath = fullPath (snd av),
       dataTitle = (case title options of
                      None \<Rightarrow> parse_name (name (snd av))
                    | Some t \<Rightarrow> if t = [] then parse_name (name (snd av)) else t),
       dataTags = (case tags options of None \<Rightarrow> [] | Some ts \<Rightarrow> joinWith '','' ts),
       dataScheduledAt = scheduledAt options \<rparr>"

definition publishTaskFor :: "bool \<Rightarrow> nat \<times> VideoEntry \<Rightarrow> nat \<Rightarrow> PublishTask" where
  "publishTaskFor autoArch av task =
     \<lparr> taskId = task, accountId = fst av, videoName = name (snd av),
       videoPath = fullPath (snd av), taskLibraryId = libraryId (snd av),
       taskAutoArchive = autoArch \<rparr>"

fun createAll :: "'s UploadService \<Rightarrow> TaskData list \<Rightarrow> 's \<Rightarrow> (error + nat list) \<times> 's" where
  "createAll svc [] s = (Inr [], s)"
| "createAll svc (d # ds) s =
     (case createTask svc d s of
        (Inl e, s') \<Rightarrow> (Inl e, s')
      | (Inr task, s') \<Rightarrow>
          (case createAll svc ds s' of
             (Inl e, s'') \<Rightarrow> (Inl e, s'')
           | (Inr ids, s'') \<Rightarrow> (Inr (task # ids), s'')))"

text \<open>
  An upload task table with an increasing \<open>id\<close>; the insertion fails for an account that
  does not exist (the foreign key of the row).
\<close>

definition taskTable :: "nat list \<Rightarrow> (nat \<times> TaskData) list UploadService" where
  "taskTable accounts =
     \<lparr> createTask = (\<lambda>d s.
         if platformId d \<in> set accounts
         then (Inr (Suc (length s)), s @ [(Suc (length s), d)])
         else (Inl (Error ''foreign key constraint failed''), s)) \<rparr>"

text \<open>A request to publish an unpublished and a published video of the food theme to two accounts.\<close>

definition foodOptions :: BatchPublishOptions where
  "foodOptions =
     \<lparr> accountIds = Some [1, 2],
       videoPaths = Some [''/videos/food/a.mp4'', ''/videos/food/published/c.mp4''],
       autoArchive = None, title = None, tags = Some [''food'', ''daily''],
       scheduledAt = None \<rparr>"

text \<open>A WebDAV library on the same folders.\<close>

definition davConfig :: WebDAVResourceConfig where
  "davConfig = \<lparr> url = ''http://dav.example'', dav_basePath = Some ''/data'' \<rparr>"

section \<open>Names of directory entries\<close>

text \<open>
  A name that an entry of a directory can have: not empty and without a separator; and a
  name that is neither \<open>.\<close> nor \<open>..\<close>, which \<open>path.join\<close> keeps as a segment of its own.
\<close>

definition entryName :: "string \<Rightarrow> bool" where
  "entryName n = (n \<noteq> [] \<and> CHR ''/'' \<notin> set n)"

definition simpleSegment :: "string \<Rightarrow> bool" where
  "simpleSegment a = (entryName a \<and> a \<noteq> ''.'' \<and> a \<noteq> ''..'')"

text \<open>A theme whose resource root is itself a folder named \<open>published\<close>.\<close>

definition publishedRootStore :: fsstate where
  "publishedRootStore =
     [([''data''], Directory), ([''data'', ''videos''], Directory),
      ([''data'', ''videos'', ''published''], Directory),
      ([''data'', ''videos'', ''published'', ''a.mp4''], RegularFile 10 1)]"

definition publishedRootTheme :: Theme where
  "publishedRootTheme =
     \<lparr> themeName = ''done'', archiveFolderName = Some ''published'',
       resourcePaths = [\<lparr> ThemeResourcePath.libraryId = 1, folderPath = ''/videos/published'' \<rparr>] \<rparr>"

definition publishedRootEnv :: "(LocalResourceConfig, fsstate) Env" where
  "publishedRootEnv = localEnv (\<lambda>i. if i = 1 then Some publishedRootTheme else None)"

text \<open>A store with a video in a folder \<open>unpublished\<close>, which no theme has as archive folder.\<close>

definition strayStore :: fsstate where
  "strayStore =
     [([''data''], Directory), ([''data'', ''videos''], Directory),
      ([''data'', ''videos'', ''unpublished''], Directory),
      ([''data'', ''videos'', ''unpublished'', ''c.mp4''], RegularFile 30 3)]"

section \<open>Places in the file store\<close>

text \<open>
  The segments of a path that name something (empty segments and \<open>.\<close> left out), a path
  without a \<open>..\<close> segment, and the place in the store that the local provider reaches for
  a path of the library: the resolution of \<open>path.join(basePath, p)\<close>.
\<close>

definition simples :: "string \<Rightarrow> string list" where
  "simples p = filter (\<lambda>s. s \<noteq> [] \<and> s \<noteq> ''.'') (pieces p)"

definition cleanPath :: "string \<Rightarrow> bool" where
  "cleanPath p = (''..'' \<notin> set (pieces p))"

definition place :: "LocalResourceConfig \<Rightarrow> string \<Rightarrow> string list" where
  "place cfg p = resolve (path_join [basePath cfg, p])"

text \<open>
  A name that \<open>LocalResourceLibrary.list\<close> keeps as a video when it is the name of a file:
  not hidden, of an allowed extension, and of a video type.
\<close>

definition listedAsVideo :: "LocalResourceConfig \<Rightarrow> string \<Rightarrow> bool" where
  "listedAsVideo cfg n =
     (\<not> startsWith n ''.''
      \<and> (case allowedExtensions cfg of
            None \<Rightarrow> True
          | Some allowed \<Rightarrow> allowed = [] \<or> toLowerCase (extname n) \<in> set allowed)
      \<and> getResourceType n = Video)"

text \<open>The food theme with an archive folder given by year, \<open>archive/2024\<close>.\<close>

definition yearlyTheme :: Theme where
  "yearlyTheme =
     \<lparr> themeName = ''food'', archiveFolderName = Some ''archive/2024'',
       resourcePaths = [\<lparr> ThemeResourcePath.libraryId = 1, folderPath = ''/videos/food'' \<rparr>] \<rparr>"

definition yearlyEnv :: "(LocalResourceConfig, fsstate) Env" where
  "yearlyEnv = localEnv (\<lambda>i. if i = 1 then Some yearlyTheme else None)"

text \<open>The food store after \<open>a.mp4\<close> has been moved to the archive folder \<open>published\<close>.\<close>

definition archivedFoodStore :: fsstate where
  "archivedFoodStore =
     [([''data''], Directory), ([''data'', ''videos''], Directory),
      ([''data'', ''videos'', ''food''], Directory),
      ([''data'', ''videos'', ''food'', ''b.mp4''], RegularFile 20 2),
      ([''data'', ''videos'', ''food'', ''published'', ''a.mp4''], RegularFile 10 1),
      ([''data'', ''videos'', ''food'', ''published''], Directory),
      ([''data'', ''videos'', ''food'', ''published'', ''c.mp4''], RegularFile 30 3)]"

text \<open>
  The food store after \<open>a.mp4\<close> has been moved to the archive folder \<open>archive/2024\<close>, and
  after it has been moved one directory up from there.
\<close>

definition yearlyArchivedStore :: fsstate where
  "yearlyArchivedStore =
     [([''data''], Directory), ([''data'', ''videos''], Directory),
      ([''data'', ''videos'', ''food''], Directory),
      ([''data'', ''videos'', ''food'', ''b.mp4''], RegularFile 20 2),
      ([''data'', ''videos'', ''food'', ''archive'', ''2024'', ''a.mp4''], RegularFile 10 1),
      ([''data'', ''videos'', ''food'', ''published''], Directory),
      ([''data'', ''videos'', ''food'', ''published'', ''c.mp4''], RegularFile 30 3),
      ([''data'', ''videos'', ''food'', ''archive''], Directory),
      ([''data'', ''videos'', ''food'', ''archive'', ''2024''], Directory)]"

definition yearlyReturnedStore :: fsstate where
  "yearlyReturnedStore =
     [([''data''], Directory), ([''data'', ''videos''], Directory),
      ([''data'', ''videos'', ''food''], Directory),
      ([''data'', ''videos'', ''food'', ''b.mp4''], RegularFile 20 2),
      ([''data'', ''videos'', ''food'', ''archive'', ''a.mp4''], RegularFile 10 1),
      ([''data'', ''videos'', ''food'', ''published''], Directory),
      ([''data'', ''videos'', ''food'', ''published'', ''c.mp4''], RegularFile 30 3),
      ([''data'', ''videos'', ''food'', ''archive''], Directory),
      ([''data'', ''videos'', ''food'', ''archive'', ''2024''], Directory)]"








section \<open>The inventory is the concatenation of the roots' entries\<close>

lemma getThemeVideos_loop_acc:
  "getThemeVideos_loop env a w rps acc = acc @ concat (map (rootEntries env a w) rps)"
proof (induction rps arbitrary: acc)
  case Nil
  show ?case by simp
next
  case (Cons rp rps)
  show ?case
    by (simp add: Cons.IH rootEntries_def mainEntries_def archiveEntries_def Let_def
             split: sum.splits)
qed

lemma getThemeVideos_concat:
  "themes env themeId = Some theme \<Longrightarrow>
   getThemeVideos env themeId w =
     Inr (concat (map (rootEntries env (effectiveArchiveFolderName theme) w) (resourcePaths theme)))"
  by (simp add: getThemeVideos_def getThemeVideos_loop_acc)

lemma mainEntries_unpublished: "v \<in> set (mainEntries env w rp) \<Longrightarrow> \<not> isPublished v"
  by (auto simp: mainEntries_def withInfo_def split: sum.splits)

lemma archiveEntries_published: "v \<in> set (archiveEntries env a w rp) \<Longrightarrow> isPublished v"
  by (auto simp: archiveEntries_def withInfo_def split: sum.splits)

lemma archiveEntries_fail:
  "isl (browseLibrary env (ThemeResourcePath.libraryId rp) (path_join [folderPath rp, a])
          (Some Video) w) \<Longrightarrow> archiveEntries env a w rp = []"
  by (auto simp: archiveEntries_def split: sum.splits)

text \<open>
  C8. For a theme that exists, the inventory is the concatenation, over the resource
  roots in their order, of each root's entries; a root whose main folder can be browsed
  contributes its main folder's entries followed by its archive folder's entries (a root
  whose main folder cannot be browsed contributes nothing). When the archive folder of a
  root cannot be listed, the root contributes its main folder's entries only and none of
  them is published; what the other roots contribute does not depend on it, since each
  root's entries are a function of that root alone.
\<close>

theorem resolver_concatenates_roots:
  assumes "themes env themeId = Some theme"
  shows "getThemeVideos env themeId w =
           Inr (concat (map (rootEntries env (effectiveArchiveFolderName theme) w)
                          (resourcePaths theme)))
         \<and> (\<forall>rp. \<not> isl (browseLibrary env (ThemeResourcePath.libraryId rp) (folderPath rp)
                          (Some Video) w) \<longrightarrow>
                rootEntries env (effectiveArchiveFolderName theme) w rp =
                  mainEntries env w rp @ archiveEntries env (effectiveArchiveFolderName theme) w rp)
         \<and> (\<forall>rp. isl (browseLibrary env (ThemeResourcePath.libraryId rp)
                        (path_join [folderPath rp, effectiveArchiveFolderName theme])
                        (Some Video) w) \<longrightarrow>
                rootEntries env (effectiveArchiveFolderName theme) w rp = mainEntries env w rp
                \<and> filter isPublished (rootEntries env (effectiveArchiveFolderName theme) w rp) = [])
         \<and> (\<forall>rp. (\<forall>v \<in> set (mainEntries env w rp). \<not> isPublished v)
                \<and> (\<forall>v \<in> set (archiveEntries env (effectiveArchiveFolderName theme) w rp).
                      isPublished v))"
proof (intro conjI allI impI ballI)
  show "getThemeVideos env themeId w =
          Inr (concat (map (rootEntries env (effectiveArchiveFolderName theme) w)
                         (resourcePaths theme)))"
    using assms by (rule getThemeVideos_concat)
next
  fix rp :: ThemeResourcePath
  assume "\<not> isl (browseLibrary env (ThemeResourcePath.libraryId rp) (folderPath rp) (Some Video) w)"
  then show "rootEntries env (effectiveArchiveFolderName theme) w rp =
               mainEntries env w rp @ archiveEntries env (effectiveArchiveFolderName theme) w rp"
    by (simp add: rootEntries_def)
next
  fix rp :: ThemeResourcePath
  assume f: "isl (browseLibrary env (ThemeResourcePath.libraryId rp)
                    (path_join [folderPath rp, effectiveArchiveFolderName theme]) (Some Video) w)"
  have e: "archiveEntries env (effectiveArchiveFolderName theme) w rp = []"
    using f by (rule archiveEntries_fail)
  show "rootEntries env (effectiveArchiveFolderName theme) w rp = mainEntries env w rp"
    by (auto simp: rootEntries_def e mainEntries_def split: sum.splits)
  then show "filter isPublished (rootEntries env (effectiveArchiveFolderName theme) w rp) = []"
    by (auto simp: filter_empty_conv dest: mainEntries_unpublished)
next
  fix rp :: ThemeResourcePath and v :: VideoEntry
  assume "v \<in> set (mainEntries env w rp)"
  then show "\<not> isPublished v" by (rule mainEntries_unpublished)
next
  fix rp :: ThemeResourcePath and v :: VideoEntry
  assume "v \<in> set (archiveEntries env (effectiveArchiveFolderName theme) w rp)"
  then show "isPublished v" by (rule archiveEntries_published)
qed

lemma strict_theme: "themes strictEnv 1 = Some foodTheme"
  by (simp add: strictEnv_def foodEnv_def localEnv_def)

lemma strict_archive_fails:
  "isl (browseLibrary strictEnv 1 (path_join [''/videos/food'', ''published'']) (Some Video) plainStore)"
  by code_simp

lemma strict_main_entries:
  "map fullPath (mainEntries strictEnv plainStore
      \<lparr> ThemeResourcePath.libraryId = 1, folderPath = ''/videos/food'' \<rparr>) =
     [''/videos/food/a.mp4'', ''/videos/food/b.mp4'']"
  by code_simp

theorem resolver_concatenates_roots_witness:
  "themes strictEnv 1 = Some foodTheme
   \<and> getThemeVideos strictEnv 1 plainStore =
       Inr (concat (map (rootEntries strictEnv ''published'' plainStore) (resourcePaths foodTheme)))
   \<and> isl (browseLibrary strictEnv 1 (path_join [''/videos/food'', ''published'']) (Some Video)
            plainStore)
   \<and> map fullPath (rootEntries strictEnv ''published'' plainStore
          \<lparr> ThemeResourcePath.libraryId = 1, folderPath = ''/videos/food'' \<rparr>) =
       [''/videos/food/a.mp4'', ''/videos/food/b.mp4'']
   \<and> filter isPublished (rootEntries strictEnv ''published'' plainStore
          \<lparr> ThemeResourcePath.libraryId = 1, folderPath = ''/videos/food'' \<rparr>) = []"
proof -
  have a: "effectiveArchiveFolderName foodTheme = ''published''"
    by (simp add: effectiveArchiveFolderName_def foodTheme_def)
  note t = resolver_concatenates_roots [OF strict_theme, of plainStore, unfolded a]
  have f: "isl (browseLibrary strictEnv
                 (ThemeResourcePath.libraryId \<lparr> ThemeResourcePath.libraryId = 1, folderPath = ''/videos/food'' \<rparr>)
                 (path_join [folderPath \<lparr> ThemeResourcePath.libraryId = 1, folderPath = ''/videos/food'' \<rparr>, ''published''])
                 (Some Video) plainStore)"
    using strict_archive_fails by simp
  from t have r: "rootEntries strictEnv ''published'' plainStore
          \<lparr> ThemeResourcePath.libraryId = 1, folderPath = ''/videos/food'' \<rparr> =
        mainEntries strictEnv plainStore \<lparr> ThemeResourcePath.libraryId = 1, folderPath = ''/videos/food'' \<rparr>"
    and e: "filter isPublished (rootEntries strictEnv ''published'' plainStore
          \<lparr> ThemeResourcePath.libraryId = 1, folderPath = ''/videos/food'' \<rparr>) = []"
    using f by blast+
  from t have g: "getThemeVideos strictEnv 1 plainStore =
       Inr (concat (map (rootEntries strictEnv ''published'' plainStore) (resourcePaths foodTheme)))"
    by blast
  show ?thesis
    using strict_theme g strict_archive_fails r e strict_main_entries by simp
qed

section \<open>The batch loops and their reports\<close>

lemma attemptsRun_fst_Cons:
  "fst (attemptsRun attempt (v # vs) w) =
     fst (attempt v w) # fst (attemptsRun attempt vs (snd (attempt v w)))"
  by (simp split: prod.splits)

lemma attemptsRun_snd_Cons:
  "snd (attemptsRun attempt (v # vs) w) = snd (attemptsRun attempt vs (snd (attempt v w)))"
  by (simp split: prod.splits)

lemma attemptsRun_length: "length (fst (attemptsRun attempt vs w)) = length vs"
  by (induction vs arbitrary: w) (simp_all add: attemptsRun_fst_Cons del: attemptsRun.simps(2))

lemma batchArchive_loop_run:
  "batchArchive_loop env themeId vs w acc =
     (acc @ itemResults vs (fst (attemptsRun (archiveAttempt env themeId) vs w)),
      snd (attemptsRun (archiveAttempt env themeId) vs w))"
proof (induction vs arbitrary: w acc)
  case Nil
  show ?case by (simp add: itemResults_def)
next
  case (Cons v vs)
  show ?case
  proof (cases "archiveVideo env themeId (libraryId v) (fullPath v) w")
    case (Pair r w')
    then show ?thesis
      by (cases r)
         (simp_all add: Cons.IH attemptsRun_fst_Cons attemptsRun_snd_Cons archiveAttempt_def
            itemResults_def del: attemptsRun.simps(2))
  qed
qed

lemma batchUnarchive_loop_run:
  "batchUnarchive_loop env themeId vs w acc =
     (acc @ itemResults vs (fst (attemptsRun (unarchiveAttempt env themeId) vs w)),
      snd (attemptsRun (unarchiveAttempt env themeId) vs w))"
proof (induction vs arbitrary: w acc)
  case Nil
  show ?case by (simp add: itemResults_def)
next
  case (Cons v vs)
  show ?case
  proof (cases "unarchiveVideo env themeId (libraryId v) (fullPath v) w")
    case (Pair r w')
    then show ?thesis
      by (cases r)
         (simp_all add: Cons.IH attemptsRun_fst_Cons attemptsRun_snd_Cons unarchiveAttempt_def
            itemResults_def del: attemptsRun.simps(2))
  qed
qed

lemma itemResults_success:
  "length outcomes = length vs \<Longrightarrow>
   length (filter success (itemResults vs outcomes)) = length (filter (\<lambda>r. \<not> isl r) outcomes)"
proof (induction vs arbitrary: outcomes)
  case Nil
  then show ?case by (simp add: itemResults_def)
next
  case (Cons v vs)
  then obtain r rs where o: "outcomes = r # rs" by (cases outcomes) auto
  with Cons have "length rs = length vs" by simp
  from Cons.IH [OF this] show ?case
    unfolding o by (cases r) (simp_all add: itemResults_def)
qed

lemma itemResults_failed:
  "length outcomes = length vs \<Longrightarrow>
   length (filter (\<lambda>r. \<not> success r) (itemResults vs outcomes)) = length (filter isl outcomes)"
proof (induction vs arbitrary: outcomes)
  case Nil
  then show ?case by (simp add: itemResults_def)
next
  case (Cons v vs)
  then obtain r rs where o: "outcomes = r # rs" by (cases outcomes) auto
  with Cons have "length rs = length vs" by simp
  from Cons.IH [OF this] show ?case
    unfolding o by (cases r) (simp_all add: itemResults_def)
qed

lemma itemResults_path:
  "length outcomes = length vs \<Longrightarrow>
   map BatchItemResult.path (itemResults vs outcomes) = map fullPath vs"
proof (induction vs arbitrary: outcomes)
  case Nil
  then show ?case by (simp add: itemResults_def)
next
  case (Cons v vs)
  then obtain r rs where o: "outcomes = r # rs" by (cases outcomes) auto
  with Cons have "length rs = length vs" by simp
  from Cons.IH [OF this] show ?case
    unfolding o by (cases r) (simp_all add: itemResults_def)
qed

lemma batchArchiveVideos_run:
  assumes "themes env themeId = Some theme"
  shows "batchArchiveVideos env themeId requested w =
     (let vs = selected requested False (projr (getThemeVideos env themeId w));
          run = attemptsRun (archiveAttempt env themeId) vs w
      in (Inr \<lparr> ArchiveReport.total = length requested,
                archived = length (filter (\<lambda>r. \<not> isl r) (fst run)),
                ArchiveReport.failed = length (filter isl (fst run)),
                ArchiveReport.results = itemResults vs (fst run) \<rparr>, snd run))"
  using assms
  by (simp add: batchArchiveVideos_def getThemeVideos_def batchArchive_loop_run Let_def
        selected_def itemResults_success itemResults_failed attemptsRun_length)

lemma batchUnarchiveVideos_run:
  assumes "themes env themeId = Some theme"
  shows "batchUnarchiveVideos env themeId requested w =
     (let vs = selected requested True (projr (getThemeVideos env themeId w));
          run = attemptsRun (unarchiveAttempt env themeId) vs w
      in (Inr \<lparr> UnarchiveReport.total = length requested,
                unarchived = length (filter (\<lambda>r. \<not> isl r) (fst run)),
                UnarchiveReport.failed = length (filter isl (fst run)),
                UnarchiveReport.results = itemResults vs (fst run) \<rparr>, snd run))"
  using assms
  by (simp add: batchUnarchiveVideos_def getThemeVideos_def batchUnarchive_loop_run Let_def
        selected_def itemResults_success itemResults_failed attemptsRun_length)

lemma selected_Cons_nomatch:
  "\<forall>v \<in> set allVideos. fullPath v = p \<longrightarrow> isPublished v \<noteq> status \<Longrightarrow>
   selected (p # requested) status allVideos = selected requested status allVideos"
  unfolding selected_def by (rule filter_cong) auto

lemma itemResults_paths_subset:
  "set (map BatchItemResult.path (itemResults vs outcomes)) \<subseteq> fullPath ` set vs"
  by (auto simp: itemResults_def dest!: set_zip_leftD) (case_tac b; simp)+

lemma selected_set:
  "set (selected requested status allVideos) =
     {v \<in> set allVideos. fullPath v \<in> set requested \<and> isPublished v = status}"
  by (auto simp: selected_def)

text \<open>
  C2 (as amended). For a theme that exists, \<open>batchArchiveVideos\<close> returns a report whose
  \<open>total\<close> is the length of the requested list; whose \<open>results\<close> has one entry for every
  video of the current inventory that sits at a requested path and is unpublished, in
  the order of the inventory (so two such videos at the same path give two entries);
  whose \<open>archived\<close> is the number of those attempts that returned and whose \<open>failed\<close> is
  the number that threw. The store it leaves is the one the attempts on those videos
  leave. A further requested path at which no unpublished video sits adds one to \<open>total\<close>
  and changes neither \<open>results\<close> nor the store. \<open>batchUnarchiveVideos\<close> is the same with
  the published videos and \<open>unarchived\<close>.
\<close>

theorem batch_report_counts:
  fixes env :: "('c, 'w) Env" and themeId :: nat and requested :: "string list" and w :: 'w
  assumes "themes env themeId = Some theme"
  defines "inventory \<equiv> projr (getThemeVideos env themeId w)"
  defines "toArchive \<equiv> selected requested False inventory"
  defines "archiving \<equiv> attemptsRun (archiveAttempt env themeId) toArchive w"
  defines "toUnarchive \<equiv> selected requested True inventory"
  defines "unarchiving \<equiv> attemptsRun (unarchiveAttempt env themeId) toUnarchive w"
  shows "batchArchiveVideos env themeId requested w =
           (Inr \<lparr> ArchiveReport.total = length requested,
                   archived = length (filter (\<lambda>r. \<not> isl r) (fst archiving)),
                   ArchiveReport.failed = length (filter isl (fst archiving)),
                   ArchiveReport.results = itemResults toArchive (fst archiving) \<rparr>,
            snd archiving)
         \<and> map BatchItemResult.path (itemResults toArchive (fst archiving)) = map fullPath toArchive
         \<and> length (fst archiving) = length toArchive
         \<and> (\<forall>p. (\<forall>v \<in> set inventory. fullPath v = p \<longrightarrow> isPublished v) \<longrightarrow>
                p \<notin> set (map BatchItemResult.path (itemResults toArchive (fst archiving)))
                \<and> batchArchiveVideos env themeId (p # requested) w =
                    (Inr \<lparr> ArchiveReport.total = Suc (length requested),
                            archived = length (filter (\<lambda>r. \<not> isl r) (fst archiving)),
                            ArchiveReport.failed = length (filter isl (fst archiving)),
                            ArchiveReport.results = itemResults toArchive (fst archiving) \<rparr>,
                     snd archiving))
         \<and> batchUnarchiveVideos env themeId requested w =
           (Inr \<lparr> UnarchiveReport.total = length requested,
                   unarchived = length (filter (\<lambda>r. \<not> isl r) (fst unarchiving)),
                   UnarchiveReport.failed = length (filter isl (fst unarchiving)),
                   UnarchiveReport.results = itemResults toUnarchive (fst unarchiving) \<rparr>,
            snd unarchiving)
         \<and> map BatchItemResult.path (itemResults toUnarchive (fst unarchiving)) =
             map fullPath toUnarchive
         \<and> length (fst unarchiving) = length toUnarchive
         \<and> (\<forall>p. (\<forall>v \<in> set inventory. fullPath v = p \<longrightarrow> \<not> isPublished v) \<longrightarrow>
                p \<notin> set (map BatchItemResult.path (itemResults toUnarchive (fst unarchiving)))
                \<and> batchUnarchiveVideos env themeId (p # requested) w =
                    (Inr \<lparr> UnarchiveReport.total = Suc (length requested),
                            unarchived = length (filter (\<lambda>r. \<not> isl r) (fst unarchiving)),
                            UnarchiveReport.failed = length (filter isl (fst unarchiving)),
                            UnarchiveReport.results = itemResults toUnarchive (fst unarchiving) \<rparr>,
                     snd unarchiving))"
proof -
  have A: "batchArchiveVideos env themeId ps w =
           (Inr \<lparr> ArchiveReport.total = length ps,
                   archived = length (filter (\<lambda>r. \<not> isl r)
                     (fst (attemptsRun (archiveAttempt env themeId) (selected ps False inventory) w))),
                   ArchiveReport.failed = length (filter isl
                     (fst (attemptsRun (archiveAttempt env themeId) (selected ps False inventory) w))),
                   ArchiveReport.results = itemResults (selected ps False inventory)
                     (fst (attemptsRun (archiveAttempt env themeId) (selected ps False inventory) w)) \<rparr>,
            snd (attemptsRun (archiveAttempt env themeId) (selected ps False inventory) w))" for ps
    using batchArchiveVideos_run [OF assms(1), of ps w] by (simp add: Let_def inventory_def)
  have U: "batchUnarchiveVideos env themeId ps w =
           (Inr \<lparr> UnarchiveReport.total = length ps,
                   unarchived = length (filter (\<lambda>r. \<not> isl r)
                     (fst (attemptsRun (unarchiveAttempt env themeId) (selected ps True inventory) w))),
                   UnarchiveReport.failed = length (filter isl
                     (fst (attemptsRun (unarchiveAttempt env themeId) (selected ps True inventory) w))),
                   UnarchiveReport.results = itemResults (selected ps True inventory)
                     (fst (attemptsRun (unarchiveAttempt env themeId) (selected ps True inventory) w)) \<rparr>,
            snd (attemptsRun (unarchiveAttempt env themeId) (selected ps True inventory) w))" for ps
    using batchUnarchiveVideos_run [OF assms(1), of ps w] by (simp add: Let_def inventory_def)
  have LA: "length (fst archiving) = length toArchive"
    by (simp add: archiving_def attemptsRun_length)
  have LU: "length (fst unarchiving) = length toUnarchive"
    by (simp add: unarchiving_def attemptsRun_length)
  have NA: "p \<notin> set (map BatchItemResult.path (itemResults toArchive (fst archiving)))
            \<and> selected (p # requested) False inventory = toArchive"
    if "\<forall>v \<in> set inventory. fullPath v = p \<longrightarrow> isPublished v" for p
  proof
    show "p \<notin> set (map BatchItemResult.path (itemResults toArchive (fst archiving)))"
      using that itemResults_paths_subset [of toArchive "fst archiving"]
      by (auto simp: toArchive_def selected_set)
    show "selected (p # requested) False inventory = toArchive"
      unfolding toArchive_def using that by (intro selected_Cons_nomatch) auto
  qed
  have NU: "p \<notin> set (map BatchItemResult.path (itemResults toUnarchive (fst unarchiving)))
            \<and> selected (p # requested) True inventory = toUnarchive"
    if "\<forall>v \<in> set inventory. fullPath v = p \<longrightarrow> \<not> isPublished v" for p
  proof
    show "p \<notin> set (map BatchItemResult.path (itemResults toUnarchive (fst unarchiving)))"
      using that itemResults_paths_subset [of toUnarchive "fst unarchiving"]
      by (auto simp: toUnarchive_def selected_set)
    show "selected (p # requested) True inventory = toUnarchive"
      unfolding toUnarchive_def using that by (intro selected_Cons_nomatch) auto
  qed
  show ?thesis
  proof (intro conjI allI impI)
    show "batchArchiveVideos env themeId requested w =
           (Inr \<lparr> ArchiveReport.total = length requested,
                   archived = length (filter (\<lambda>r. \<not> isl r) (fst archiving)),
                   ArchiveReport.failed = length (filter isl (fst archiving)),
                   ArchiveReport.results = itemResults toArchive (fst archiving) \<rparr>,
            snd archiving)"
      using A [of requested] by (simp add: archiving_def toArchive_def)
    show "map BatchItemResult.path (itemResults toArchive (fst archiving)) = map fullPath toArchive"
      using LA by (rule itemResults_path)
    show "length (fst archiving) = length toArchive" by (rule LA)
    show "batchUnarchiveVideos env themeId requested w =
           (Inr \<lparr> UnarchiveReport.total = length requested,
                   unarchived = length (filter (\<lambda>r. \<not> isl r) (fst unarchiving)),
                   UnarchiveReport.failed = length (filter isl (fst unarchiving)),
                   UnarchiveReport.results = itemResults toUnarchive (fst unarchiving) \<rparr>,
            snd unarchiving)"
      using U [of requested] by (simp add: unarchiving_def toUnarchive_def)
    show "map BatchItemResult.path (itemResults toUnarchive (fst unarchiving)) =
            map fullPath toUnarchive"
      using LU by (rule itemResults_path)
    show "length (fst unarchiving) = length toUnarchive" by (rule LU)
  next
    fix p assume h: "\<forall>v \<in> set inventory. fullPath v = p \<longrightarrow> isPublished v"
    show "p \<notin> set (map BatchItemResult.path (itemResults toArchive (fst archiving)))"
      using NA [OF h] by simp
    show "batchArchiveVideos env themeId (p # requested) w =
                    (Inr \<lparr> ArchiveReport.total = Suc (length requested),
                            archived = length (filter (\<lambda>r. \<not> isl r) (fst archiving)),
                            ArchiveReport.failed = length (filter isl (fst archiving)),
                            ArchiveReport.results = itemResults toArchive (fst archiving) \<rparr>,
                     snd archiving)"
      using A [of "p # requested"] NA [OF h] by (simp add: archiving_def)
  next
    fix p assume h: "\<forall>v \<in> set inventory. fullPath v = p \<longrightarrow> \<not> isPublished v"
    show "p \<notin> set (map BatchItemResult.path (itemResults toUnarchive (fst unarchiving)))"
      using NU [OF h] by simp
    show "batchUnarchiveVideos env themeId (p # requested) w =
                    (Inr \<lparr> UnarchiveReport.total = Suc (length requested),
                            unarchived = length (filter (\<lambda>r. \<not> isl r) (fst unarchiving)),
                            UnarchiveReport.failed = length (filter isl (fst unarchiving)),
                            UnarchiveReport.results = itemResults toUnarchive (fst unarchiving) \<rparr>,
                     snd unarchiving)"
      using U [of "p # requested"] NU [OF h] by (simp add: unarchiving_def)
  qed
qed

lemma food_theme: "themes foodEnv 1 = Some foodTheme"
  by (simp add: foodEnv_def localEnv_def)

lemma food_inventory:
  "map (\<lambda>v. (fullPath v, isPublished v)) (projr (getThemeVideos foodEnv 1 foodStore)) =
     [(''/videos/food/a.mp4'', False), (''/videos/food/b.mp4'', False),
      (''/videos/food/published/c.mp4'', True)]"
  by code_simp

theorem batch_report_counts_witness:
  "themes foodEnv 1 = Some foodTheme
   \<and> fst (batchArchiveVideos foodEnv 1
          [''/videos/food/a.mp4'', ''/videos/food/a.mp4'', ''/videos/food/published/c.mp4'']
          foodStore) =
       Inr \<lparr> ArchiveReport.total = 3, archived = 1, ArchiveReport.failed = 0,
              ArchiveReport.results =
                [\<lparr> path = ''/videos/food/a.mp4'', success = True, message = None \<rparr>] \<rparr>
   \<and> fst (batchArchiveVideos foodEnv 1
          [''/videos/none.mp4'', ''/videos/food/a.mp4'', ''/videos/food/a.mp4'',
           ''/videos/food/published/c.mp4'']
          foodStore) =
       Inr \<lparr> ArchiveReport.total = 4, archived = 1, ArchiveReport.failed = 0,
              ArchiveReport.results =
                [\<lparr> path = ''/videos/food/a.mp4'', success = True, message = None \<rparr>] \<rparr>
   \<and> fst (batchUnarchiveVideos foodEnv 1
          [''/videos/food/a.mp4'', ''/videos/food/a.mp4'', ''/videos/food/published/c.mp4'']
          foodStore) =
       Inr \<lparr> UnarchiveReport.total = 3, unarchived = 1, UnarchiveReport.failed = 0,
              UnarchiveReport.results =
                [\<lparr> path = ''/videos/food/published/c.mp4'', success = True, message = None \<rparr>] \<rparr>"
proof -
  let ?req = "[''/videos/food/a.mp4'', ''/videos/food/a.mp4'', ''/videos/food/published/c.mp4'']"
  note t = batch_report_counts [OF food_theme, of ?req foodStore]
  have a: "fst (attemptsRun (archiveAttempt foodEnv 1)
                  (selected ?req False (projr (getThemeVideos foodEnv 1 foodStore))) foodStore) =
             [Inr ()]"
    by code_simp
  have ra: "itemResults (selected ?req False (projr (getThemeVideos foodEnv 1 foodStore))) [Inr ()] =
             [\<lparr> path = ''/videos/food/a.mp4'', success = True, message = None \<rparr>]"
    by code_simp
  have u: "fst (attemptsRun (unarchiveAttempt foodEnv 1)
                  (selected ?req True (projr (getThemeVideos foodEnv 1 foodStore))) foodStore) =
             [Inr ()]"
    by code_simp
  have ru: "itemResults (selected ?req True (projr (getThemeVideos foodEnv 1 foodStore))) [Inr ()] =
             [\<lparr> path = ''/videos/food/published/c.mp4'', success = True, message = None \<rparr>]"
    by code_simp
  have n: "\<forall>v \<in> set (projr (getThemeVideos foodEnv 1 foodStore)).
             fullPath v = ''/videos/none.mp4'' \<longrightarrow> isPublished v"
  proof
    fix v assume "v \<in> set (projr (getThemeVideos foodEnv 1 foodStore))"
    then have "(fullPath v, isPublished v) \<in>
                 set (map (\<lambda>v. (fullPath v, isPublished v)) (projr (getThemeVideos foodEnv 1 foodStore)))"
      by simp
    then show "fullPath v = ''/videos/none.mp4'' \<longrightarrow> isPublished v"
      unfolding food_inventory by auto
  qed
  from t a ra have 1: "fst (batchArchiveVideos foodEnv 1 ?req foodStore) =
       Inr \<lparr> ArchiveReport.total = 3, archived = 1, ArchiveReport.failed = 0,
              ArchiveReport.results =
                [\<lparr> path = ''/videos/food/a.mp4'', success = True, message = None \<rparr>] \<rparr>"
    by simp
  from t n a ra have 2: "fst (batchArchiveVideos foodEnv 1 (''/videos/none.mp4'' # ?req) foodStore) =
       Inr \<lparr> ArchiveReport.total = 4, archived = 1, ArchiveReport.failed = 0,
              ArchiveReport.results =
                [\<lparr> path = ''/videos/food/a.mp4'', success = True, message = None \<rparr>] \<rparr>"
    by simp
  from t u ru have 3: "fst (batchUnarchiveVideos foodEnv 1 ?req foodStore) =
       Inr \<lparr> UnarchiveReport.total = 3, unarchived = 1, UnarchiveReport.failed = 0,
              UnarchiveReport.results =
                [\<lparr> path = ''/videos/food/published/c.mp4'', success = True, message = None \<rparr>] \<rparr>"
    by simp
  show ?thesis using food_theme 1 2 3 by simp
qed

text \<open>
  C2, the claim as stated, fails where two videos of the inventory share a path: with
  two libraries that both hold \<open>/videos/food/a.mp4\<close>, one requested path gives two
  entries of \<open>results\<close> (and \<open>archived = 2\<close> with \<open>total = 1\<close>).
\<close>

theorem batch_results_counterexample:
  "ArchiveReport.total (projr (fst (batchArchiveVideos twinEnv 1 [''/videos/food/a.mp4''] twinStore))) = 1
   \<and> map BatchItemResult.path
        (ArchiveReport.results
           (projr (fst (batchArchiveVideos twinEnv 1 [''/videos/food/a.mp4''] twinStore)))) =
       [''/videos/food/a.mp4'', ''/videos/food/a.mp4'']"
  by code_simp

lemma attemptsRun_nth:
  "i < length vs \<Longrightarrow>
   fst (attemptsRun attempt vs w) ! i =
     fst (attempt (vs ! i) (snd (attemptsRun attempt (take i vs) w)))"
proof (induction vs arbitrary: i w)
  case Nil
  then show ?case by simp
next
  case (Cons v vs)
  show ?case
  proof (cases i)
    case 0
    then show ?thesis by (simp add: attemptsRun_fst_Cons del: attemptsRun.simps(2))
  next
    case (Suc j)
    with Cons.prems have "j < length vs" by simp
    from Cons.IH [OF this] show ?thesis
      using Suc by (simp add: attemptsRun_fst_Cons attemptsRun_snd_Cons del: attemptsRun.simps(2))
  qed
qed

lemma itemResults_nth:
  "length outcomes = length vs \<Longrightarrow> i < length vs \<Longrightarrow>
   itemResults vs outcomes ! i = itemResult (vs ! i) (outcomes ! i)"
  by (simp add: itemResults_def)

lemma itemResults_length:
  "length outcomes = length vs \<Longrightarrow> length (itemResults vs outcomes) = length vs"
  by (simp add: itemResults_def)

lemma filter_single_index:
  assumes "j < length xs" and "P (xs ! j)" and "\<forall>i < length xs. i \<noteq> j \<longrightarrow> \<not> P (xs ! i)"
  shows "length (filter P xs) = 1" and "length (filter (\<lambda>x. \<not> P x) xs) = length xs - 1"
proof -
  have xs: "xs = take j xs @ xs ! j # drop (Suc j) xs"
    using assms(1) by (simp add: id_take_nth_drop)
  have t: "filter P (take j xs) = []"
    using assms by (auto simp: filter_empty_conv in_set_conv_nth)
  have d: "filter P (drop (Suc j) xs) = []"
    using assms by (auto simp: filter_empty_conv in_set_conv_nth)
  have "filter P xs = filter P (take j xs) @ filter P [xs ! j] @ filter P (drop (Suc j) xs)"
    by (subst xs) simp
  then show "length (filter P xs) = 1" using t d assms(2) by simp
  then show "length (filter (\<lambda>x. \<not> P x) xs) = length xs - 1"
    using sum_length_filter_compl [of P xs] by simp
qed

lemma archiveVideo_move_throws:
  assumes "themes env themeId = Some theme"
    and "getLibraryInstance env lid = Inr library"
    and "getInfo library (path_join [dirname p, effectiveArchiveFolderName theme]) w = Inr info"
    and "move library p
           (path_join [path_join [dirname p, effectiveArchiveFolderName theme], basename p]) w =
         (Inl e, w')"
  shows "archiveVideo env themeId lid p w = (Inl e, w')"
  using assms by (simp add: archiveVideo_def Let_def)

lemma unarchiveVideo_move_throws:
  assumes "themes env themeId = Some theme"
    and "getLibraryInstance env lid = Inr library"
    and "endsWith (dirname p) (effectiveArchiveFolderName theme)"
    and "move library p (path_join [dirname (dirname p), basename p]) w = (Inl e, w')"
  shows "unarchiveVideo env themeId lid p w = (Inl e, w')"
  using assms by (simp add: unarchiveVideo_def Let_def)

lemma isolation:
  fixes attempt :: "VideoEntry \<Rightarrow> 'w \<Rightarrow> (error + unit) \<times> 'w"
    and vs :: "VideoEntry list" and w :: 'w
  defines "outs \<equiv> fst (attemptsRun attempt vs w)"
  defines "rs \<equiv> itemResults vs outs"
  shows "length rs = length vs
    \<and> (\<forall>i < length vs.
          outs ! i = fst (attempt (vs ! i) (snd (attemptsRun attempt (take i vs) w)))
          \<and> rs ! i = itemResult (vs ! i) (outs ! i))
    \<and> (\<forall>j < length vs. isl (outs ! j) \<and> (\<forall>i < length vs. i \<noteq> j \<longrightarrow> \<not> isl (outs ! i)) \<longrightarrow>
          (\<forall>i < length vs. success (rs ! i) = (i \<noteq> j))
          \<and> length (filter isl outs) = 1
          \<and> length (filter (\<lambda>r. \<not> isl r) outs) = length vs - 1)"
proof -
  have L: "length outs = length vs" by (simp add: outs_def attemptsRun_length)
  have N: "rs ! i = itemResult (vs ! i) (outs ! i)" if "i < length vs" for i
    unfolding rs_def using L that by (rule itemResults_nth)
  have S: "success (itemResult v r) = (\<not> isl r)" for v r by (cases r) simp_all
  show ?thesis
  proof (intro conjI allI impI)
    show "length rs = length vs" unfolding rs_def using L by (rule itemResults_length)
  next
    fix i assume "i < length vs"
    then show "outs ! i = fst (attempt (vs ! i) (snd (attemptsRun attempt (take i vs) w)))"
      unfolding outs_def by (rule attemptsRun_nth)
    show "rs ! i = itemResult (vs ! i) (outs ! i)" using \<open>i < length vs\<close> by (rule N)
  next
    fix j assume j: "j < length vs"
      and h: "isl (outs ! j) \<and> (\<forall>i < length vs. i \<noteq> j \<longrightarrow> \<not> isl (outs ! i))"
    {
      fix i assume "i < length vs"
      then show "success (rs ! i) = (i \<noteq> j)"
        using h by (auto simp: N S)
    }
    from j h L show "length (filter isl outs) = 1"
      by (intro filter_single_index(1) [of j]) auto
    from j h L have "length (filter (\<lambda>r. \<not> isl r) outs) = length outs - 1"
      by (intro filter_single_index(2) [of j]) auto
    then show "length (filter (\<lambda>r. \<not> isl r) outs) = length vs - 1" using L by simp
  qed
qed

text \<open>
  C3. For a theme that exists, both batch methods return a report (no exception leaves
  the call) whose \<open>total\<close> is the number of requested paths. Every selected video is
  attempted, on the store the attempts before it left, whatever those attempts threw, and
  has its entry in \<open>results\<close>: an attempt that threw \<open>e\<close> gives
  \<open>{path, success: false, message: e.message}\<close>, an attempt that returned gives
  \<open>{path, success: true}\<close>. When exactly one attempt throws, its entry alone has
  \<open>success: false\<close>, \<open>failed\<close> is 1 and the other count is the number of the other
  attempts. (What the library's \<open>move\<close> throws is what the attempt throws:
  \<open>archiveVideo_move_throws\<close>, \<open>unarchiveVideo_move_throws\<close>.)
\<close>

theorem batch_isolates_failures:
  fixes env :: "('c, 'w) Env" and themeId :: nat and requested :: "string list" and w :: 'w
  assumes "themes env themeId = Some theme"
  defines "inventory \<equiv> projr (getThemeVideos env themeId w)"
  defines "toArchive \<equiv> selected requested False inventory"
  defines "outsA \<equiv> fst (attemptsRun (archiveAttempt env themeId) toArchive w)"
  defines "repA \<equiv> projr (fst (batchArchiveVideos env themeId requested w))"
  defines "toUnarchive \<equiv> selected requested True inventory"
  defines "outsU \<equiv> fst (attemptsRun (unarchiveAttempt env themeId) toUnarchive w)"
  defines "repU \<equiv> projr (fst (batchUnarchiveVideos env themeId requested w))"
  shows "fst (batchArchiveVideos env themeId requested w) = Inr repA
    \<and> ArchiveReport.total repA = length requested
    \<and> length (ArchiveReport.results repA) = length toArchive
    \<and> (\<forall>i < length toArchive.
          outsA ! i =
            fst (archiveVideo env themeId (libraryId (toArchive ! i)) (fullPath (toArchive ! i))
                   (snd (attemptsRun (archiveAttempt env themeId) (take i toArchive) w)))
          \<and> (\<forall>e. outsA ! i = Inl e \<longrightarrow>
                ArchiveReport.results repA ! i =
                  \<lparr> path = fullPath (toArchive ! i), success = False,
                    message = Some (error_message e) \<rparr>)
          \<and> (\<forall>u. outsA ! i = Inr u \<longrightarrow>
                ArchiveReport.results repA ! i =
                  \<lparr> path = fullPath (toArchive ! i), success = True, message = None \<rparr>))
    \<and> (\<forall>j < length toArchive.
          isl (outsA ! j) \<and> (\<forall>i < length toArchive. i \<noteq> j \<longrightarrow> \<not> isl (outsA ! i)) \<longrightarrow>
          (\<forall>i < length toArchive. success (ArchiveReport.results repA ! i) = (i \<noteq> j))
          \<and> ArchiveReport.failed repA = 1
          \<and> archived repA = length toArchive - 1)
    \<and> fst (batchUnarchiveVideos env themeId requested w) = Inr repU
    \<and> UnarchiveReport.total repU = length requested
    \<and> length (UnarchiveReport.results repU) = length toUnarchive
    \<and> (\<forall>i < length toUnarchive.
          outsU ! i =
            fst (unarchiveVideo env themeId (libraryId (toUnarchive ! i)) (fullPath (toUnarchive ! i))
                   (snd (attemptsRun (unarchiveAttempt env themeId) (take i toUnarchive) w)))
          \<and> (\<forall>e. outsU ! i = Inl e \<longrightarrow>
                UnarchiveReport.results repU ! i =
                  \<lparr> path = fullPath (toUnarchive ! i), success = False,
                    message = Some (error_message e) \<rparr>)
          \<and> (\<forall>u. outsU ! i = Inr u \<longrightarrow>
                UnarchiveReport.results repU ! i =
                  \<lparr> path = fullPath (toUnarchive ! i), success = True, message = None \<rparr>))
    \<and> (\<forall>j < length toUnarchive.
          isl (outsU ! j) \<and> (\<forall>i < length toUnarchive. i \<noteq> j \<longrightarrow> \<not> isl (outsU ! i)) \<longrightarrow>
          (\<forall>i < length toUnarchive. success (UnarchiveReport.results repU ! i) = (i \<noteq> j))
          \<and> UnarchiveReport.failed repU = 1
          \<and> unarchived repU = length toUnarchive - 1)"
proof -
  note A = batchArchiveVideos_run [OF assms(1), of requested w, unfolded Let_def,
      folded inventory_def, folded toArchive_def, folded outsA_def]
  note U = batchUnarchiveVideos_run [OF assms(1), of requested w, unfolded Let_def,
      folded inventory_def, folded toUnarchive_def, folded outsU_def]
  note IA = isolation [of toArchive "archiveAttempt env themeId" w, folded outsA_def]
  note IU = isolation [of toUnarchive "unarchiveAttempt env themeId" w, folded outsU_def]
  have rA: "ArchiveReport.results repA = itemResults toArchive outsA"
    and tA: "ArchiveReport.total repA = length requested"
    and fA: "ArchiveReport.failed repA = length (filter isl outsA)"
    and aA: "archived repA = length (filter (\<lambda>r. \<not> isl r) outsA)"
    and eA: "fst (batchArchiveVideos env themeId requested w) = Inr repA"
    unfolding repA_def A by simp_all
  have rU: "UnarchiveReport.results repU = itemResults toUnarchive outsU"
    and tU: "UnarchiveReport.total repU = length requested"
    and fU: "UnarchiveReport.failed repU = length (filter isl outsU)"
    and aU: "unarchived repU = length (filter (\<lambda>r. \<not> isl r) outsU)"
    and eU: "fst (batchUnarchiveVideos env themeId requested w) = Inr repU"
    unfolding repU_def U by simp_all
  have partA: "length (ArchiveReport.results repA) = length toArchive
    \<and> (\<forall>i < length toArchive.
          outsA ! i =
            fst (archiveVideo env themeId (libraryId (toArchive ! i)) (fullPath (toArchive ! i))
                   (snd (attemptsRun (archiveAttempt env themeId) (take i toArchive) w)))
          \<and> (\<forall>e. outsA ! i = Inl e \<longrightarrow>
                ArchiveReport.results repA ! i =
                  \<lparr> path = fullPath (toArchive ! i), success = False,
                    message = Some (error_message e) \<rparr>)
          \<and> (\<forall>u. outsA ! i = Inr u \<longrightarrow>
                ArchiveReport.results repA ! i =
                  \<lparr> path = fullPath (toArchive ! i), success = True, message = None \<rparr>))
    \<and> (\<forall>j < length toArchive.
          isl (outsA ! j) \<and> (\<forall>i < length toArchive. i \<noteq> j \<longrightarrow> \<not> isl (outsA ! i)) \<longrightarrow>
          (\<forall>i < length toArchive. success (ArchiveReport.results repA ! i) = (i \<noteq> j))
          \<and> ArchiveReport.failed repA = 1
          \<and> archived repA = length toArchive - 1)"
    unfolding rA fA aA using IA by (auto simp: archiveAttempt_def)
  have partU: "length (UnarchiveReport.results repU) = length toUnarchive
    \<and> (\<forall>i < length toUnarchive.
          outsU ! i =
            fst (unarchiveVideo env themeId (libraryId (toUnarchive ! i)) (fullPath (toUnarchive ! i))
                   (snd (attemptsRun (unarchiveAttempt env themeId) (take i toUnarchive) w)))
          \<and> (\<forall>e. outsU ! i = Inl e \<longrightarrow>
                UnarchiveReport.results repU ! i =
                  \<lparr> path = fullPath (toUnarchive ! i), success = False,
                    message = Some (error_message e) \<rparr>)
          \<and> (\<forall>u. outsU ! i = Inr u \<longrightarrow>
                UnarchiveReport.results repU ! i =
                  \<lparr> path = fullPath (toUnarchive ! i), success = True, message = None \<rparr>))
    \<and> (\<forall>j < length toUnarchive.
          isl (outsU ! j) \<and> (\<forall>i < length toUnarchive. i \<noteq> j \<longrightarrow> \<not> isl (outsU ! i)) \<longrightarrow>
          (\<forall>i < length toUnarchive. success (UnarchiveReport.results repU ! i) = (i \<noteq> j))
          \<and> UnarchiveReport.failed repU = 1
          \<and> unarchived repU = length toUnarchive - 1)"
    unfolding rU fU aU using IU by (auto simp: unarchiveAttempt_def)
  show ?thesis using eA tA partA eU tU partU by blast
qed

theorem batch_isolates_failures_witness:
  "themes foodEnv 1 = Some foodTheme
   \<and> map isl (fst (attemptsRun (archiveAttempt foodEnv 1)
        (selected [''/videos/food/a.mp4'', ''/videos/food/b.mp4''] False
           (projr (getThemeVideos foodEnv 1 collisionStore))) collisionStore)) = [True, False]
   \<and> isl (fst (batchArchiveVideos foodEnv 1 [''/videos/food/a.mp4'', ''/videos/food/b.mp4'']
              collisionStore)) = False
   \<and> ArchiveReport.total (projr (fst (batchArchiveVideos foodEnv 1
        [''/videos/food/a.mp4'', ''/videos/food/b.mp4''] collisionStore))) = 2
   \<and> ArchiveReport.failed (projr (fst (batchArchiveVideos foodEnv 1
        [''/videos/food/a.mp4'', ''/videos/food/b.mp4''] collisionStore))) = 1
   \<and> archived (projr (fst (batchArchiveVideos foodEnv 1
        [''/videos/food/a.mp4'', ''/videos/food/b.mp4''] collisionStore))) = 1
   \<and> success (ArchiveReport.results (projr (fst (batchArchiveVideos foodEnv 1
        [''/videos/food/a.mp4'', ''/videos/food/b.mp4''] collisionStore))) ! 0) = False
   \<and> success (ArchiveReport.results (projr (fst (batchArchiveVideos foodEnv 1
        [''/videos/food/a.mp4'', ''/videos/food/b.mp4''] collisionStore))) ! 1) = True"
proof -
  let ?req = "[''/videos/food/a.mp4'', ''/videos/food/b.mp4'']"
  let ?vs = "selected ?req False (projr (getThemeVideos foodEnv 1 collisionStore))"
  let ?outs = "fst (attemptsRun (archiveAttempt foodEnv 1) ?vs collisionStore)"
  note t = batch_isolates_failures [OF food_theme, of ?req collisionStore]
  have o: "map isl ?outs = [True, False]"
    by code_simp
  have l: "length ?vs = 2"
    by code_simp
  have lo: "length ?outs = 2" using arg_cong [OF o, of length] by simp
  have o0: "isl (?outs ! 0)" and o1: "\<not> isl (?outs ! 1)"
    using arg_cong [OF o, of "\<lambda>xs. xs ! 0"] arg_cong [OF o, of "\<lambda>xs. xs ! 1"] lo
    by simp_all
  have one: "isl (?outs ! 0) \<and> (\<forall>i < length ?vs. i \<noteq> 0 \<longrightarrow> \<not> isl (?outs ! i))"
    using o0 o1 l by (auto simp: less_Suc_eq numeral_2_eq_2)
  from t have c: "\<forall>j < length ?vs.
          isl (?outs ! j) \<and> (\<forall>i < length ?vs. i \<noteq> j \<longrightarrow> \<not> isl (?outs ! i)) \<longrightarrow>
          (\<forall>i < length ?vs. success (ArchiveReport.results (projr (fst (batchArchiveVideos foodEnv 1 ?req collisionStore))) ! i) = (i \<noteq> j))
          \<and> ArchiveReport.failed (projr (fst (batchArchiveVideos foodEnv 1 ?req collisionStore))) = 1
          \<and> archived (projr (fst (batchArchiveVideos foodEnv 1 ?req collisionStore))) = length ?vs - 1"
    by blast
  from c one l have r: "(\<forall>i < length ?vs. success (ArchiveReport.results (projr (fst (batchArchiveVideos foodEnv 1 ?req collisionStore))) ! i) = (i \<noteq> 0))
          \<and> ArchiveReport.failed (projr (fst (batchArchiveVideos foodEnv 1 ?req collisionStore))) = 1
          \<and> archived (projr (fst (batchArchiveVideos foodEnv 1 ?req collisionStore))) = length ?vs - 1"
    by (metis zero_less_numeral)
  from t have e: "fst (batchArchiveVideos foodEnv 1 ?req collisionStore) =
                    Inr (projr (fst (batchArchiveVideos foodEnv 1 ?req collisionStore)))"
    and tt: "ArchiveReport.total (projr (fst (batchArchiveVideos foodEnv 1 ?req collisionStore))) = length ?req"
    by blast+
  have ni: "isl (fst (batchArchiveVideos foodEnv 1 ?req collisionStore)) = False"
    by (subst e) simp
  show ?thesis
    using food_theme o ni tt r l by (simp add: numeral_2_eq_2)
qed

section \<open>Batch publishing\<close>

lemma createAll_length:
  "createAll svc ds s = (Inr ids, s') \<Longrightarrow> length ids = length ds"
proof (induction ds arbitrary: s ids)
  case Nil
  then show ?case by simp
next
  case (Cons d ds)
  then show ?case
    by (auto split: prod.splits sum.splits)
qed

lemma createAll_append:
  "createAll svc (xs @ ys) s =
     (case createAll svc xs s of
        (Inl e, s') \<Rightarrow> (Inl e, s')
      | (Inr ids, s') \<Rightarrow>
          (case createAll svc ys s' of
             (Inl e, s'') \<Rightarrow> (Inl e, s'')
           | (Inr ids', s'') \<Rightarrow> (Inr (ids @ ids'), s'')))"
proof (induction xs arbitrary: s)
  case Nil
  show ?case by (simp split: prod.splits sum.splits)
next
  case (Cons x xs)
  show ?case
    by (simp add: Cons.IH split: prod.splits sum.splits)
qed

lemma publish_videos_run:
  "publish_videos svc options aa acct vs s acc =
     (case createAll svc (map (\<lambda>v. taskDataFor options (acct, v)) vs) s of
        (Inl e, s') \<Rightarrow> (Inl e, s')
      | (Inr ids, s') \<Rightarrow>
          (Inr (acc @ map (\<lambda>(av, i). publishTaskFor aa av i) (zip (map (Pair acct) vs) ids)), s'))"
proof (induction vs arbitrary: s acc)
  case Nil
  show ?case by simp
next
  case (Cons v vs)
  define d where "d = taskDataFor options (acct, v)"
  have step: "publish_videos svc options aa acct (v # vs) s acc =
      (case createTask svc d s of
         (Inl e, s') \<Rightarrow> (Inl e, s')
       | (Inr task, s') \<Rightarrow>
           publish_videos svc options aa acct vs s' (acc @ [publishTaskFor aa (acct, v) task]))"
  proof -
    have dd: "d = \<lparr> platformId = acct, dataLibraryId = libraryId v,
                   resourcePath = fullPath v,
                   dataTitle = (case title options of
                      None \<Rightarrow> parse_name (name v)
                    | Some t \<Rightarrow> if t = [] then parse_name (name v) else t),
                   dataTags = (case tags options of None \<Rightarrow> [] | Some ts \<Rightarrow> joinWith '','' ts),
                   dataScheduledAt = scheduledAt options \<rparr>"
      by (simp add: d_def taskDataFor_def split: option.splits)
    show ?thesis
      unfolding dd by (cases "createTask svc d s") (auto simp: dd publishTaskFor_def Let_def split: sum.splits)
  qed
  have all: "createAll svc (map (\<lambda>v. taskDataFor options (acct, v)) (v # vs)) s =
      (case createTask svc d s of
         (Inl e, s') \<Rightarrow> (Inl e, s')
       | (Inr task, s') \<Rightarrow>
           (case createAll svc (map (\<lambda>v. taskDataFor options (acct, v)) vs) s' of
              (Inl e, s'') \<Rightarrow> (Inl e, s'')
            | (Inr ids, s'') \<Rightarrow> (Inr (task # ids), s'')))"
    by (simp add: d_def)
  show ?case
  proof (cases "createTask svc d s")
    case (Pair r s1)
    show ?thesis
    proof (cases r)
      case (Inl e)
      with Pair show ?thesis unfolding step all by simp
    next
      case (Inr task)
      show ?thesis
      proof (cases "createAll svc (map (\<lambda>v. taskDataFor options (acct, v)) vs) s1")
        case (Pair r2 s2)
        then show ?thesis
          unfolding step all using \<open>createTask svc d s = (r, s1)\<close> Inr
          by (cases r2) (simp_all add: Cons.IH)
      qed
    qed
  qed
qed

lemma publish_accounts_run:
  "publish_accounts svc options aa accts vs s acc =
     (case createAll svc (map (taskDataFor options) (List.product accts vs)) s of
        (Inl e, s') \<Rightarrow> (Inl e, s')
      | (Inr ids, s') \<Rightarrow>
          (Inr (acc @ map (\<lambda>(av, i). publishTaskFor aa av i) (zip (List.product accts vs) ids)), s'))"
proof (induction accts arbitrary: s acc)
  case Nil
  show ?case by simp
next
  case (Cons a accts)
  let ?first = "map (\<lambda>v. taskDataFor options (a, v)) vs"
  let ?rest = "map (taskDataFor options) (List.product accts vs)"
  have m: "map (taskDataFor options) (List.product (a # accts) vs) = ?first @ ?rest"
    by simp
  show ?case
  proof (cases "createAll svc ?first s")
    case (Pair r s1)
    show ?thesis
    proof (cases r)
      case (Inl e)
      with Pair show ?thesis
        unfolding m createAll_append by (simp add: publish_videos_run)
    next
      case (Inr ids)
      with Pair have len: "length ids = length vs"
        using createAll_length [of svc ?first s ids s1] by simp
      show ?thesis
      proof (cases "createAll svc ?rest s1")
        case (Pair r2 s2)
        then show ?thesis
          unfolding m createAll_append using \<open>createAll svc ?first s = (r, s1)\<close> Inr len
          by (cases r2) (simp_all add: publish_videos_run Cons.IH)
      qed
    qed
  qed
qed

lemma basename_no_slash:
  "CHR ''/'' \<notin> set nm \<Longrightarrow> basename nm = nm"
proof -
  assume a: "CHR ''/'' \<notin> set nm"
  then have 1: "dropWhile (\<lambda>c. c = CHR ''/'') (rev nm) = rev nm"
  proof (cases "nm = []")
    case True
    then show ?thesis by simp
  next
    case False
    then have "last nm \<in> set nm" by simp
    with a have "last nm \<noteq> CHR ''/''" by auto
    with False show ?thesis by (simp add: dropWhile_eq_self_iff hd_rev)
  qed
  from a have 2: "takeWhile (\<lambda>c. c \<noteq> CHR ''/'') (rev nm) = rev nm"
    by (intro takeWhile_eq_all_conv [THEN iffD2]) auto
  show ?thesis by (simp add: basename_def 1 2)
qed

lemma parse_name_strip:
  assumes "stem \<noteq> []" and "ext \<noteq> []" and "CHR ''/'' \<notin> set (stem @ ext)"
    and "CHR ''.'' \<notin> set ext"
  shows "parse_name (stem @ ''.'' @ ext) = stem"
proof -
  let ?nm = "stem @ ''.'' @ ext"
  have ns: "CHR ''/'' \<notin> set ?nm" using assms(3) by auto
  have b: "basename ?nm = ?nm" using ns by (rule basename_no_slash)
  have h: "hd ?nm \<noteq> CHR ''/''" using assms(1,3) by (cases stem) auto
  have e: "takeWhile (\<lambda>c. c \<noteq> CHR ''.'') (rev ?nm) = rev ext"
    using assms(4) by (simp add: takeWhile_append)
  have nd: "?nm \<noteq> ''..''"
  proof
    assume "?nm = ''..''"
    then have "length ?nm = 2" by simp
    with assms(1,2) show False by (cases stem; cases ext) auto
  qed
  have "splitExt False ?nm = (stem, ''.'' @ ext)"
    unfolding splitExt_def e using assms(1) nd by (simp add: Let_def)
  then show ?thesis
    unfolding parse_name_def b using h by (simp add: Let_def)
qed

lemma publishTasks_fields:
  "length ps = length ids \<Longrightarrow>
   map (\<lambda>t. (accountId t, videoPath t, videoName t, taskLibraryId t))
     (map (\<lambda>(av, i). publishTaskFor flag av i) (zip ps ids)) =
   map (\<lambda>(a, v). (a, fullPath v, name v, libraryId v)) ps"
proof (induction ps ids rule: list_induct2)
  case Nil
  show ?case by simp
next
  case (Cons x xs y ys)
  then show ?case by (cases x) (simp add: publishTaskFor_def)
qed

text \<open>
  C7 (as amended). Given a theme that exists, non-empty \<open>accountIds\<close> and \<open>videoPaths\<close>,
  and at least one inventory video whose \<open>fullPath\<close> is requested,
  \<open>batchPublishThemeVideos\<close> calls
  \<open>createTask\<close> once for every pair of the product of the accounts and the matched videos
  (the inventory entries at a requested path, published or not), in that order, each with
  the supplied title or else \<open>path.parse(name).name\<close> (the file name without its
  extension) and with the tags joined by commas. When no call throws it returns one task
  record per pair, with the effective \<open>autoArchive\<close> flag (true unless the option is
  \<open>false\<close>), and \<open>totalTasks = |accountIds| * |matched|\<close>, \<open>accountCount = |accountIds|\<close>,
  \<open>videoCount = |matched|\<close>; when a call throws, the error leaves the method.
\<close>

theorem batch_publish_fans_out:
  fixes env :: "('c, 'w) Env" and svc :: "'s UploadService" and themeId :: nat
    and options :: BatchPublishOptions and w :: 'w and s :: 's
  assumes "themes env themeId = Some theme"
    and "accountIds options = Some accts" and "accts \<noteq> []"
    and "videoPaths options = Some paths" and "paths \<noteq> []"
  defines "matched \<equiv> filter (\<lambda>v. fullPath v \<in> set paths) (projr (getThemeVideos env themeId w))"
  assumes "matched \<noteq> []"
  defines "pairs \<equiv> List.product accts matched"
  defines "flag \<equiv> (autoArchive options \<noteq> Some False)"
  shows "batchPublishThemeVideos env svc themeId options w s =
           (case createAll svc (map (taskDataFor options) pairs) s of
              (Inl e, s') \<Rightarrow> (Inl e, s')
            | (Inr ids, s') \<Rightarrow>
                (Inr \<lparr> tasks = map (\<lambda>(av, i). publishTaskFor flag av i) (zip pairs ids),
                        totalTasks = length accts * length matched,
                        accountCount = length accts,
                        videoCount = length matched \<rparr>, s'))
         \<and> (\<forall>report s'. batchPublishThemeVideos env svc themeId options w s = (Inr report, s') \<longrightarrow>
                length (tasks report) = length accts * length matched
                \<and> map (\<lambda>t. (accountId t, videoPath t, videoName t, taskLibraryId t)) (tasks report) =
                    map (\<lambda>(a, v). (a, fullPath v, name v, libraryId v)) pairs
                \<and> (\<forall>t \<in> set (tasks report). taskAutoArchive t = flag)
                \<and> totalTasks report = length accts * length matched
                \<and> accountCount report = length accts
                \<and> videoCount report = length matched)
         \<and> (\<forall>a v. platformId (taskDataFor options (a, v)) = a
                \<and> resourcePath (taskDataFor options (a, v)) = fullPath v
                \<and> dataLibraryId (taskDataFor options (a, v)) = libraryId v
                \<and> dataTitle (taskDataFor options (a, v)) =
                    (case title options of
                       None \<Rightarrow> parse_name (name v)
                     | Some t \<Rightarrow> if t = [] then parse_name (name v) else t)
                \<and> dataTags (taskDataFor options (a, v)) =
                    (case tags options of None \<Rightarrow> [] | Some ts \<Rightarrow> joinWith '','' ts))
         \<and> (\<forall>stem ext. stem \<noteq> [] \<and> ext \<noteq> [] \<and> CHR ''/'' \<notin> set (stem @ ext) \<and> CHR ''.'' \<notin> set ext \<longrightarrow>
                parse_name (stem @ ''.'' @ ext) = stem)"
proof -
  have G: "getThemeVideos env themeId w = Inr (projr (getThemeVideos env themeId w))"
    using assms(1) by (simp add: getThemeVideos_def)
  have E: "batchPublishThemeVideos env svc themeId options w s =
           (case createAll svc (map (taskDataFor options) pairs) s of
              (Inl e, s') \<Rightarrow> (Inl e, s')
            | (Inr ids, s') \<Rightarrow>
                (Inr \<lparr> tasks = map (\<lambda>(av, i). publishTaskFor flag av i) (zip pairs ids),
                        totalTasks = length accts * length matched,
                        accountCount = length accts,
                        videoCount = length matched \<rparr>, s'))"
  proof (cases "createAll svc (map (taskDataFor options) pairs) s")
    case (Pair r s1)
    show ?thesis
    proof (cases r)
      case (Inl e)
      with Pair show ?thesis
        unfolding batchPublishThemeVideos_def
        using assms(1-5) \<open>matched \<noteq> []\<close>
        by (subst G) (simp add: Let_def publish_accounts_run matched_def [symmetric]
              pairs_def [symmetric] flag_def [symmetric])
    next
      case (Inr ids)
      with Pair have "length ids = length pairs"
        using createAll_length [of svc "map (taskDataFor options) pairs" s ids s1] by simp
      then have "length ids = length accts * length matched"
        by (simp add: pairs_def)
      with Pair Inr show ?thesis
        unfolding batchPublishThemeVideos_def
        using assms(1-5) \<open>matched \<noteq> []\<close> \<open>length ids = length pairs\<close>
        by (subst G) (simp add: Let_def publish_accounts_run matched_def [symmetric]
              pairs_def [symmetric] flag_def [symmetric])
    qed
  qed
  have R: "length (tasks report) = length accts * length matched
                \<and> map (\<lambda>t. (accountId t, videoPath t, videoName t, taskLibraryId t)) (tasks report) =
                    map (\<lambda>(a, v). (a, fullPath v, name v, libraryId v)) pairs
                \<and> (\<forall>t \<in> set (tasks report). taskAutoArchive t = flag)
                \<and> totalTasks report = length accts * length matched
                \<and> accountCount report = length accts
                \<and> videoCount report = length matched"
    if h: "batchPublishThemeVideos env svc themeId options w s = (Inr report, s')" for report s'
  proof (cases "createAll svc (map (taskDataFor options) pairs) s")
    case (Pair r s1)
    show ?thesis
    proof (cases r)
      case (Inl e)
      with Pair h show ?thesis unfolding E by simp
    next
      case (Inr ids)
      with Pair have len: "length ids = length pairs"
        using createAll_length [of svc "map (taskDataFor options) pairs" s ids s1] by simp
      from Pair Inr h have rep: "report =
          \<lparr> tasks = map (\<lambda>(av, i). publishTaskFor flag av i) (zip pairs ids),
            totalTasks = length accts * length matched,
            accountCount = length accts, videoCount = length matched \<rparr>"
        unfolding E by simp
      have m: "map (\<lambda>t. (accountId t, videoPath t, videoName t, taskLibraryId t))
                 (map (\<lambda>(av, i). publishTaskFor flag av i) (zip pairs ids)) =
               map (\<lambda>(a, v). (a, fullPath v, name v, libraryId v)) pairs"
        using len [symmetric] by (rule publishTasks_fields)
      have l: "length (map (\<lambda>(av, i). publishTaskFor flag av i) (zip pairs ids)) =
                 length accts * length matched"
        using len by (simp add: pairs_def)
      have f: "\<forall>t \<in> set (map (\<lambda>(av, i). publishTaskFor flag av i) (zip pairs ids)).
                 taskAutoArchive t = flag"
        by (auto simp: publishTaskFor_def)
      show ?thesis
        unfolding rep using l m f by simp
    qed
  qed
  have D: "platformId (taskDataFor options (a, v)) = a
                \<and> resourcePath (taskDataFor options (a, v)) = fullPath v
                \<and> dataLibraryId (taskDataFor options (a, v)) = libraryId v
                \<and> dataTitle (taskDataFor options (a, v)) =
                    (case title options of
                       None \<Rightarrow> parse_name (name v)
                     | Some t \<Rightarrow> if t = [] then parse_name (name v) else t)
                \<and> dataTags (taskDataFor options (a, v)) =
                    (case tags options of None \<Rightarrow> [] | Some ts \<Rightarrow> joinWith '','' ts)"
    for a and v :: VideoEntry
    by (simp add: taskDataFor_def split: option.splits)
  have P: "parse_name (stem @ ''.'' @ ext) = stem"
    if "stem \<noteq> [] \<and> ext \<noteq> [] \<and> CHR ''/'' \<notin> set (stem @ ext) \<and> CHR ''.'' \<notin> set ext"
    for stem ext
    using that by (intro parse_name_strip) auto
  show ?thesis
    using E R D P by blast
qed

theorem batch_publish_fans_out_witness:
  "themes foodEnv 1 = Some foodTheme
   \<and> accountIds foodOptions = Some [1, 2]
   \<and> videoPaths foodOptions = Some [''/videos/food/a.mp4'', ''/videos/food/published/c.mp4'']
   \<and> map (\<lambda>v. (fullPath v, isPublished v))
        (filter (\<lambda>v. fullPath v \<in> set [''/videos/food/a.mp4'', ''/videos/food/published/c.mp4''])
           (projr (getThemeVideos foodEnv 1 foodStore))) =
       [(''/videos/food/a.mp4'', False), (''/videos/food/published/c.mp4'', True)]
   \<and> fst (batchPublishThemeVideos foodEnv (taskTable [1, 2]) 1 foodOptions foodStore []) =
       Inr \<lparr> tasks =
                [\<lparr> taskId = 1, accountId = 1, videoName = ''a.mp4'',
                   videoPath = ''/videos/food/a.mp4'', taskLibraryId = 1, taskAutoArchive = True \<rparr>,
                 \<lparr> taskId = 2, accountId = 1, videoName = ''c.mp4'',
                   videoPath = ''/videos/food/published/c.mp4'', taskLibraryId = 1,
                   taskAutoArchive = True \<rparr>,
                 \<lparr> taskId = 3, accountId = 2, videoName = ''a.mp4'',
                   videoPath = ''/videos/food/a.mp4'', taskLibraryId = 1, taskAutoArchive = True \<rparr>,
                 \<lparr> taskId = 4, accountId = 2, videoName = ''c.mp4'',
                   videoPath = ''/videos/food/published/c.mp4'', taskLibraryId = 1,
                   taskAutoArchive = True \<rparr>],
              totalTasks = 4, accountCount = 2, videoCount = 2 \<rparr>
   \<and> map (\<lambda>(i, d). (i, platformId d, resourcePath d, dataTitle d, dataTags d))
        (snd (batchPublishThemeVideos foodEnv (taskTable [1, 2]) 1 foodOptions foodStore [])) =
       [(1, 1, ''/videos/food/a.mp4'', ''a'', ''food,daily''),
        (2, 1, ''/videos/food/published/c.mp4'', ''c'', ''food,daily''),
        (3, 2, ''/videos/food/a.mp4'', ''a'', ''food,daily''),
        (4, 2, ''/videos/food/published/c.mp4'', ''c'', ''food,daily'')]"
proof -
  let ?paths = "[''/videos/food/a.mp4'', ''/videos/food/published/c.mp4'']"
  let ?matched = "filter (\<lambda>v. fullPath v \<in> set ?paths) (projr (getThemeVideos foodEnv 1 foodStore))"
  have a: "accountIds foodOptions = Some [1, 2]" by (simp add: foodOptions_def)
  have p: "videoPaths foodOptions = Some ?paths" by (simp add: foodOptions_def)
  have m: "map (\<lambda>v. (fullPath v, isPublished v)) ?matched =
             [(''/videos/food/a.mp4'', False), (''/videos/food/published/c.mp4'', True)]"
    by code_simp
  have ne: "?matched \<noteq> []" using m by auto
  have n1: "[1, 2 :: nat] \<noteq> []" and n2: "?paths \<noteq> []" by simp_all
  note t = batch_publish_fans_out [OF food_theme a n1 p n2 ne, of "taskTable [1, 2]" "[]",
      THEN conjunct1]
  have c: "createAll (taskTable [1, 2]) (map (taskDataFor foodOptions) (List.product [1, 2] ?matched)) [] =
             (Inr [1, 2, 3, 4 :: nat],
              map (\<lambda>(i, av). (i, taskDataFor foodOptions av))
                (zip [1, 2, 3, 4 :: nat] (List.product [1, 2] ?matched)))"
    by code_simp
  have l: "length ?matched = 2" using arg_cong [OF m, of length] by simp
  have r: "map (\<lambda>(av, i). publishTaskFor (autoArchive foodOptions \<noteq> Some False) av i)
             (zip (List.product [1, 2] ?matched) [1, 2, 3, 4 :: nat]) =
                [\<lparr> taskId = 1, accountId = 1, videoName = ''a.mp4'',
                   videoPath = ''/videos/food/a.mp4'', taskLibraryId = 1, taskAutoArchive = True \<rparr>,
                 \<lparr> taskId = 2, accountId = 1, videoName = ''c.mp4'',
                   videoPath = ''/videos/food/published/c.mp4'', taskLibraryId = 1,
                   taskAutoArchive = True \<rparr>,
                 \<lparr> taskId = 3, accountId = 2, videoName = ''a.mp4'',
                   videoPath = ''/videos/food/a.mp4'', taskLibraryId = 1, taskAutoArchive = True \<rparr>,
                 \<lparr> taskId = 4, accountId = 2, videoName = ''c.mp4'',
                   videoPath = ''/videos/food/published/c.mp4'', taskLibraryId = 1,
                   taskAutoArchive = True \<rparr>]"
    by code_simp
  have d: "map (\<lambda>(i, d). (i, platformId d, resourcePath d, dataTitle d, dataTags d))
             (map (\<lambda>(i, av). (i, taskDataFor foodOptions av))
                (zip [1, 2, 3, 4 :: nat] (List.product [1, 2] ?matched))) =
       [(1, 1, ''/videos/food/a.mp4'', ''a'', ''food,daily''),
        (2, 1, ''/videos/food/published/c.mp4'', ''c'', ''food,daily''),
        (3, 2, ''/videos/food/a.mp4'', ''a'', ''food,daily''),
        (4, 2, ''/videos/food/published/c.mp4'', ''c'', ''food,daily'')]"
    by code_simp
  have la: "length [1, 2 :: nat] = 2" and ar: "(2::nat) * 2 = 4" by simp_all
  note e0 = t [unfolded c prod.case sum.case]
  have e: "batchPublishThemeVideos foodEnv (taskTable [1, 2]) 1 foodOptions foodStore [] =
      (Inr \<lparr> tasks = map (\<lambda>(av, i). publishTaskFor (autoArchive foodOptions \<noteq> Some False) av i)
                        (zip (List.product [1, 2] ?matched) [1, 2, 3, 4 :: nat]),
              totalTasks = 4, accountCount = 2, videoCount = 2 \<rparr>,
       map (\<lambda>(i, av). (i, taskDataFor foodOptions av))
                (zip [1, 2, 3, 4 :: nat] (List.product [1, 2] ?matched)))"
    by (simp only: e0 l la ar)
  show ?thesis
    by (simp only: e fst_conv snd_conv r d food_theme a p m simp_thms)
qed

text \<open>
  C7 as stated fails when a call of \<open>createTask\<close> throws. With the accounts 1 and 2
  requested and no account 2 for the row to refer to, the two tasks of account 1 are
  created, the third call throws, and the error leaves the method: no report is returned,
  and the table keeps the two tasks.
\<close>

theorem batch_publish_counterexample:
  "themes foodEnv 1 = Some foodTheme
   \<and> accountIds foodOptions = Some [1, 2]
   \<and> videoPaths foodOptions = Some [''/videos/food/a.mp4'', ''/videos/food/published/c.mp4'']
   \<and> map fullPath
        (filter (\<lambda>v. fullPath v \<in> set [''/videos/food/a.mp4'', ''/videos/food/published/c.mp4''])
           (projr (getThemeVideos foodEnv 1 foodStore))) =
       [''/videos/food/a.mp4'', ''/videos/food/published/c.mp4'']
   \<and> fst (batchPublishThemeVideos foodEnv (taskTable [1]) 1 foodOptions foodStore []) =
       Inl (Error ''foreign key constraint failed'')
   \<and> map (\<lambda>(i, d). (i, platformId d, resourcePath d))
        (snd (batchPublishThemeVideos foodEnv (taskTable [1]) 1 foodOptions foodStore [])) =
       [(1, 1, ''/videos/food/a.mp4''), (2, 1, ''/videos/food/published/c.mp4'')]"
  by code_simp

section \<open>The providers\<close>

lemma sortResources_Nil: "sortResources cmp [] = []"
  by (simp add: sortResources_def sortBy_def)

lemma local_list_total: "\<exists>rs. local_list node cfg dirPath w = Inr rs"
  by (simp add: local_list_def split: sum.splits)

lemma local_list_failed:
  "readdir node (path_join [basePath cfg, dirPath]) w = Inl e \<Longrightarrow>
   local_list node cfg dirPath w = Inr []"
  by (simp add: local_list_def local_list_body_def Let_def)

lemma local_list_empty:
  "readdir node (path_join [basePath cfg, dirPath]) w = Inr [] \<Longrightarrow>
   local_list node cfg dirPath w = Inr []"
  by (simp add: local_list_def local_list_body_def Let_def sortResources_Nil)

lemma webdav_list_total: "\<exists>rs. webdav_list client cfg dirPath w = Inr rs"
  by (simp add: webdav_list_def split: sum.splits)

lemma webdav_list_failed:
  "getDirectoryContents client (normalizePath (path_join [webdav_basePath cfg, dirPath])) w = Inl e \<Longrightarrow>
   webdav_list client cfg dirPath w = Inr []"
  by (simp add: webdav_list_def webdav_list_body_def Let_def)

lemma webdav_list_empty:
  "getDirectoryContents client (normalizePath (path_join [webdav_basePath cfg, dirPath])) w = Inr [] \<Longrightarrow>
   webdav_list client cfg dirPath w = Inr []"
  by (simp add: webdav_list_def webdav_list_body_def Let_def sortResources_Nil)

lemma browseLibrary_total_list:
  assumes "getLibraryInstance env lid = Inr lib" and "\<And>p w. \<not> isl (list lib p w)"
  shows "\<not> isl (browseLibrary env lid p t w)"
proof -
  obtain rs where "list lib p w = Inr rs"
    using assms(2) [of p w] by (cases "list lib p w") auto
  then show ?thesis
    using assms(1) by (simp add: browseLibrary_def split: option.splits)
qed

lemma local_library_list: "list (LocalResourceLibrary node cfg) = local_list node cfg"
  by (simp add: LocalResourceLibrary_def)

lemma webdav_library_list: "list (WebDAVResourceLibrary client cfg) = webdav_list client cfg"
  by (simp add: WebDAVResourceLibrary_def)

lemma browseLibrary_providers:
  assumes "getLibraryInstance env lid = Inr lib"
    and "lib = LocalResourceLibrary node cfg \<or> lib = WebDAVResourceLibrary client dcfg"
  shows "\<not> isl (browseLibrary env lid p t w)"
proof (rule browseLibrary_total_list [OF assms(1)])
  fix p w
  show "\<not> isl (list lib p w)"
    using assms(2) local_list_total [of node cfg p w] webdav_list_total [of client dcfg p w]
    by (auto simp: local_library_list webdav_library_list)
qed

text \<open>
  C10. Whatever the calls of the runtime do, \<open>list\<close> of the local provider and of the
  WebDAV provider returns an array and never throws; when reading the directory throws,
  the result is the empty array, which is also the result for a directory without
  entries. So \<open>browseLibrary\<close> on a library of one of the two providers throws only when
  the instance cannot be obtained, and in \<open>getThemeVideos\<close> a root on such a library is
  never skipped by the outer \<open>catch\<close>: it contributes its main entries followed by its
  archive entries.
\<close>

theorem list_never_throws:
  fixes node :: "'w Node" and client :: "'w WebDAVClient" and env :: "('c, 'w) Env"
    and cfg :: LocalResourceConfig and dcfg :: WebDAVResourceConfig
  shows "(\<exists>rs. local_list node cfg dirPath w = Inr rs)
    \<and> (\<forall>e. readdir node (path_join [basePath cfg, dirPath]) w = Inl e \<longrightarrow>
           local_list node cfg dirPath w = Inr [])
    \<and> (readdir node (path_join [basePath cfg, dirPath]) w = Inr [] \<longrightarrow>
           local_list node cfg dirPath w = Inr [])
    \<and> (\<exists>rs. webdav_list client dcfg dirPath w = Inr rs)
    \<and> (\<forall>e. getDirectoryContents client (normalizePath (path_join [webdav_basePath dcfg, dirPath])) w
             = Inl e \<longrightarrow>
           webdav_list client dcfg dirPath w = Inr [])
    \<and> (getDirectoryContents client (normalizePath (path_join [webdav_basePath dcfg, dirPath])) w
             = Inr [] \<longrightarrow>
           webdav_list client dcfg dirPath w = Inr [])
    \<and> (\<forall>lid lib p t.
           getLibraryInstance env lid = Inr lib
           \<and> (lib = LocalResourceLibrary node cfg \<or> lib = WebDAVResourceLibrary client dcfg) \<longrightarrow>
           \<not> isl (browseLibrary env lid p t w))
    \<and> (\<forall>rp lib a.
           getLibraryInstance env (ThemeResourcePath.libraryId rp) = Inr lib
           \<and> (lib = LocalResourceLibrary node cfg \<or> lib = WebDAVResourceLibrary client dcfg) \<longrightarrow>
           rootEntries env a w rp = mainEntries env w rp @ archiveEntries env a w rp)"
proof (intro conjI allI impI)
  show "\<exists>rs. local_list node cfg dirPath w = Inr rs" by (rule local_list_total)
  show "\<exists>rs. webdav_list client dcfg dirPath w = Inr rs" by (rule webdav_list_total)
  show "local_list node cfg dirPath w = Inr []"
    if "readdir node (path_join [basePath cfg, dirPath]) w = Inl e" for e
    using that by (rule local_list_failed)
  show "local_list node cfg dirPath w = Inr []"
    if "readdir node (path_join [basePath cfg, dirPath]) w = Inr []"
    using that by (rule local_list_empty)
  show "webdav_list client dcfg dirPath w = Inr []"
    if "getDirectoryContents client (normalizePath (path_join [webdav_basePath dcfg, dirPath])) w = Inl e"
    for e
    using that by (rule webdav_list_failed)
  show "webdav_list client dcfg dirPath w = Inr []"
    if "getDirectoryContents client (normalizePath (path_join [webdav_basePath dcfg, dirPath])) w = Inr []"
    using that by (rule webdav_list_empty)
  show "\<not> isl (browseLibrary env lid p t w)"
    if "getLibraryInstance env lid = Inr lib
          \<and> (lib = LocalResourceLibrary node cfg \<or> lib = WebDAVResourceLibrary client dcfg)"
    for lid lib p t
    using that browseLibrary_providers [of env lid lib node cfg client dcfg p t w] by blast
  show "rootEntries env a w rp = mainEntries env w rp @ archiveEntries env a w rp"
    if "getLibraryInstance env (ThemeResourcePath.libraryId rp) = Inr lib
          \<and> (lib = LocalResourceLibrary node cfg \<or> lib = WebDAVResourceLibrary client dcfg)"
    for rp :: ThemeResourcePath and lib a
    using that
      browseLibrary_providers [of env "ThemeResourcePath.libraryId rp" lib node cfg client dcfg
        "folderPath rp" "Some Video" w]
    by (simp add: rootEntries_def)
qed

lemma getLibraryInstance_stored:
  "getLibraryInstance (env\<lparr> libraryInstances := libraryInstancesAfter env lid' \<rparr>) lid
     = getLibraryInstance env lid"
  by (auto simp: getLibraryInstance_def libraryInstancesAfter_def
        split: option.splits sum.splits if_splits)

lemma food_instance: "getLibraryInstance foodEnv 1 = Inr (LocalResourceLibrary posix diskConfig)"
  by (simp add: getLibraryInstance_def foodEnv_def localEnv_def)

theorem list_never_throws_witness:
  "readdir posix (path_join [basePath diskConfig, ''/videos/none'']) plainStore = Inl ENOENT
   \<and> local_list posix diskConfig ''/videos/none'' plainStore = Inr []
   \<and> getDirectoryContents davServer
        (normalizePath (path_join [webdav_basePath davConfig, ''/videos/none''])) plainStore
       = Inl NotFound
   \<and> webdav_list davServer davConfig ''/videos/none'' plainStore = Inr []
   \<and> getLibraryInstance foodEnv 1 = Inr (LocalResourceLibrary posix diskConfig)
   \<and> isl (browseLibrary foodEnv 1 ''/videos/none'' (Some Video) plainStore) = False"
proof -
  note t = list_never_throws [of posix diskConfig "''/videos/none''" plainStore davServer davConfig
      foodEnv]
  have r: "readdir posix (path_join [basePath diskConfig, ''/videos/none'']) plainStore = Inl ENOENT"
    by code_simp
  have g: "getDirectoryContents davServer
        (normalizePath (path_join [webdav_basePath davConfig, ''/videos/none''])) plainStore
       = Inl NotFound"
    by code_simp
  from t r have 1: "local_list posix diskConfig ''/videos/none'' plainStore = Inr []" by blast
  from t g have 2: "webdav_list davServer davConfig ''/videos/none'' plainStore = Inr []" by blast
  from t food_instance
  have 3: "\<not> isl (browseLibrary foodEnv 1 ''/videos/none'' (Some Video) plainStore)" by blast
  show ?thesis using r 1 g 2 food_instance 3 by simp
qed

lemma local_move_source_missing:
  "access node (path_join [basePath cfg, sourcePath]) w = Inl e \<Longrightarrow>
   local_move node cfg sourcePath targetPath w = (Inl e, w)"
  by (simp add: local_move_def Let_def)

lemma local_move_target_exists:
  "access node (path_join [basePath cfg, sourcePath]) w = Inr u \<Longrightarrow>
   access node (path_join [basePath cfg, targetPath]) w = Inr u' \<Longrightarrow>
   local_move node cfg sourcePath targetPath w =
     (Inl (Error (''the target path already exists: '' @ targetPath)), w)"
  by (simp add: local_move_def Let_def)

lemma local_move_proceeds:
  "access node (path_join [basePath cfg, sourcePath]) w = Inr u \<Longrightarrow>
   access node (path_join [basePath cfg, targetPath]) w = Inl (SystemError ''ENOENT'' m) \<Longrightarrow>
   local_move node cfg sourcePath targetPath w =
     (case mkdir node (dirname (path_join [basePath cfg, targetPath])) w of
        (Inl e, w') \<Rightarrow> (Inl e, w')
      | (Inr u', w') \<Rightarrow>
          rename node (path_join [basePath cfg, sourcePath]) (path_join [basePath cfg, targetPath]) w')"
  by (simp add: local_move_def Let_def)

lemma webdav_move_source_missing:
  "client_stat client (normalizePath (path_join [webdav_basePath cfg, sourcePath])) w = Inl e \<Longrightarrow>
   webdav_move client cfg sourcePath targetPath w = (Inl e, w)"
  by (simp add: webdav_move_def Let_def)

lemma webdav_move_target_exists:
  "client_stat client (normalizePath (path_join [webdav_basePath cfg, sourcePath])) w = Inr st \<Longrightarrow>
   client_stat client (normalizePath (path_join [webdav_basePath cfg, targetPath])) w = Inr st' \<Longrightarrow>
   client_stat client
     (normalizePath (dirname (normalizePath (path_join [webdav_basePath cfg, targetPath])))) w = Inr st'' \<Longrightarrow>
   webdav_move client cfg sourcePath targetPath w =
     moveFile client (normalizePath (path_join [webdav_basePath cfg, sourcePath]))
       (normalizePath (path_join [webdav_basePath cfg, targetPath])) w"
  by (simp add: webdav_move_def Let_def)

text \<open>
  C9. The local provider does what the claim says (\<open>local_move_source_missing\<close>,
  \<open>local_move_target_exists\<close>, \<open>local_move_proceeds\<close>). The WebDAV provider does not: its
  inner \<open>catch\<close> lets the error "the target path already exists" pass, since that error
  has no \<open>response\<close> (\<open>webdav_move_target_exists\<close>). On a server where both
  \<open>/videos/food/a.mp4\<close> and \<open>/videos/food/published/a.mp4\<close> exist, the move returns and the
  file in the archive folder is replaced, where the local provider throws and moves nothing.
\<close>

theorem webdav_move_overwrites_existing_target:
  "client_stat davServer
     (normalizePath (path_join [webdav_basePath davConfig, ''/videos/food/published/a.mp4'']))
     collisionStore =
     Inr \<lparr> stat_basename = ''a.mp4'', stat_isDirectory = False, stat_size = 11,
           stat_lastmod = Some 3 \<rparr>
   \<and> webdav_move davServer davConfig ''/videos/food/a.mp4'' ''/videos/food/published/a.mp4''
       collisionStore =
     (Inr (),
      [([''data''], Directory), ([''data'', ''videos''], Directory),
       ([''data'', ''videos'', ''food''], Directory),
       ([''data'', ''videos'', ''food'', ''published'', ''a.mp4''], RegularFile 10 1),
       ([''data'', ''videos'', ''food'', ''b.mp4''], RegularFile 20 2),
       ([''data'', ''videos'', ''food'', ''published''], Directory)])
   \<and> local_move posix diskConfig ''/videos/food/a.mp4'' ''/videos/food/published/a.mp4''
       collisionStore =
     (Inl (Error ''the target path already exists: /videos/food/published/a.mp4''), collisionStore)"
  by code_simp

section \<open>Facts about paths\<close>

lemma dropWhile_rev_name:
  "n \<noteq> [] \<Longrightarrow> CHR ''/'' \<notin> set n \<Longrightarrow>
   dropWhile (\<lambda>c. c = CHR ''/'') (rev n @ xs) = rev n @ xs"
proof -
  assume a: "n \<noteq> []" "CHR ''/'' \<notin> set n"
  then have "hd (rev n @ xs) = last n" by (simp add: hd_append hd_rev)
  moreover have "last n \<noteq> CHR ''/''" using a by (metis last_in_set)
  ultimately show ?thesis using a by (simp add: dropWhile_eq_self_iff)
qed

lemma dropWhile_not_slash_name:
  "CHR ''/'' \<notin> set n \<Longrightarrow>
   dropWhile (\<lambda>c. c \<noteq> CHR ''/'') (rev n @ CHR ''/'' # xs) = CHR ''/'' # xs"
  by (simp add: dropWhile_append)

lemma takeWhile_not_slash_name:
  "CHR ''/'' \<notin> set n \<Longrightarrow>
   takeWhile (\<lambda>c. c \<noteq> CHR ''/'') (rev n @ CHR ''/'' # xs) = rev n"
  by (simp add: takeWhile_append)

lemma dirname_join_name:
  assumes "n \<noteq> []" and "CHR ''/'' \<notin> set n"
  shows "dirname (d @ CHR ''/'' # n) = (if d = [] then ''/'' else if d = ''/'' then ''//'' else d)"
proof -
  have r: "dropWhile (\<lambda>c. c \<noteq> CHR ''/'') (dropWhile (\<lambda>c. c = CHR ''/'') (rev (d @ CHR ''/'' # n))) =
           CHR ''/'' # rev d"
    using assms by (simp add: dropWhile_rev_name dropWhile_not_slash_name)
  show ?thesis
  proof (cases d)
    case Nil
    then show ?thesis unfolding dirname_def r by simp
  next
    case (Cons c cs)
    then show ?thesis unfolding dirname_def r by (cases cs) (auto simp: Let_def)
  qed
qed

lemma basename_join_name:
  assumes "n \<noteq> []" and "CHR ''/'' \<notin> set n"
  shows "basename (d @ CHR ''/'' # n) = n"
  using assms by (simp add: basename_def dropWhile_rev_name takeWhile_not_slash_name)

lemma basename_slashes: "basename ''/'' = []" "basename ''//'' = []" "basename [] = []"
  by (simp_all add: basename_def)

lemma basename_dirname_join_name:
  assumes "n \<noteq> []" and "CHR ''/'' \<notin> set n"
  shows "basename (dirname (d @ CHR ''/'' # n)) = basename d"
  by (simp add: dirname_join_name [OF assms] basename_slashes)

lemma pieces_not_Nil: "pieces x \<noteq> []"
  by (induction x) (auto split: list.splits)

lemma pieces_no_slash: "CHR ''/'' \<notin> set a \<Longrightarrow> pieces a = [a]"
  by (induction a) auto

lemma pieces_append_slash: "pieces (x @ CHR ''/'' # y) = pieces x @ pieces y"
proof (induction x)
  case Nil
  show ?case by simp
next
  case (Cons c x)
  obtain p ps where p: "pieces x = p # ps" using pieces_not_Nil [of x] by (cases "pieces x") auto
  show ?case using Cons p by simp
qed

lemma join_slash_snoc:
  "join_slash (xs @ [a]) = (if xs = [] then a else join_slash xs @ CHR ''/'' # a)"
  by (induction xs rule: join_slash.induct) auto

lemma norm_step_simple: "simpleSegment a \<Longrightarrow> norm_step allow res a = res @ [a]"
  by (simp add: norm_step_def simpleSegment_def entryName_def)

lemma normalizeString_snoc_simple:
  assumes "simpleSegment a"
  shows "normalizeString (f @ CHR ''/'' # a) allow =
           join_slash (foldl (norm_step allow) [] (pieces f) @ [a])"
  using assms
  by (simp add: normalizeString_def pieces_append_slash pieces_no_slash norm_step_simple
        simpleSegment_def entryName_def)

lemma join_slash_snoc_not_Nil: "a \<noteq> [] \<Longrightarrow> join_slash (xs @ [a]) \<noteq> []"
  by (simp add: join_slash_snoc)

lemma path_join_simple:
  assumes "simpleSegment a"
  shows "path_join [f, a] =
           (if f = [] then a
            else (if hd f = CHR ''/'' then ''/'' else []) @
                 join_slash (foldl (norm_step (hd f \<noteq> CHR ''/'')) [] (pieces f) @ [a]))"
proof (cases "f = []")
  case True
  have a: "a \<noteq> []" "CHR ''/'' \<notin> set a" "last a \<noteq> CHR ''/''" "hd a \<noteq> CHR ''/''"
    using assms by (auto simp: simpleSegment_def entryName_def intro: last_in_set hd_in_set
        dest: last_in_set [of a] hd_in_set [of a])
  have "normalizeString a True = a"
    using assms a by (simp add: normalizeString_def pieces_no_slash norm_step_simple)
  then show ?thesis
    using True a by (simp add: path_join_def normalize_def Let_def)
next
  case False
  have a: "a \<noteq> []" "last a \<noteq> CHR ''/''"
    using assms by (auto simp: simpleSegment_def entryName_def dest: last_in_set [of a])
  have j: "join_slash (filter (\<lambda>a. a \<noteq> []) [f, a]) = f @ CHR ''/'' # a"
    using False a by simp
  have h: "hd (f @ CHR ''/'' # a) = hd f" using False by simp
  have l: "last (f @ CHR ''/'' # a) = last a" using a by simp
  show ?thesis
    unfolding path_join_def j
    using False a assms
    by (simp add: normalize_def Let_def h l normalizeString_snoc_simple join_slash_snoc_not_Nil
          del: join_slash.simps)
qed

lemma basename_after_slash:
  assumes "entryName a" and "x = [] \<or> last x = CHR ''/''"
  shows "basename (x @ a) = a"
proof (cases "x = []")
  case True
  then show ?thesis using assms(1) by (simp add: basename_no_slash entryName_def)
next
  case False
  with assms(2) obtain y where "x = y @ ''/''"
    by (metis append_butlast_last_id)
  then show ?thesis
    using assms(1) basename_join_name [of a y] by (simp add: entryName_def)
qed

lemma path_join_simple_shape:
  assumes "simpleSegment a"
  shows "\<exists>x. path_join [f, a] = x @ a \<and> (x = [] \<or> last x = CHR ''/'')"
proof (cases "f = []")
  case True
  then show ?thesis using path_join_simple [OF assms, of f] by simp
next
  case False
  let ?st = "foldl (norm_step (hd f \<noteq> CHR ''/'')) [] (pieces f)"
  let ?r = "if hd f = CHR ''/'' then ''/'' else []"
  have e: "path_join [f, a] = ?r @ join_slash (?st @ [a])"
    using path_join_simple [OF assms, of f] False by simp
  show ?thesis
  proof (cases "?st = []")
    case True
    then have "path_join [f, a] = ?r @ a" using e by simp
    then show ?thesis by (intro exI [of _ ?r]) auto
  next
    case False
    then have "path_join [f, a] = (?r @ join_slash ?st @ ''/'') @ a"
      using e by (simp add: join_slash_snoc)
    then show ?thesis by (intro exI [of _ "?r @ join_slash ?st @ ''/''"]) auto
  qed
qed

lemma basename_path_join_simple:
  assumes "simpleSegment a"
  shows "basename (path_join [f, a]) = a"
proof -
  obtain x where "path_join [f, a] = x @ a" and "x = [] \<or> last x = CHR ''/''"
    using path_join_simple_shape [OF assms] by blast
  then show ?thesis
    using basename_after_slash [of a x] assms by (simp add: simpleSegment_def)
qed

lemma path_join_simple_proper:
  assumes "simpleSegment a"
  shows "path_join [f, a] \<noteq> [] \<and> path_join [f, a] \<noteq> ''/''"
proof -
  obtain x where e: "path_join [f, a] = x @ a"
    using path_join_simple_shape [OF assms] by blast
  have a: "a \<noteq> []" "last a \<noteq> CHR ''/''"
    using assms by (auto simp: simpleSegment_def entryName_def dest: last_in_set [of a])
  have l: "last (path_join [f, a]) = last a" unfolding e using a by simp
  have "path_join [f, a] \<noteq> []" unfolding e using a by simp
  moreover have "path_join [f, a] \<noteq> ''/''"
  proof
    assume "path_join [f, a] = ''/''"
    then have "last (path_join [f, a]) = CHR ''/''" by simp
    with l a show False by simp
  qed
  ultimately show ?thesis by simp
qed

lemma dirname_archive_entry:
  assumes "simpleSegment a" and "entryName n"
  shows "dirname (path_join [f, a] @ ''/'' @ n) = path_join [f, a]"
    and "basename (dirname (path_join [f, a] @ ''/'' @ n)) = a"
proof -
  have n: "n \<noteq> []" "CHR ''/'' \<notin> set n" using assms(2) by (auto simp: entryName_def)
  show 1: "dirname (path_join [f, a] @ ''/'' @ n) = path_join [f, a]"
    using dirname_join_name [OF n, of "path_join [f, a]"] path_join_simple_proper [OF assms(1), of f]
    by simp
  show "basename (dirname (path_join [f, a] @ ''/'' @ n)) = a"
    unfolding 1 using assms(1) by (rule basename_path_join_simple)
qed

section \<open>The status of an entry and its place\<close>

lemma mainEntries_shape:
  assumes "v \<in> set (mainEntries env w rp)"
  shows "fullPath v = folderPath rp @ ''/'' @ name v \<and> \<not> isPublished v
         \<and> libraryPath v = folderPath rp"
  using assms by (auto simp: mainEntries_def withInfo_def split: sum.splits)

lemma archiveEntries_shape:
  assumes "v \<in> set (archiveEntries env a w rp)"
  shows "fullPath v = path_join [folderPath rp, a] @ ''/'' @ name v \<and> isPublished v
         \<and> libraryPath v = path_join [folderPath rp, a]"
  using assms by (auto simp: archiveEntries_def withInfo_def split: sum.splits)

lemma rootEntries_cases:
  assumes "v \<in> set (rootEntries env a w rp)"
  shows "v \<in> set (mainEntries env w rp) \<or> v \<in> set (archiveEntries env a w rp)"
  using assms by (auto simp: rootEntries_def split: if_splits)

lemma inventory_cases:
  assumes "themes env themeId = Some theme"
    and "v \<in> set (projr (getThemeVideos env themeId w))"
  shows "\<exists>rp \<in> set (resourcePaths theme).
           v \<in> set (mainEntries env w rp)
           \<or> v \<in> set (archiveEntries env (effectiveArchiveFolderName theme) w rp)"
  using assms(2) unfolding getThemeVideos_concat [OF assms(1)]
  by (auto dest: rootEntries_cases)

text \<open>
  C1 (as amended). For every theme that exists, with \<open>archiveFolderName\<close> the theme's
  \<open>archiveFolderName\<close>, or \<open>published\<close> when that is unset or empty: an entry of the
  inventory is published exactly when it comes from the listing of the archive folder
  \<open>path.join(folderPath, archiveFolderName)\<close> of a root, and unpublished exactly when it
  comes from the listing of a root's own folder; no stored flag is read. When the archive
  folder name is a single segment, then for an entry whose listed name is the name of a
  directory entry (not empty, without \<open>/\<close>): if it is published, the parent directory
  of its \<open>fullPath\<close> has the archive folder name as its base name; if it is unpublished,
  that parent directory has the base name of the root's folder. So for these entries
  \<open>isPublished\<close> equals \<open>basename(dirname(fullPath)) == archiveFolderName\<close> when no root's
  folder is itself named like the archive folder.
\<close>

theorem status_is_positional:
  fixes env :: "('c, 'w) Env" and themeId :: nat and w :: 'w and theme :: Theme
  assumes "themes env themeId = Some theme"
  defines "a \<equiv> (case archiveFolderName theme of
                   None \<Rightarrow> ''published''
                 | Some n \<Rightarrow> if n = [] then ''published'' else n)"
  defines "inventory \<equiv> projr (getThemeVideos env themeId w)"
  shows "getThemeVideos env themeId w = Inr inventory
    \<and> (\<forall>v \<in> set inventory.
          (isPublished v \<longleftrightarrow> (\<exists>rp \<in> set (resourcePaths theme). v \<in> set (archiveEntries env a w rp)))
          \<and> (\<not> isPublished v \<longleftrightarrow> (\<exists>rp \<in> set (resourcePaths theme). v \<in> set (mainEntries env w rp))))
    \<and> (\<forall>rp \<in> set (resourcePaths theme). \<forall>v \<in> set (archiveEntries env a w rp).
          fullPath v = path_join [folderPath rp, a] @ ''/'' @ name v)
    \<and> (\<forall>rp \<in> set (resourcePaths theme). \<forall>v \<in> set (mainEntries env w rp).
          fullPath v = folderPath rp @ ''/'' @ name v)
    \<and> (simpleSegment a \<longrightarrow>
          (\<forall>v \<in> set inventory. entryName (name v) \<longrightarrow>
             (isPublished v \<longrightarrow> basename (dirname (fullPath v)) = a)
             \<and> (\<not> isPublished v \<longrightarrow>
                   (\<exists>rp \<in> set (resourcePaths theme).
                      fullPath v = folderPath rp @ ''/'' @ name v
                      \<and> basename (dirname (fullPath v)) = basename (folderPath rp)))))
    \<and> (simpleSegment a \<and> (\<forall>rp \<in> set (resourcePaths theme). basename (folderPath rp) \<noteq> a) \<longrightarrow>
          (\<forall>v \<in> set inventory. entryName (name v) \<longrightarrow>
             isPublished v = (basename (dirname (fullPath v)) = a)))"
proof -
  have ea: "effectiveArchiveFolderName theme = a"
    by (simp add: a_def effectiveArchiveFolderName_def)
  have G: "getThemeVideos env themeId w = Inr inventory"
    using assms(1) by (simp add: inventory_def getThemeVideos_def)
  have origin: "\<exists>rp \<in> set (resourcePaths theme).
                  v \<in> set (mainEntries env w rp) \<or> v \<in> set (archiveEntries env a w rp)"
    if "v \<in> set inventory" for v
    using inventory_cases [OF assms(1), of v w] that by (simp add: inventory_def ea)
  have flags: "(isPublished v \<longleftrightarrow> (\<exists>rp \<in> set (resourcePaths theme). v \<in> set (archiveEntries env a w rp)))
          \<and> (\<not> isPublished v \<longleftrightarrow> (\<exists>rp \<in> set (resourcePaths theme). v \<in> set (mainEntries env w rp)))"
    if "v \<in> set inventory" for v
    using origin [OF that] archiveEntries_published [of v env a w] mainEntries_unpublished [of v env w]
    by blast
  have pa: "fullPath v = path_join [folderPath rp, a] @ ''/'' @ name v"
    if "v \<in> set (archiveEntries env a w rp)" for v rp
    using archiveEntries_shape [OF that] by simp
  have pm: "fullPath v = folderPath rp @ ''/'' @ name v"
    if "v \<in> set (mainEntries env w rp)" for v rp
    using mainEntries_shape [OF that] by simp
  have per: "(isPublished v \<longrightarrow> basename (dirname (fullPath v)) = a)
          \<and> (\<not> isPublished v \<longrightarrow>
                (\<exists>rp \<in> set (resourcePaths theme).
                   fullPath v = folderPath rp @ ''/'' @ name v
                   \<and> basename (dirname (fullPath v)) = basename (folderPath rp)))"
    if s: "simpleSegment a" and v: "v \<in> set inventory" and n: "entryName (name v)" for v
  proof -
    have n': "name v \<noteq> []" "CHR ''/'' \<notin> set (name v)" using n by (auto simp: entryName_def)
    obtain rp where rp: "rp \<in> set (resourcePaths theme)"
      and c: "v \<in> set (mainEntries env w rp) \<or> v \<in> set (archiveEntries env a w rp)"
      using origin [OF v] by blast
    have pubA: "isPublished v \<and> basename (dirname (fullPath v)) = a"
      if "v \<in> set (archiveEntries env a w rp')" for rp'
      using archiveEntries_shape [OF that] dirname_archive_entry(2) [OF s n, of "folderPath rp'"]
      by simp
    have unpM: "\<not> isPublished v \<and> fullPath v = folderPath rp' @ ''/'' @ name v
                \<and> basename (dirname (fullPath v)) = basename (folderPath rp')"
      if "v \<in> set (mainEntries env w rp')" for rp'
      using mainEntries_shape [OF that] basename_dirname_join_name [OF n', of "folderPath rp'"]
      by simp
    show ?thesis
      using rp c pubA unpM by blast
  qed
  have all: "isPublished v = (basename (dirname (fullPath v)) = a)"
    if "simpleSegment a \<and> (\<forall>rp \<in> set (resourcePaths theme). basename (folderPath rp) \<noteq> a)"
      and "v \<in> set inventory" and "entryName (name v)" for v
    using per [of v] that by metis
  show ?thesis
    using G flags pa pm per all by blast
qed

theorem status_is_positional_witness:
  "themes foodEnv 1 = Some foodTheme
   \<and> archiveFolderName foodTheme = None
   \<and> simpleSegment ''published''
   \<and> map name (projr (getThemeVideos foodEnv 1 foodStore)) = [''a.mp4'', ''b.mp4'', ''c.mp4'']
   \<and> map (\<lambda>rp. basename (folderPath rp)) (resourcePaths foodTheme) = [''food'']
   \<and> list_all (\<lambda>v. isPublished v = (basename (dirname (fullPath v)) = ''published''))
        (projr (getThemeVideos foodEnv 1 foodStore))
   \<and> map (\<lambda>v. (fullPath v, isPublished v)) (projr (getThemeVideos foodEnv 1 foodStore)) =
       [(''/videos/food/a.mp4'', False), (''/videos/food/b.mp4'', False),
        (''/videos/food/published/c.mp4'', True)]"
proof -
  have u: "archiveFolderName foodTheme = None" by (simp add: foodTheme_def)
  have a: "(case archiveFolderName foodTheme of
              None \<Rightarrow> ''published''
            | Some n \<Rightarrow> if n = [] then ''published'' else n) = ''published''"
    by (simp add: u)
  have s: "simpleSegment ''published''"
    by (simp add: simpleSegment_def entryName_def)
  have n: "map name (projr (getThemeVideos foodEnv 1 foodStore)) = [''a.mp4'', ''b.mp4'', ''c.mp4'']"
    by code_simp
  have en: "entryName (name v)" if "v \<in> set (projr (getThemeVideos foodEnv 1 foodStore))" for v
  proof -
    from that have "name v \<in> set (map name (projr (getThemeVideos foodEnv 1 foodStore)))" by simp
    then show "entryName (name v)" unfolding n by (auto simp: entryName_def)
  qed
  have b: "map (\<lambda>rp. basename (folderPath rp)) (resourcePaths foodTheme) = [''food'']"
    by code_simp
  have r: "\<forall>rp \<in> set (resourcePaths foodTheme). basename (folderPath rp) \<noteq> ''published''"
  proof
    fix rp assume "rp \<in> set (resourcePaths foodTheme)"
    then have "basename (folderPath rp) \<in> set (map (\<lambda>rp. basename (folderPath rp)) (resourcePaths foodTheme))"
      by simp
    then show "basename (folderPath rp) \<noteq> ''published''" unfolding b by auto
  qed
  note t = status_is_positional [OF food_theme, of foodStore, unfolded a]
  from t s r have "\<forall>v \<in> set (projr (getThemeVideos foodEnv 1 foodStore)). entryName (name v) \<longrightarrow>
                     isPublished v = (basename (dirname (fullPath v)) = ''published'')"
    by blast
  then have "\<forall>v \<in> set (projr (getThemeVideos foodEnv 1 foodStore)).
               isPublished v = (basename (dirname (fullPath v)) = ''published'')"
    using en by blast
  then have l: "list_all (\<lambda>v. isPublished v = (basename (dirname (fullPath v)) = ''published''))
        (projr (getThemeVideos foodEnv 1 foodStore))"
    by (simp add: list_all_iff)
  show ?thesis
    using food_theme u s n b l food_inventory by simp
qed

text \<open>
  C1, the equality as stated, fails for a theme whose resource root is a folder that has
  the name of the archive folder: the video directly in \<open>/videos/published\<close> is listed as
  unpublished, and the base name of its parent directory is \<open>published\<close>, the theme's
  \<open>archiveFolderName\<close>. It also fails for an archive folder name of two segments: with
  \<open>archive/2024\<close> the archived video is listed as published, and the base name of its
  parent directory is \<open>2024\<close>.
\<close>

theorem status_is_positional_counterexample:
  "archiveFolderName publishedRootTheme = Some ''published''
   \<and> map (\<lambda>v. (fullPath v, isPublished v, basename (dirname (fullPath v))))
        (projr (getThemeVideos publishedRootEnv 1 publishedRootStore)) =
       [(''/videos/published/a.mp4'', False, ''published'')]
   \<and> archiveFolderName yearlyTheme = Some ''archive/2024''
   \<and> map (\<lambda>v. (fullPath v, isPublished v, basename (dirname (fullPath v))))
        (projr (getThemeVideos yearlyEnv 1 yearlyArchivedStore)) =
       [(''/videos/food/b.mp4'', False, ''food''),
        (''/videos/food/archive/2024/a.mp4'', True, ''2024'')]"
  by code_simp

section \<open>Unarchiving\<close>

lemma dirname_not_Nil: "dirname p \<noteq> []"
  by (auto simp: dirname_def Let_def)

lemma unarchive_target_normalized:
  "basename p \<noteq> [] \<Longrightarrow>
   path_join [dirname (dirname p), basename p] =
     normalize (dirname (dirname p) @ ''/'' @ basename p)"
  using dirname_not_Nil [of "dirname p"] by (simp add: path_join_def)

lemma unarchiveVideo_guard:
  assumes "themes env themeId = Some theme" and "getLibraryInstance env lid = Inr library"
    and "\<not> endsWith (dirname p) (effectiveArchiveFolderName theme)"
  shows "unarchiveVideo env themeId lid p w =
           (Inl (Error ''the video is not in the archive folder''), w)"
  using assms by (simp add: unarchiveVideo_def Let_def)

lemma unarchiveVideo_moves:
  assumes "themes env themeId = Some theme" and "getLibraryInstance env lid = Inr library"
    and "endsWith (dirname p) (effectiveArchiveFolderName theme)"
  shows "unarchiveVideo env themeId lid p w =
           move library p (path_join [dirname (dirname p), basename p]) w"
  using assms by (simp add: unarchiveVideo_def Let_def)

text \<open>
  C4. The target is one level up, \<open>path.join(dirname(dirname(p)), basename(p))\<close>, the
  normalized \<open>dirname(dirname(p)) + "/" + basename(p)\<close> (\<open>unarchive_target_normalized\<close>,
  \<open>unarchiveVideo_moves\<close>). The guard, however, is \<open>directory.endsWith(archiveFolderName)\<close>,
  a test on the end of the string and not on the base name: for the archive folder name
  \<open>published\<close>, a video in the folder \<open>/videos/unpublished\<close> passes it and is moved to
  \<open>/videos\<close>, although the base name of its directory is not the archive folder name.
\<close>

theorem unarchive_guard_accepts_suffix:
  "effectiveArchiveFolderName foodTheme = ''published''
   \<and> basename (dirname ''/videos/unpublished/c.mp4'') = ''unpublished''
   \<and> unarchiveVideo foodEnv 1 1 ''/videos/unpublished/c.mp4'' strayStore =
       (Inr (),
        [([''data''], Directory), ([''data'', ''videos''], Directory),
         ([''data'', ''videos'', ''unpublished''], Directory),
         ([''data'', ''videos'', ''c.mp4''], RegularFile 30 3)])"
  by code_simp

section \<open>Paths and places\<close>

lemma pieces_slash_free: "\<forall>s \<in> set (pieces x). CHR ''/'' \<notin> set s"
proof (induction x)
  case Nil
  show ?case by simp
next
  case (Cons c x)
  obtain p ps where p: "pieces x = p # ps" using pieces_not_Nil [of x] by (cases "pieces x") auto
  show ?case using Cons p by auto
qed

lemma pieces_join_slash:
  "xs \<noteq> [] \<Longrightarrow> \<forall>s \<in> set xs. CHR ''/'' \<notin> set s \<Longrightarrow> pieces (join_slash xs) = xs"
proof (induction xs rule: join_slash.induct)
  case 1
  then show ?case by simp
next
  case (2 x)
  then show ?case by (simp add: pieces_no_slash)
next
  case (3 x y ys)
  then show ?case by (simp add: pieces_append_slash pieces_no_slash)
qed

text \<open>The stack of a fold over the segments holds simple segments only, above the start.\<close>

lemma norm_step_False_simples:
  assumes "\<forall>s \<in> set st. simpleSegment s" and "CHR ''/'' \<notin> set seg"
  shows "\<forall>s \<in> set (norm_step False st seg). simpleSegment s"
  using assms
  by (auto simp: norm_step_def simpleSegment_def entryName_def dest: in_set_butlastD)

lemma foldl_norm_step_False_simples:
  assumes "\<forall>s \<in> set st. simpleSegment s" and "\<forall>s \<in> set ps. CHR ''/'' \<notin> set s"
  shows "\<forall>s \<in> set (foldl (norm_step False) st ps). simpleSegment s"
  using assms
proof (induction ps arbitrary: st)
  case Nil
  then show ?case by simp
next
  case (Cons p ps)
  have "\<forall>s \<in> set (norm_step False st p). simpleSegment s"
    using Cons.prems by (intro norm_step_False_simples) auto
  then show ?case using Cons by simp
qed

lemma resolve_simples: "\<forall>s \<in> set (resolve x). simpleSegment s"
  unfolding resolve_def
  by (rule foldl_norm_step_False_simples) (simp_all add: pieces_slash_free)

lemma foldl_norm_step_simple_list:
  "\<forall>s \<in> set xs. simpleSegment s \<Longrightarrow> foldl (norm_step allow) st xs = st @ xs"
  by (induction xs arbitrary: st) (simp_all add: norm_step_simple)

lemma norm_step_Nil [simp]: "norm_step allow st [] = st"
  by (simp add: norm_step_def)

lemma resolve_rooted_join_slash:
  assumes "\<forall>s \<in> set st. simpleSegment s"
  shows "foldl (norm_step False) D (pieces (CHR ''/'' # join_slash st)) = D @ st"
proof (cases "st = []")
  case True
  then show ?thesis by simp
next
  case False
  have "\<forall>s \<in> set st. CHR ''/'' \<notin> set s"
    using assms by (auto simp: simpleSegment_def entryName_def)
  then have "pieces (join_slash st) = st" using False by (intro pieces_join_slash)
  then show ?thesis using assms by (simp add: foldl_norm_step_simple_list)
qed

lemma pieces_snoc_slash: "pieces (x @ ''/'') = pieces x @ [[]]"
  using pieces_append_slash [of x "[]"] by simp

lemma resolve_normalize_abs:
  assumes "x \<noteq> []" and "hd x = CHR ''/''"
  shows "foldl (norm_step False) D (pieces (normalize x)) = D @ resolve x"
proof -
  let ?st = "resolve x"
  have st: "\<forall>s \<in> set ?st. simpleSegment s" by (rule resolve_simples)
  have ns: "normalizeString x False = join_slash ?st"
    by (simp add: normalizeString_def resolve_def)
  have nil: "join_slash ?st = [] \<longleftrightarrow> ?st = []"
  proof
    assume e: "join_slash ?st = []"
    show "?st = []"
    proof (rule ccontr)
      assume "?st \<noteq> []"
      then obtain ys y where "?st = ys @ [y]" by (metis rev_exhaust)
      moreover from this st have "y \<noteq> []" by (auto simp: simpleSegment_def entryName_def)
      ultimately show False using e by (simp add: join_slash_snoc split: if_splits)
    qed
  qed simp
  show ?thesis
  proof (cases "?st = []")
    case True
    then show ?thesis using assms ns by (simp add: normalize_def Let_def)
  next
    case False
    then have j: "join_slash ?st \<noteq> []" using nil by simp
    have "normalize x = CHR ''/'' # join_slash ?st @ (if last x = CHR ''/'' then ''/'' else [])"
      using assms ns j by (simp add: normalize_def Let_def)
    moreover have "foldl (norm_step False) D (pieces (CHR ''/'' # join_slash ?st @ ''/'')) = D @ ?st"
      using resolve_rooted_join_slash [OF st, of D]
        pieces_snoc_slash [of "CHR ''/'' # join_slash ?st"] by simp
    ultimately show ?thesis
      using resolve_rooted_join_slash [OF st, of D] by simp
  qed
qed

lemma resolve_append_slash:
  "resolve (b @ CHR ''/'' # p) = foldl (norm_step False) (resolve b) (pieces p)"
  by (simp add: resolve_def pieces_append_slash)

lemma place_fold:
  assumes "basePath cfg \<noteq> []" and "hd (basePath cfg) = CHR ''/''"
  shows "place cfg p = foldl (norm_step False) (resolve (basePath cfg)) (pieces p)"
proof (cases "p = []")
  case True
  have "path_join [basePath cfg, p] = normalize (basePath cfg)"
    using True assms by (simp add: path_join_def)
  then show ?thesis
    using resolve_normalize_abs [OF assms, of "[]"] True
    by (simp add: place_def resolve_def [of "normalize (basePath cfg)"])
next
  case False
  let ?x = "basePath cfg @ CHR ''/'' # p"
  have "path_join [basePath cfg, p] = normalize ?x"
    using False assms by (simp add: path_join_def)
  moreover have "?x \<noteq> []" "hd ?x = CHR ''/''" using assms by simp_all
  ultimately show ?thesis
    using resolve_normalize_abs [of ?x "[]"]
    by (simp add: place_def resolve_def [of "normalize ?x"] resolve_append_slash)
qed

lemma foldl_norm_step_clean:
  assumes "''..'' \<notin> set ps"
  shows "foldl (norm_step allow) D ps = D @ filter (\<lambda>s. s \<noteq> [] \<and> s \<noteq> ''.'') ps"
  using assms by (induction ps arbitrary: D) (auto simp: norm_step_def)

lemma place_clean:
  assumes "basePath cfg \<noteq> []" and "hd (basePath cfg) = CHR ''/''" and "cleanPath p"
  shows "place cfg p = resolve (basePath cfg) @ simples p"
  using assms(3) by (simp add: place_fold [OF assms(1,2)] foldl_norm_step_clean cleanPath_def simples_def)

lemma simpleSegment_facts:
  assumes "simpleSegment n"
  shows "n \<noteq> []" and "CHR ''/'' \<notin> set n" and "n \<noteq> ''.''" and "n \<noteq> ''..''" and "pieces n = [n]"
  using assms by (simp_all add: simpleSegment_def entryName_def pieces_no_slash)

lemma simples_join_name:
  assumes "simpleSegment n"
  shows "simples (f @ CHR ''/'' # n) = simples f @ [n]"
    and "cleanPath (f @ CHR ''/'' # n) = cleanPath f"
  using simpleSegment_facts [OF assms]
  by (auto simp: simples_def cleanPath_def pieces_append_slash)

lemma simples_roots:
  "simples [] = []" "simples ''/'' = []" "simples ''//'' = []" "simples ''.'' = []"
  "cleanPath []" "cleanPath ''/''" "cleanPath ''//''" "cleanPath ''.''"
  by (simp_all add: simples_def cleanPath_def)

lemma simples_simple: "s \<in> set (simples x) \<Longrightarrow> cleanPath x \<Longrightarrow> simpleSegment s"
  using pieces_slash_free [of x]
  by (auto simp: simples_def cleanPath_def simpleSegment_def entryName_def)

lemma simples_dirname_join_name:
  assumes "simpleSegment n"
  shows "simples (dirname (f @ CHR ''/'' # n)) = simples f"
    and "cleanPath (dirname (f @ CHR ''/'' # n)) = cleanPath f"
  using simpleSegment_facts [OF assms]
  by (simp_all add: dirname_join_name simples_roots)

text \<open>The segments of \<open>path.join(x, a)\<close> for a path without \<open>..\<close> and a simple name.\<close>

lemma path_join_clean:
  assumes "cleanPath x" and "simpleSegment a"
  shows "path_join [x, a] =
           (if x \<noteq> [] \<and> hd x = CHR ''/'' then ''/'' else []) @ join_slash (simples x @ [a])"
proof -
  have st: "foldl (norm_step allow) [] (pieces x) = simples x" for allow
    using assms(1) by (simp add: foldl_norm_step_clean cleanPath_def simples_def)
  show ?thesis
    using path_join_simple [OF assms(2), of x] by (simp add: st simples_roots)
qed

lemma pieces_rooted: "pieces (CHR ''/'' # y) = [] # pieces y"
  using pieces_append_slash [of "[]" y] by simp

lemma simples_path_join:
  assumes "cleanPath x" and "simpleSegment a"
  shows "simples (path_join [x, a]) = simples x @ [a]"
    and "cleanPath (path_join [x, a])"
proof -
  let ?st = "simples x @ [a]"
  have s: "\<forall>s \<in> set ?st. simpleSegment s"
    using assms simples_simple [of _ x] by auto
  then have sl: "\<forall>s \<in> set ?st. CHR ''/'' \<notin> set s"
    by (auto simp: simpleSegment_def entryName_def)
  have p: "pieces (join_slash ?st) = ?st"
    by (rule pieces_join_slash) (use sl in simp_all)
  have f: "filter (\<lambda>s. s \<noteq> [] \<and> s \<noteq> ''.'') ?st = ?st"
    using s by (intro filter_True) (auto simp: simpleSegment_def entryName_def)
  have d: "''..'' \<notin> set ?st" using s by (auto simp: simpleSegment_def)
  show "simples (path_join [x, a]) = simples x @ [a]"
    unfolding path_join_clean [OF assms] simples_def [of "_ @ _"]
    using p f by (simp add: pieces_rooted del: filter_append)
  show "cleanPath (path_join [x, a])"
    unfolding path_join_clean [OF assms] cleanPath_def
    using p d by (simp add: pieces_rooted)
qed

lemma dirname_no_slash: "CHR ''/'' \<notin> set n \<Longrightarrow> n \<noteq> [] \<Longrightarrow> dirname n = ''.''"
proof -
  assume a: "CHR ''/'' \<notin> set n" "n \<noteq> []"
  have "dropWhile (\<lambda>c. c = CHR ''/'') (rev n) = rev n"
    using dropWhile_rev_name [OF a(2) a(1), of "[]"] by simp
  then have 2: "dropWhile (\<lambda>c. c \<noteq> CHR ''/'') (dropWhile (\<lambda>c. c = CHR ''/'') (rev n)) = []"
    using a(1) by auto
  have "hd n \<noteq> CHR ''/''" using a by (metis hd_in_set)
  then show ?thesis unfolding dirname_def Let_def 2 using a(2) by simp
qed

lemma join_slash_simples_not_Nil:
  assumes "st \<noteq> []" and "\<forall>s \<in> set st. s \<noteq> []"
  shows "join_slash st \<noteq> []"
proof -
  obtain ys y where e: "st = ys @ [y]" using assms(1) by (metis rev_exhaust)
  then have "y \<noteq> []" using assms(2) by simp
  then show ?thesis unfolding e by (rule join_slash_snoc_not_Nil)
qed

lemma simples_dirname_path_join:
  assumes "cleanPath x" and "simpleSegment a"
  shows "simples (dirname (path_join [x, a])) = simples x"
    and "cleanPath (dirname (path_join [x, a]))"
proof -
  let ?R = "(if x \<noteq> [] \<and> hd x = CHR ''/'' then ''/'' else [])"
  have a: "a \<noteq> []" "CHR ''/'' \<notin> set a" using simpleSegment_facts [OF assms(2)] by simp_all
  have s: "\<forall>s \<in> set (simples x). simpleSegment s"
    using assms simples_simple [of _ x] by auto
  have goal: "simples (dirname (path_join [x, a])) = simples x \<and> cleanPath (dirname (path_join [x, a]))"
  proof (cases "simples x = []")
    case True
    then have "path_join [x, a] = ?R @ a" by (simp add: path_join_clean [OF assms])
    then show ?thesis
      using True dirname_join_name [OF a, of "[]"] dirname_no_slash [OF a(2,1)]
      by (auto simp: simples_roots)
  next
    case False
    let ?d = "?R @ join_slash (simples x)"
    have j: "join_slash (simples x) \<noteq> []"
      using False s by (intro join_slash_simples_not_Nil) (auto simp: simpleSegment_def entryName_def)
    have e: "path_join [x, a] = ?d @ CHR ''/'' # a"
      using False by (simp add: path_join_clean [OF assms] join_slash_snoc)
    have sl: "\<forall>s \<in> set (simples x). CHR ''/'' \<notin> set s"
      using s by (auto simp: simpleSegment_def entryName_def)
    have p: "pieces (join_slash (simples x)) = simples x"
      by (rule pieces_join_slash) (use False sl in simp_all)
    have "join_slash (simples x) \<noteq> ''/''"
    proof
      assume "join_slash (simples x) = ''/''"
      then have "simples x = [[], []]" using p by simp
      then show False using s by (auto simp: simpleSegment_def entryName_def)
    qed
    then have d: "?d \<noteq> []" "?d \<noteq> ''/''" using j by auto
    have dn: "dirname (path_join [x, a]) = ?d"
      unfolding e using dirname_join_name [OF a, of ?d] d by simp
    have f: "filter (\<lambda>s. s \<noteq> [] \<and> s \<noteq> ''.'') (simples x) = simples x"
      using s by (intro filter_True) (auto simp: simpleSegment_def entryName_def)
    have dd: "''..'' \<notin> set (simples x)" using s by (auto simp: simpleSegment_def)
    have "simples ?d = simples x"
      unfolding simples_def [of "_ @ _"] using p f by (simp add: pieces_rooted)
    moreover have "cleanPath ?d"
      unfolding cleanPath_def using p dd by (simp add: pieces_rooted)
    ultimately show ?thesis using dn by simp
  qed
  show "simples (dirname (path_join [x, a])) = simples x" using goal by simp
  show "cleanPath (dirname (path_join [x, a]))" using goal by simp
qed

text \<open>The places of the paths that archiving and unarchiving a video use.\<close>

lemma places:
  assumes b: "basePath cfg \<noteq> []" "hd (basePath cfg) = CHR ''/''"
    and f: "cleanPath f" and a: "simpleSegment a" and n: "simpleSegment n"
  defines "D \<equiv> resolve (basePath cfg) @ simples f"
  shows "place cfg f = D"
    and "place cfg (f @ CHR ''/'' # n) = D @ [n]"
    and "place cfg (path_join [f, n]) = D @ [n]"
    and "place cfg (path_join [f, a]) = D @ [a]"
    and "place cfg (path_join [dirname (f @ CHR ''/'' # n), a]) = D @ [a]"
    and "place cfg (path_join [path_join [dirname (f @ CHR ''/'' # n), a], n]) = D @ [a, n]"
    and "place cfg (path_join [f, a] @ CHR ''/'' # n) = D @ [a, n]"
    and "place cfg (path_join [dirname (path_join [f, a]), n]) = D @ [n]"
proof -
  note pc = place_clean [OF b]
  show "place cfg f = D" using f by (simp add: pc D_def)
  show "place cfg (f @ CHR ''/'' # n) = D @ [n]"
    using f by (simp add: pc simples_join_name [OF n] D_def)
  show "place cfg (path_join [f, n]) = D @ [n]"
    by (simp add: pc simples_path_join [OF f n] D_def)
  show "place cfg (path_join [f, a]) = D @ [a]"
    by (simp add: pc simples_path_join [OF f a] D_def)
  have dc: "cleanPath (dirname (f @ CHR ''/'' # n))"
    using f by (simp add: simples_dirname_join_name [OF n])
  show "place cfg (path_join [dirname (f @ CHR ''/'' # n), a]) = D @ [a]"
    by (simp add: pc simples_path_join [OF dc a] simples_dirname_join_name [OF n] D_def)
  have ac: "cleanPath (path_join [dirname (f @ CHR ''/'' # n), a])"
    by (rule simples_path_join [OF dc a])
  show "place cfg (path_join [path_join [dirname (f @ CHR ''/'' # n), a], n]) = D @ [a, n]"
    by (simp add: pc simples_path_join [OF ac n] simples_path_join [OF dc a]
          simples_dirname_join_name [OF n] D_def)
  have fc: "cleanPath (path_join [f, a])" by (rule simples_path_join [OF f a])
  show "place cfg (path_join [f, a] @ CHR ''/'' # n) = D @ [a, n]"
    using fc by (simp add: pc simples_join_name [OF n] simples_path_join [OF f a] D_def)
  have pc': "cleanPath (dirname (path_join [f, a]))" by (rule simples_dirname_path_join [OF f a])
  show "place cfg (path_join [dirname (path_join [f, a]), n]) = D @ [n]"
    by (simp add: pc simples_path_join [OF pc' n] simples_dirname_path_join [OF f a] D_def)
qed

section \<open>The file store under the local provider\<close>

lemma lookup_append_Some:
  "lookup fs k = Some v \<Longrightarrow> lookup (fs @ xs) k = Some v"
  by (auto simp: lookup_def split: if_splits)

lemma mkdirs_lookup:
  "mkdirs fs pre ks = (r, fs') \<Longrightarrow> lookup fs k = Some v \<Longrightarrow> lookup fs' k = Some v"
proof (induction ks arbitrary: fs pre)
  case Nil
  then show ?case by simp
next
  case (Cons s ss)
  show ?case
  proof (cases "lookup fs (pre @ [s])")
    case None
    then have "mkdirs (fs @ [(pre @ [s], Directory)]) (pre @ [s]) ss = (r, fs')"
      using Cons.prems(1) by simp
    then show ?thesis
      using Cons.IH lookup_append_Some [OF Cons.prems(2)] by blast
  next
    case (Some nd)
    then show ?thesis using Cons by (cases nd) auto
  qed
qed

lemma walk_snoc:
  "walk fs pre (ks @ [x]) =
     (case walk fs pre ks of
        Inl e \<Rightarrow> Inl e
      | Inr Directory \<Rightarrow> (case lookup fs (pre @ ks @ [x]) of None \<Rightarrow> Inl ENOENT | Some nd \<Rightarrow> Inr nd)
      | Inr (RegularFile sz t) \<Rightarrow> Inl ENOTDIR)"
  by (induction ks arbitrary: pre) (auto split: option.splits fsnode.splits)

lemma walk_lookup: "walk fs pre ks = Inr nd \<Longrightarrow> lookup fs (pre @ ks) = Some nd"
proof (induction ks arbitrary: pre)
  case Nil
  then show ?case by (auto split: option.splits)
next
  case (Cons s ss)
  from Cons.prems have "walk fs (pre @ [s]) ss = Inr nd"
    by (auto split: option.splits fsnode.splits)
  then show ?case using Cons.IH [of "pre @ [s]"] by simp
qed

lemma walk_cong:
  "(\<And>j. j \<le> length ks \<Longrightarrow> lookup fs (pre @ take j ks) = lookup fs' (pre @ take j ks)) \<Longrightarrow>
   walk fs pre ks = walk fs' pre ks"
proof (induction ks arbitrary: pre)
  case Nil
  then show ?case using Nil [of 0] by simp
next
  case (Cons s ss)
  have 0: "lookup fs pre = lookup fs' pre" using Cons.prems [of 0] by simp
  have "walk fs (pre @ [s]) ss = walk fs' (pre @ [s]) ss"
  proof (rule Cons.IH)
    fix j assume "j \<le> length ss"
    then show "lookup fs ((pre @ [s]) @ take j ss) = lookup fs' ((pre @ [s]) @ take j ss)"
      using Cons.prems [of "Suc j"] by simp
  qed
  then show ?case using 0 by (simp split: option.splits fsnode.splits)
qed

lemma walk_errors: "walk fs pre ks = Inl e \<Longrightarrow> e = ENOENT \<or> e = ENOTDIR"
  by (induction ks arbitrary: pre) (auto split: option.splits fsnode.splits)

text \<open>Moving a node: what is found afterwards at the target, at the source and elsewhere.\<close>

lemma moveNode_map_of:
  assumes "\<And>k. \<not> prefix t k \<Longrightarrow> ((if prefix s k then t @ drop (length s) k else k) = y \<longleftrightarrow> k = x)"
    and "\<not> prefix t x"
  shows "map_of (moveNode s t fs) y = map_of fs x"
proof (induction fs)
  case Nil
  show ?case by (simp add: moveNode_def)
next
  case (Cons e fs)
  obtain k nd where e: "e = (k, nd)" by (cases e)
  show ?case
  proof (cases "prefix t k")
    case True
    then have "k \<noteq> x" using assms(2) by auto
    then show ?thesis using Cons True e by (simp add: moveNode_def)
  next
    case False
    show ?thesis using Cons False e assms(1) [OF False] by (auto simp: moveNode_def)
  qed
qed

lemma moveNode_target:
  assumes "\<not> prefix t s" and "t \<noteq> []" and "s \<noteq> []"
  shows "lookup (moveNode s t fs) t = lookup fs s"
proof -
  have "map_of (moveNode s t fs) t = map_of fs s"
  proof (rule moveNode_map_of)
    fix k assume k: "\<not> prefix t k"
    show "((if prefix s k then t @ drop (length s) k else k) = t) = (k = s)"
      using k by (auto simp: prefix_def)
  qed (rule assms(1))
  then show ?thesis using assms by (simp add: lookup_def)
qed

lemma moveNode_other:
  assumes "\<not> prefix t k" and "\<not> prefix s k"
  shows "lookup (moveNode s t fs) k = lookup fs k"
proof -
  have "map_of (moveNode s t fs) k = map_of fs k"
  proof (rule moveNode_map_of)
    fix k' assume k: "\<not> prefix t k'"
    show "((if prefix s k' then t @ drop (length s) k' else k') = k) = (k' = k)"
      using k assms by (auto simp: prefix_def)
  qed (rule assms(1))
  then show ?thesis by (simp add: lookup_def)
qed

lemma moveNode_source:
  assumes "\<not> prefix t s" and "s \<noteq> []"
  shows "lookup (moveNode s t fs) s = None"
proof -
  have "s \<notin> fst ` set (moveNode s t fs)"
    using assms by (auto simp: moveNode_def prefix_def split: if_splits)
  then have "map_of (moveNode s t fs) s = None" by (simp add: map_of_eq_None_iff)
  then show ?thesis using assms by (simp add: lookup_def)
qed

text \<open>The calls of the local provider on the store, by the places of their paths.\<close>

lemma local_getInfo_posix:
  "isl (local_getInfo posix cfg p fs) = isl (walk fs [] (place cfg p))"
  by (simp add: local_getInfo_def posix_def posix_stat_def place_def Let_def split: sum.splits)

lemma local_createFolder_posix:
  "local_createFolder posix cfg p fs = (Inr (), fs') \<Longrightarrow>
   mkdirs fs [] (place cfg p) = (Inr (), fs')"
  by (auto simp: local_createFolder_def posix_def posix_mkdir_def place_def Let_def
        split: prod.splits sum.splits)

lemma posix_rename_done:
  assumes "posix_rename oldPath newPath fs = (Inr (), fs')" and "resolve oldPath \<noteq> resolve newPath"
  shows "fs' = moveNode (resolve oldPath) (resolve newPath) fs
         \<and> resolve oldPath \<noteq> [] \<and> resolve newPath \<noteq> []
         \<and> \<not> prefix (resolve oldPath) (resolve newPath)
         \<and> isl (walk fs [] (resolve oldPath)) = False
         \<and> walk fs [] (butlast (resolve newPath)) = Inr Directory"
  using assms
  by (auto simp: posix_rename_def Let_def split: sum.splits fsnode.splits option.splits if_splits)

lemma local_move_done:
  assumes "local_move posix cfg src dst fs = (Inr (), fs')"
  shows "\<exists>r fs''. mkdirs fs [] r = (Inr (), fs'')
           \<and> posix_rename (path_join [basePath cfg, src]) (path_join [basePath cfg, dst]) fs''
               = (Inr (), fs')
           \<and> isl (walk fs [] (place cfg src)) = False
           \<and> walk fs [] (place cfg dst) = Inl ENOENT"
proof -
  let ?S = "path_join [basePath cfg, src]" and ?T = "path_join [basePath cfg, dst]"
  from assms obtain u where s: "walk fs [] (resolve ?S) = Inr u"
    by (cases "walk fs [] (resolve ?S)")
       (auto simp: local_move_def posix_def posix_access_def Let_def)
  have t: "walk fs [] (resolve ?T) = Inl ENOENT"
  proof (cases "walk fs [] (resolve ?T)")
    case (Inr nd)
    then show ?thesis using assms s
      by (simp add: local_move_def posix_def posix_access_def Let_def)
  next
    case (Inl e)
    have "e = ENOENT \<or> e = ENOTDIR"
      using Inl walk_errors by blast
    then show ?thesis using assms s Inl
      by (auto simp: local_move_def posix_def posix_access_def Let_def)
  qed
  show ?thesis
    using assms s t
    by (auto simp: local_move_def posix_def posix_access_def posix_mkdir_def place_def Let_def
          split: prod.splits sum.splits)
qed

lemma endsWith_append: "endsWith (x @ a) a"
  by (simp add: endsWith_def)

lemma endsWith_path_join_simple: "simpleSegment a \<Longrightarrow> endsWith (path_join [f, a]) a"
  using path_join_simple_shape [of a f] endsWith_append [of "[]" a] by (auto simp: endsWith_append)

lemma archiveVideo_local_done:
  assumes t: "themes env themeId = Some theme"
    and l: "getLibraryInstance env lid = Inr (LocalResourceLibrary posix cfg)"
    and n: "simpleSegment n"
    and ar: "archiveVideo env themeId lid (f @ CHR ''/'' # n) fs = (Inr (), fs1)"
  defines "a \<equiv> effectiveArchiveFolderName theme"
  shows "\<exists>r fs'. mkdirs fs [] r = (Inr (), fs')
           \<and> local_move posix cfg (f @ CHR ''/'' # n)
                (path_join [path_join [dirname (f @ CHR ''/'' # n), a], n]) fs' = (Inr (), fs1)"
proof -
  have bn: "basename (f @ CHR ''/'' # n) = n"
    using simpleSegment_facts [OF n] by (simp add: basename_join_name)
  let ?ap = "path_join [dirname (f @ CHR ''/'' # n), a]"
  let ?tp = "path_join [?ap, n]"
  show ?thesis
  proof (cases "local_getInfo posix cfg ?ap fs")
    case (Inr info)
    then have "local_move posix cfg (f @ CHR ''/'' # n) ?tp fs = (Inr (), fs1)"
      using ar t l bn by (simp add: archiveVideo_def LocalResourceLibrary_def Let_def a_def)
    moreover have "mkdirs fs [] [] = (Inr (), fs)" by simp
    ultimately show ?thesis by blast
  next
    case (Inl e)
    obtain r' fs' where c: "local_createFolder posix cfg ?ap fs = (r', fs')"
      by (cases "local_createFolder posix cfg ?ap fs")
    then have r': "r' = Inr ()" and m: "local_move posix cfg (f @ CHR ''/'' # n) ?tp fs' = (Inr (), fs1)"
      using ar t l bn Inl
      by (auto simp: archiveVideo_def LocalResourceLibrary_def Let_def a_def split: sum.splits)
    have "mkdirs fs [] (place cfg ?ap) = (Inr (), fs')"
      using c r' by (intro local_createFolder_posix) simp
    then show ?thesis using m by blast
  qed
qed

lemma walk_prefix:
  "walk fs pre (ks @ ks') = Inr nd \<Longrightarrow> \<exists>nd'. walk fs pre ks = Inr nd'"
proof (induction ks' arbitrary: nd rule: rev_induct)
  case Nil
  then show ?case by simp
next
  case (snoc x xs)
  from snoc.prems have "\<exists>nd'. walk fs pre (ks @ xs) = Inr nd'"
    using walk_snoc [of fs pre "ks @ xs" x] by (auto split: sum.splits)
  then show ?case using snoc.IH by blast
qed

text \<open>A move of a file by the local provider, seen at its two places.\<close>

lemma local_move_file:
  assumes mv: "local_move posix cfg src dst fs = (Inr (), fs')"
    and fl: "lookup fs (place cfg src) = Some (RegularFile sz tm)"
  shows "lookup fs' (place cfg dst) = Some (RegularFile sz tm)
         \<and> lookup fs' (place cfg src) = None
         \<and> walk fs' [] (butlast (place cfg dst)) = Inr Directory
         \<and> \<not> prefix (place cfg src) (place cfg dst) \<and> \<not> prefix (place cfg dst) (place cfg src)
         \<and> (\<forall>k. \<not> prefix (place cfg src) k \<and> \<not> prefix (place cfg dst) k \<and> lookup fs k \<noteq> None
                \<longrightarrow> lookup fs' k = lookup fs k)"
proof -
  let ?s = "place cfg src" and ?t = "place cfg dst"
  obtain r fs'' where mk: "mkdirs fs [] r = (Inr (), fs'')"
    and rn: "posix_rename (path_join [basePath cfg, src]) (path_join [basePath cfg, dst]) fs''
               = (Inr (), fs')"
    and ws: "isl (walk fs [] ?s) = False" and wt: "walk fs [] ?t = Inl ENOENT"
    using local_move_done [OF mv] by blast
  have ne: "?s \<noteq> ?t" using ws wt by auto
  have rd: "fs' = moveNode ?s ?t fs''" "?s \<noteq> []" "?t \<noteq> []" "\<not> prefix ?s ?t"
    "walk fs'' [] (butlast ?t) = Inr Directory"
    using posix_rename_done [OF rn] ne by (simp_all add: place_def)
  have nts: "\<not> prefix ?t ?s"
  proof
    assume "prefix ?t ?s"
    then obtain r' where "?s = ?t @ r'" by (auto simp: prefix_def)
    moreover obtain nd where "walk fs [] ?s = Inr nd" using ws by (cases "walk fs [] ?s") auto
    ultimately have "\<exists>nd'. walk fs [] ?t = Inr nd'" using walk_prefix [of fs "[]" ?t r' nd] by simp
    then show False using wt by simp
  qed
  have f'': "lookup fs'' ?s = Some (RegularFile sz tm)" by (rule mkdirs_lookup [OF mk fl])
  have 1: "lookup fs' ?t = Some (RegularFile sz tm)"
    unfolding rd(1) using moveNode_target [OF nts rd(3) rd(2)] f'' by simp
  have 2: "lookup fs' ?s = None"
    unfolding rd(1) by (rule moveNode_source [OF nts rd(2)])
  have "walk fs' [] (butlast ?t) = walk fs'' [] (butlast ?t)"
  proof (rule walk_cong)
    fix j assume "j \<le> length (butlast ?t)"
    let ?k = "[] @ take j (butlast ?t)"
    have p: "prefix ?k ?t"
      by (metis append_Nil prefix_order.trans prefixeq_butlast take_is_prefix)
    have "length ?k < length ?t" using rd(3) by (cases "?t" rule: rev_cases) simp_all
    then have a: "\<not> prefix ?t ?k" using prefix_length_le [of ?t ?k] by linarith
    have b: "\<not> prefix ?s ?k" using p rd(4) by (meson prefix_order.trans)
    show "lookup fs' ?k = lookup fs'' ?k"
      unfolding rd(1) by (rule moveNode_other [OF a b])
  qed
  then have 3: "walk fs' [] (butlast ?t) = Inr Directory" using rd(5) by simp
  have 5: "\<forall>k. \<not> prefix ?s k \<and> \<not> prefix ?t k \<and> lookup fs k \<noteq> None \<longrightarrow> lookup fs' k = lookup fs k"
  proof (intro allI impI)
    fix k assume k: "\<not> prefix ?s k \<and> \<not> prefix ?t k \<and> lookup fs k \<noteq> None"
    then obtain nd where "lookup fs k = Some nd" by auto
    then have "lookup fs'' k = lookup fs k" using mkdirs_lookup [OF mk] by simp
    then show "lookup fs' k = lookup fs k"
      unfolding rd(1) using moveNode_other [of ?t k ?s fs''] k by simp
  qed
  show ?thesis using 1 2 3 5 rd(4) nts by blast
qed

section \<open>The listing of a file by the local provider\<close>

lemma local_list_loop_acc:
  "local_list_loop node cfg d w items acc = acc @ local_list_loop node cfg d w items []"
proof (induction items arbitrary: acc)
  case Nil
  show ?case by simp
next
  case (Cons item items)
  note ih = Cons.IH [of "acc @ [x]" for x] Cons.IH [of "[x]" for x]
  show ?case
    by (simp add: Let_def ih Cons.IH [of acc] split: sum.splits option.splits)
qed

lemma local_list_loop_mem:
  assumes "item \<in> set items" and "\<not> dirent_isDirectory item" and "listedAsVideo cfg (dirent_name item)"
    and "stat node (path_join [basePath cfg, path_join [d, dirent_name item]]) w = Inr stats"
  shows "\<exists>r \<in> set (local_list_loop node cfg d w items []). name r = dirent_name item \<and> type r = Video"
  using assms(1)
proof (induction items)
  case Nil
  then show ?case by simp
next
  case (Cons i items)
  show ?case
  proof (cases "i = item")
    case True
    let ?r = "\<lparr> name = dirent_name item, path = path_join [d, dirent_name item],
                type = Video, size' = Some (stats_size stats),
                modifiedTime = Some (stats_mtime stats),
                extension = Some (extname (dirent_name item)) \<rparr>"
    have "local_list_loop node cfg d w (i # items) [] =
            [?r] @ local_list_loop node cfg d w items []"
      using True assms(2-4) local_list_loop_acc [of node cfg d w items "[?r]"]
      by (auto simp: listedAsVideo_def Let_def split: option.splits)
    then show ?thesis by simp
  next
    case False
    then have "\<exists>r \<in> set (local_list_loop node cfg d w items []). name r = dirent_name item \<and> type r = Video"
      using Cons by simp
    moreover have "set (local_list_loop node cfg d w items []) \<subseteq> set (local_list_loop node cfg d w (i # items) [])"
      using local_list_loop_acc [of node cfg d w items "[x]" for x]
      by (auto simp: Let_def split: sum.splits option.splits)
    ultimately show ?thesis by blast
  qed
qed

lemma set_insertBy: "set (insertBy cmp x ys) = insert x (set ys)"
  by (induction ys) auto

lemma set_sortBy: "set (sortBy cmp xs) = set xs"
  by (induction xs) (simp_all add: sortBy_def set_insertBy)

lemma set_sortResources: "set (sortResources cmp xs) = set xs"
  by (auto simp: sortResources_def Let_def set_sortBy)

lemma local_lists_file:
  assumes dir: "walk fs [] (place cfg d) = Inr Directory"
    and fl: "lookup fs (place cfg d @ [n]) = Some (RegularFile sz tm)"
    and pl: "place cfg (path_join [d, n]) = place cfg d @ [n]"
    and v: "listedAsVideo cfg n"
  shows "\<exists>rs. local_list posix cfg d fs = Inr rs \<and> (\<exists>r \<in> set rs. name r = n \<and> type r = Video)"
proof -
  let ?items = "map (\<lambda>(s, nd). \<lparr> dirent_name = s, dirent_isDirectory = (nd = Directory) \<rparr>)
                  (childrenOf fs (place cfg d))"
  let ?item = "\<lparr> dirent_name = n, dirent_isDirectory = False \<rparr>"
  have rd: "readdir posix (path_join [basePath cfg, d]) fs = Inr ?items"
    using dir by (simp add: posix_def posix_readdir_def place_def)
  have "map_of fs (place cfg d @ [n]) = Some (RegularFile sz tm)"
    using fl by (simp add: lookup_def)
  then have "(place cfg d @ [n], RegularFile sz tm) \<in> set fs" by (rule map_of_SomeD)
  then have "(n, RegularFile sz tm) \<in> set (childrenOf fs (place cfg d))"
    by (force simp: childrenOf_def)
  then have i: "?item \<in> set ?items" by force
  have "walk fs [] (place cfg d @ [n]) = Inr (RegularFile sz tm)"
    using dir fl by (simp add: walk_snoc)
  then have st: "stat posix (path_join [basePath cfg, path_join [d, dirent_name ?item]]) fs
                 = Inr (statsOf (RegularFile sz tm))"
    using pl by (simp add: posix_def posix_stat_def place_def)
  have "\<exists>r \<in> set (local_list_loop posix cfg d fs ?items []). name r = dirent_name ?item \<and> type r = Video"
    by (rule local_list_loop_mem [OF i _ _ st]) (use v in simp_all)
  then show ?thesis
    using rd by (simp add: local_list_def local_list_body_def Let_def set_sortResources)
qed

lemma browse_local:
  assumes "getLibraryInstance env lid = Inr (LocalResourceLibrary posix cfg)"
    and "local_list posix cfg d fs = Inr rs"
  shows "browseLibrary env lid d (Some Video) fs = Inr (filter (\<lambda>r. type r = Video) rs)"
  using assms by (simp add: browseLibrary_def LocalResourceLibrary_def)

lemma local_list_Inr: "\<exists>rs. local_list node cfg d w = Inr rs"
  by (simp add: local_list_def split: sum.splits)

lemma inventory_local:
  fixes env :: "('c, fsstate) Env"
  assumes t: "themes env themeId = Some theme"
    and l: "getLibraryInstance env lid = Inr (LocalResourceLibrary posix cfg)"
    and root: "\<lparr> ThemeResourcePath.libraryId = lid, folderPath = f \<rparr> \<in> set (resourcePaths theme)"
  shows "local_list posix cfg f fs = Inr rs \<Longrightarrow> r \<in> set rs \<Longrightarrow> type r = Video \<Longrightarrow>
         withInfo lid f False r \<in> set (projr (getThemeVideos env themeId fs))"
    and "local_list posix cfg (path_join [f, effectiveArchiveFolderName theme]) fs = Inr rs' \<Longrightarrow>
         r' \<in> set rs' \<Longrightarrow> type r' = Video \<Longrightarrow>
         withInfo lid (path_join [f, effectiveArchiveFolderName theme]) True r'
           \<in> set (projr (getThemeVideos env themeId fs))"
proof -
  let ?rp = "\<lparr> ThemeResourcePath.libraryId = lid, folderPath = f \<rparr>"
  let ?a = "effectiveArchiveFolderName theme"
  obtain ms where ms: "local_list posix cfg f fs = Inr ms"
    using local_list_Inr [of posix cfg f fs] by blast
  have nf: "\<not> isl (browseLibrary env lid f (Some Video) fs)"
    using browse_local [OF l ms] by simp
  have sub: "set (rootEntries env ?a fs ?rp) \<subseteq> set (projr (getThemeVideos env themeId fs))"
    unfolding getThemeVideos_concat [OF t] using root by auto
  {
    assume "local_list posix cfg f fs = Inr rs" "r \<in> set rs" "type r = Video"
    then have "withInfo lid f False r \<in> set (mainEntries env fs ?rp)"
      using browse_local [OF l, of f fs rs] by (simp add: mainEntries_def)
    then show "withInfo lid f False r \<in> set (projr (getThemeVideos env themeId fs))"
      using sub nf by (auto simp: rootEntries_def)
  }
  {
    assume "local_list posix cfg (path_join [f, ?a]) fs = Inr rs'" "r' \<in> set rs'" "type r' = Video"
    then have "withInfo lid (path_join [f, ?a]) True r' \<in> set (archiveEntries env ?a fs ?rp)"
      using browse_local [OF l, of "path_join [f, ?a]" fs rs'] by (simp add: archiveEntries_def)
    then show "withInfo lid (path_join [f, ?a]) True r' \<in> set (projr (getThemeVideos env themeId fs))"
      using sub nf by (auto simp: rootEntries_def)
  }
qed

text \<open>
  The round trip on a local library with an absolute base path, for a theme whose
  archive folder name is a single segment and a root folder path without a \<open>..\<close>
  segment: when a video file \<open>n\<close> directly under the root is archived, it is afterwards
  found in the archive folder and no longer in the root folder, and the inventory reports
  it with the archive path, published; when that path is then unarchived, the file is
  found again at its first place and no longer in the archive folder, and the inventory
  reports it with its first \<open>fullPath\<close>, unpublished. Both calls are assumed to succeed.
\<close>

theorem archive_unarchive_round_trip:
  fixes env :: "('c, fsstate) Env"
  assumes t: "themes env themeId = Some theme"
    and l: "getLibraryInstance env lid = Inr (LocalResourceLibrary posix cfg)"
    and b: "basePath cfg \<noteq> []" "hd (basePath cfg) = CHR ''/''"
    and root: "\<lparr> ThemeResourcePath.libraryId = lid, folderPath = f \<rparr> \<in> set (resourcePaths theme)"
    and f: "cleanPath f"
    and a: "simpleSegment (effectiveArchiveFolderName theme)"
    and n: "simpleSegment n" and v: "listedAsVideo cfg n"
    and fl: "lookup fs (place cfg (f @ ''/'' @ n)) = Some (RegularFile sz tm)"
    and ar: "archiveVideo env themeId lid (f @ ''/'' @ n) fs = (Inr (), fs1)"
    and un: "unarchiveVideo env themeId lid
               (path_join [f, effectiveArchiveFolderName theme] @ ''/'' @ n) fs1 = (Inr (), fs2)"
  shows "lookup fs1 (place cfg (f @ ''/'' @ n)) = None
         \<and> lookup fs1 (place cfg (path_join [f, effectiveArchiveFolderName theme] @ ''/'' @ n))
             = Some (RegularFile sz tm)
         \<and> (\<exists>v \<in> set (projr (getThemeVideos env themeId fs1)).
               fullPath v = path_join [f, effectiveArchiveFolderName theme] @ ''/'' @ n
               \<and> VideoEntry.libraryId v = lid \<and> isPublished v)
         \<and> lookup fs2 (place cfg (f @ ''/'' @ n)) = Some (RegularFile sz tm)
         \<and> lookup fs2 (place cfg (path_join [f, effectiveArchiveFolderName theme] @ ''/'' @ n)) = None
         \<and> (\<exists>v \<in> set (projr (getThemeVideos env themeId fs2)).
               fullPath v = f @ ''/'' @ n \<and> VideoEntry.libraryId v = lid \<and> \<not> isPublished v)"
proof -
  define a where "a = effectiveArchiveFolderName theme"
  define D where "D = resolve (basePath cfg) @ simples f"
  have a': "simpleSegment a" using a by (simp add: a_def)
  note pl = places [OF b f a' n, folded D_def]
  have fa: "cleanPath (path_join [f, a])" by (rule simples_path_join [OF f a'])
  have pan: "place cfg (path_join [path_join [f, a], n]) = D @ [a, n]"
    by (simp add: place_clean [OF b] simples_path_join [OF fa n] simples_path_join [OF f a'] D_def)
  have nm: "n \<noteq> []" "CHR ''/'' \<notin> set n" "entryName n"
    using n by (simp_all add: simpleSegment_def entryName_def)
  obtain r fs' where mk: "mkdirs fs [] r = (Inr (), fs')"
    and mv: "local_move posix cfg (f @ CHR ''/'' # n)
               (path_join [path_join [dirname (f @ CHR ''/'' # n), a], n]) fs' = (Inr (), fs1)"
    using archiveVideo_local_done [OF t l n, of f fs fs1] ar by (auto simp: a_def)
  have fl': "lookup fs' (place cfg (f @ CHR ''/'' # n)) = Some (RegularFile sz tm)"
    using mkdirs_lookup [OF mk] fl by simp
  note m1 = local_move_file [OF mv fl', unfolded pl]
  have s1: "lookup fs1 (D @ [n]) = None" and t1: "lookup fs1 (D @ [a, n]) = Some (RegularFile sz tm)"
    and d1: "walk fs1 [] (D @ [a]) = Inr Directory"
    using m1 by (simp_all add: butlast_append)
  have "\<exists>rs. local_list posix cfg (path_join [f, a]) fs1 = Inr rs
          \<and> (\<exists>r \<in> set rs. name r = n \<and> type r = Video)"
    by (rule local_lists_file [where sz = sz and tm = tm])
       (use d1 t1 pan v in \<open>simp_all add: pl\<close>)
  then obtain rs1 r1 where "local_list posix cfg (path_join [f, a]) fs1 = Inr rs1"
    "r1 \<in> set rs1" "name r1 = n" "type r1 = Video" by blast
  then have i1: "withInfo lid (path_join [f, a]) True r1 \<in> set (projr (getThemeVideos env themeId fs1))"
    using inventory_local(2) [OF t l root, of fs1 rs1 r1] by (simp add: a_def)
  have c3: "\<exists>v \<in> set (projr (getThemeVideos env themeId fs1)).
              fullPath v = path_join [f, a] @ ''/'' @ n \<and> VideoEntry.libraryId v = lid \<and> isPublished v"
    using i1 \<open>name r1 = n\<close> by (intro bexI [of _ "withInfo lid (path_join [f, a]) True r1"])
      (simp_all add: withInfo_def)
  have dn: "dirname (path_join [f, a] @ CHR ''/'' # n) = path_join [f, a]"
    using dirname_archive_entry(1) [OF a' nm(3), of f] by simp
  have bn: "basename (path_join [f, a] @ CHR ''/'' # n) = n"
    using nm by (simp add: basename_join_name)
  have "unarchiveVideo env themeId lid (path_join [f, a] @ CHR ''/'' # n) fs1 =
          move (LocalResourceLibrary posix cfg) (path_join [f, a] @ CHR ''/'' # n)
            (path_join [dirname (dirname (path_join [f, a] @ CHR ''/'' # n)),
                        basename (path_join [f, a] @ CHR ''/'' # n)]) fs1"
    by (rule unarchiveVideo_moves [OF t l])
       (simp add: dn endsWith_path_join_simple [OF a'] a_def [symmetric])
  then have mv2: "local_move posix cfg (path_join [f, a] @ CHR ''/'' # n)
                    (path_join [dirname (path_join [f, a]), n]) fs1 = (Inr (), fs2)"
    using un unfolding a_def [symmetric] by (simp add: dn bn LocalResourceLibrary_def)
  have fl1: "lookup fs1 (place cfg (path_join [f, a] @ CHR ''/'' # n)) = Some (RegularFile sz tm)"
    using t1 by (simp add: pl)
  note m2 = local_move_file [OF mv2 fl1, unfolded pl]
  have s2: "lookup fs2 (D @ [n]) = Some (RegularFile sz tm)" and t2: "lookup fs2 (D @ [a, n]) = None"
    and d2: "walk fs2 [] D = Inr Directory"
    using m2 by (simp_all add: butlast_append)
  have "\<exists>rs. local_list posix cfg f fs2 = Inr rs \<and> (\<exists>r \<in> set rs. name r = n \<and> type r = Video)"
    by (rule local_lists_file [where sz = sz and tm = tm])
       (use d2 s2 v in \<open>simp_all add: pl\<close>)
  then obtain rs2 r2 where "local_list posix cfg f fs2 = Inr rs2"
    "r2 \<in> set rs2" "name r2 = n" "type r2 = Video" by blast
  then have i2: "withInfo lid f False r2 \<in> set (projr (getThemeVideos env themeId fs2))"
    using inventory_local(1) [OF t l root, of fs2 rs2 r2] by simp
  have c6: "\<exists>v \<in> set (projr (getThemeVideos env themeId fs2)).
              fullPath v = f @ ''/'' @ n \<and> VideoEntry.libraryId v = lid \<and> \<not> isPublished v"
    using i2 \<open>name r2 = n\<close> by (intro bexI [of _ "withInfo lid f False r2"])
      (simp_all add: withInfo_def)
  show ?thesis
    using s1 t1 c3 s2 t2 c6 by (simp add: pl a_def [symmetric])
qed

theorem archive_unarchive_round_trip_witness:
  "archiveVideo foodEnv 1 1 (''/videos/food'' @ ''/'' @ ''a.mp4'') foodStore
     = (Inr (), archivedFoodStore)
   \<and> unarchiveVideo foodEnv 1 1
        (path_join [''/videos/food'', effectiveArchiveFolderName foodTheme] @ ''/'' @ ''a.mp4'')
        archivedFoodStore = (Inr (), foodStore)
   \<and> lookup archivedFoodStore (place diskConfig (''/videos/food'' @ ''/'' @ ''a.mp4'')) = None
   \<and> lookup foodStore (place diskConfig (''/videos/food'' @ ''/'' @ ''a.mp4''))
       = Some (RegularFile 10 1)
   \<and> lookup foodStore
        (place diskConfig
           (path_join [''/videos/food'', effectiveArchiveFolderName foodTheme] @ ''/'' @ ''a.mp4''))
       = None"
proof -
  have b: "basePath diskConfig \<noteq> []" "hd (basePath diskConfig) = CHR ''/''"
    by (simp_all add: diskConfig_def)
  have root: "\<lparr> ThemeResourcePath.libraryId = 1, folderPath = ''/videos/food'' \<rparr>
                \<in> set (resourcePaths foodTheme)"
    by (simp add: foodTheme_def)
  have f: "cleanPath ''/videos/food''" by code_simp
  have a: "simpleSegment (effectiveArchiveFolderName foodTheme)" by code_simp
  have n: "simpleSegment ''a.mp4''" by code_simp
  have v: "listedAsVideo diskConfig ''a.mp4''" by code_simp
  have fl: "lookup foodStore (place diskConfig (''/videos/food'' @ ''/'' @ ''a.mp4''))
              = Some (RegularFile 10 1)"
    by code_simp
  have ar: "archiveVideo foodEnv 1 1 (''/videos/food'' @ ''/'' @ ''a.mp4'') foodStore
              = (Inr (), archivedFoodStore)"
    by code_simp
  have un: "unarchiveVideo foodEnv 1 1
              (path_join [''/videos/food'', effectiveArchiveFolderName foodTheme] @ ''/'' @ ''a.mp4'')
              archivedFoodStore = (Inr (), foodStore)"
    by code_simp
  note r = archive_unarchive_round_trip [OF food_theme food_instance b root f a n v fl ar un]
  from r have 1: "lookup archivedFoodStore (place diskConfig (''/videos/food'' @ ''/'' @ ''a.mp4'')) = None"
    by (rule conjunct1)
  from r have 5: "lookup foodStore
        (place diskConfig
           (path_join [''/videos/food'', effectiveArchiveFolderName foodTheme] @ ''/'' @ ''a.mp4''))
       = None"
    by blast
  show ?thesis using ar un 1 fl 5 by blast
qed

text \<open>
  C5. \<open>unarchiveVideo\<close>, documented as moving the video from the archive folder back to
  the main folder, moves it one directory up, and that is the main folder only when the
  archive folder name is a single segment. With the archive folder name \<open>archive/2024\<close>,
  which the resolver, \<open>archiveVideo\<close> and the guard of \<open>unarchiveVideo\<close> accept, the video
  \<open>/videos/food/a.mp4\<close> is unpublished in the inventory, archiving it succeeds and the
  inventory reports it at \<open>/videos/food/archive/2024/a.mp4\<close>, published; unarchiving that
  path succeeds too, and the file is then in \<open>/videos/food/archive\<close>, not at its first
  place, and the inventory no longer has it.
\<close>

theorem unarchive_misses_main_folder:
  "effectiveArchiveFolderName yearlyTheme = ''archive/2024''
   \<and> map (\<lambda>v. (fullPath v, isPublished v)) (projr (getThemeVideos yearlyEnv 1 foodStore))
       = [(''/videos/food/a.mp4'', False), (''/videos/food/b.mp4'', False)]
   \<and> archiveVideo yearlyEnv 1 1 ''/videos/food/a.mp4'' foodStore = (Inr (), yearlyArchivedStore)
   \<and> map (\<lambda>v. (fullPath v, isPublished v)) (projr (getThemeVideos yearlyEnv 1 yearlyArchivedStore))
       = [(''/videos/food/b.mp4'', False), (''/videos/food/archive/2024/a.mp4'', True)]
   \<and> unarchiveVideo yearlyEnv 1 1 ''/videos/food/archive/2024/a.mp4'' yearlyArchivedStore
       = (Inr (), yearlyReturnedStore)
   \<and> lookup yearlyReturnedStore (place diskConfig ''/videos/food/a.mp4'') = None
   \<and> lookup yearlyReturnedStore (place diskConfig ''/videos/food/archive/a.mp4'')
       = Some (RegularFile 10 1)
   \<and> map (\<lambda>v. (fullPath v, isPublished v)) (projr (getThemeVideos yearlyEnv 1 yearlyReturnedStore))
       = [(''/videos/food/b.mp4'', False)]"
  by code_simp

section \<open>A batch run twice\<close>





end
